(* ===== verification/Sealant_Prelude.thy ===== *)
theory Sealant_Prelude
  imports Main "HOL-Library.Word" "HOL-Library.Sublist" "HOL-Library.Code_Target_Nat"
begin

text \<open>
  The shared vocabulary of the development.

  \<^item> Types: a Rust \<open>u8\<close> is a HOL \<open>char\<close> (the 8-bit type whose string literals are the source's
    byte strings), so a \<open>Vec<u8>\<close>, a byte slice and a \<open>String\<close> (its UTF-8 bytes) are all
    \<open>byte list\<close>. Integers that travel on a wire or wrap in memory are words of their width; lengths
    and positions of data held in memory or on disk are \<open>nat\<close>.
  \<^item> A \<open>Result<T, E>\<close> is the sum \<open>'e + 'a\<close>: \<open>Err\<close> and \<open>Ok\<close> abbreviate its injections.
  \<^item> The big-endian integer codec of \<open>to_be_bytes\<close>/\<open>from_be_bytes\<close>.
  \<^item> List facts the components share: filling a range of a flag vector, first positions, contiguous
    occurrences.
\<close>

type_synonym byte = char
type_synonym bytes = "char list"
type_synonym u32 = "32 word"
type_synonym u64 = "64 word"

abbreviation Ok :: "'a \<Rightarrow> 'e + 'a" where "Ok \<equiv> Inr"
abbreviation Err :: "'e \<Rightarrow> 'e + 'a" where "Err \<equiv> Inl"

named_theorems codec_simps \<open>length and round-trip equations of the byte codecs\<close>
named_theorems wire_simps \<open>conversions between the domain types and the wire types\<close>

section \<open>Big-endian integers\<close>

text \<open>\<open>be_bytes n v\<close>: the \<open>n\<close>-byte big-endian encoding of \<open>v\<close> (modulo \<open>256 ^ n\<close>).\<close>

fun be_bytes :: "nat \<Rightarrow> nat \<Rightarrow> bytes" where
  "be_bytes 0 v = []"
| "be_bytes (Suc n) v = char_of (v div 256 ^ n) # be_bytes n v"

fun from_be :: "bytes \<Rightarrow> nat" where
  "from_be [] = 0"
| "from_be (b # bs) = of_char b * 256 ^ length bs + from_be bs"

definition u32_to_be :: "u32 \<Rightarrow> bytes" where
  "u32_to_be w = be_bytes 4 (unat w)"

definition u32_from_be :: "bytes \<Rightarrow> u32" where
  "u32_from_be bs = word_of_nat (from_be bs)"

definition u64_to_be :: "u64 \<Rightarrow> bytes" where
  "u64_to_be w = be_bytes 8 (unat w)"

definition u64_from_be :: "bytes \<Rightarrow> u64" where
  "u64_from_be bs = word_of_nat (from_be bs)"

text \<open>\<open>u32::try_from(len).unwrap_or(u32::MAX)\<close>.\<close>

definition u32_try_from :: "nat \<Rightarrow> u32 option" where
  "u32_try_from n = (if n < 2 ^ 32 then Some (word_of_nat n) else None)"

definition u32_saturate :: "nat \<Rightarrow> u32" where
  "u32_saturate n = (case u32_try_from n of Some w \<Rightarrow> w | None \<Rightarrow> - 1)"

section \<open>Results\<close>

text \<open>The \<open>?\<close> operator, \<open>Option::ok_or\<close>, and \<open>transpose\<close>/\<open>collect\<close> of an option or a list of results.\<close>

definition and_then :: "'e + 'a \<Rightarrow> ('a \<Rightarrow> 'e + 'b) \<Rightarrow> 'e + 'b" where
  "and_then r f = (case r of Inl e \<Rightarrow> Inl e | Inr a \<Rightarrow> f a)"

definition ok_or :: "'a option \<Rightarrow> 'e \<Rightarrow> 'e + 'a" where
  "ok_or x e = (case x of None \<Rightarrow> Inl e | Some a \<Rightarrow> Inr a)"

definition try_option :: "('a \<Rightarrow> 'e + 'b) \<Rightarrow> 'a option \<Rightarrow> 'e + 'b option" where
  "try_option f x = (case x of None \<Rightarrow> Inr None | Some a \<Rightarrow> and_then (f a) (\<lambda>b. Inr (Some b)))"

fun try_map :: "('a \<Rightarrow> 'e + 'b) \<Rightarrow> 'a list \<Rightarrow> 'e + 'b list" where
  "try_map f [] = Inr []"
| "try_map f (x # xs) = and_then (f x) (\<lambda>y. and_then (try_map f xs) (\<lambda>ys. Inr (y # ys)))"

lemma and_then_simps [simp]: "and_then (Inl e) f = Inl e" "and_then (Inr a) f = f a"
  by (simp_all add: and_then_def)

lemma ok_or_simps [simp]: "ok_or None e = Inl e" "ok_or (Some a) e = Inr a"
  by (simp_all add: ok_or_def)

lemma try_option_map [wire_simps]: "(\<And>a. f (g a) = Inr a) \<Longrightarrow> try_option f (map_option g x) = Inr x"
  by (cases x) (simp_all add: try_option_def)

lemma try_map_map [wire_simps]: "(\<And>a. f (g a) = Inr a) \<Longrightarrow> try_map f (map g xs) = Inr xs"
  by (induction xs) simp_all

lemma map_option_inverse [wire_simps]: "(\<And>a. f (g a) = a) \<Longrightarrow> map_option f (map_option g x) = x"
  by (cases x) simp_all

lemma map_inverse [wire_simps]: "(\<And>a. f (g a) = a) \<Longrightarrow> map f (map g xs) = xs"
  by (induction xs) simp_all

section \<open>Flag vectors and spans\<close>

text \<open>\<open>v[i..j].fill(true)\<close>, for \<open>i \<le> j \<le> v.len()\<close>.\<close>

definition fill_range :: "nat \<Rightarrow> nat \<Rightarrow> bool list \<Rightarrow> bool list" where
  "fill_range i j v = take i v @ replicate (j - i) True @ drop j v"

lemma length_be_bytes [simp, codec_simps]: "length (be_bytes n v) = n"
  by (induction n) auto

lemma of_char_le_255: "(of_char (b :: char) :: nat) \<le> 255"
proof -
  have "(of_char b :: nat) mod 256 < 256"
    by (rule mod_less_divisor) simp
  then have "(of_char b :: nat) < 256"
    unfolding of_char_mod_256 .
  then show ?thesis
    by linarith
qed

lemma from_be_less: "from_be bs < 256 ^ length bs"
proof (induction bs)
  case Nil
  then show ?case by simp
next
  case (Cons b bs)
  have "(of_char b :: nat) * 256 ^ length bs \<le> 255 * 256 ^ length bs"
    by (intro mult_le_mono1 of_char_le_255)
  then have "of_char b * 256 ^ length bs + from_be bs < 256 * 256 ^ length bs"
    using Cons by linarith
  then show ?case by simp
qed

lemma from_be_be_bytes [codec_simps]: "from_be (be_bytes n v) = v mod 256 ^ n"
proof (induction n)
  case 0
  then show ?case by simp
next
  case (Suc n)
  have "v mod 256 ^ Suc n = (v div 256 ^ n mod 256) * 256 ^ n + v mod 256 ^ n"
    by (metis mod_mult2_eq mult.commute power_Suc2)
  with Suc show ?case by simp
qed

lemma be_bytes_mod: "be_bytes n (v mod 256 ^ n) = be_bytes n v"
proof -
  have "be_bytes n (v mod 256 ^ m) = be_bytes n v" if "n \<le> m" for m
    using that
  proof (induction n)
    case 0
    then show ?case by simp
  next
    case (Suc n)
    then obtain k where m: "m = n + Suc k"
      by (metis add_Suc_right less_iff_Suc_add Suc_le_lessD)
    have "v mod (256 ^ n * 256 ^ Suc k) div 256 ^ n = v div 256 ^ n mod 256 ^ Suc k"
      unfolding mod_mult2_eq by simp
    then have "v mod 256 ^ m div 256 ^ n = v div 256 ^ n mod 256 ^ Suc k"
      unfolding m power_add .
    then have "v mod 256 ^ m div 256 ^ n mod 256 = v div 256 ^ n mod 256"
      by (simp add: mod_mod_cancel)
    then have "char_of (v mod 256 ^ m div 256 ^ n) = (char_of (v div 256 ^ n) :: char)"
      by (metis char_of_mod_256)
    with Suc show ?case by simp
  qed
  then show ?thesis by simp
qed

lemma be_bytes_from_be [codec_simps]: "length bs = n \<Longrightarrow> be_bytes n (from_be bs) = bs"
proof (induction bs arbitrary: n)
  case Nil
  then show ?case by simp
next
  case (Cons b bs)
  then obtain m where n: "n = Suc m" and m: "length bs = m"
    by (cases n) auto
  have lt: "from_be bs < 256 ^ m"
    using from_be_less m by blast
  have "(of_char b * 256 ^ m + from_be bs) div 256 ^ m = of_char b"
    using lt by simp
  moreover have "be_bytes m (of_char b * 256 ^ m + from_be bs) = be_bytes m (from_be bs)"
    by (metis be_bytes_mod mod_mult_self3)
  ultimately show ?case
    using Cons.IH m n by simp
qed

lemma length_u32_to_be [simp, codec_simps]: "length (u32_to_be w) = 4"
  by (simp add: u32_to_be_def)

lemma length_u64_to_be [simp, codec_simps]: "length (u64_to_be w) = 8"
  by (simp add: u64_to_be_def)

lemma u32_from_to_be [simp, codec_simps]: "u32_from_be (u32_to_be w) = w"
proof -
  have "unat w < 256 ^ 4"
    using unsigned_less [of w, where ?'a = nat] by simp
  then show ?thesis
    by (simp add: u32_to_be_def u32_from_be_def from_be_be_bytes del: power_numeral)
qed

lemma u64_from_to_be [simp, codec_simps]: "u64_from_be (u64_to_be w) = w"
proof -
  have "unat w < 256 ^ 8"
    using unsigned_less [of w, where ?'a = nat] by simp
  then show ?thesis
    by (simp add: u64_to_be_def u64_from_be_def from_be_be_bytes del: power_numeral)
qed

lemma u32_to_from_be: "length bs = 4 \<Longrightarrow> u32_to_be (u32_from_be bs) = bs"
proof -
  assume l: "length bs = 4"
  have "from_be bs < 2 ^ 32"
    using from_be_less [of bs] l by simp
  then have "unat (word_of_nat (from_be bs) :: u32) = from_be bs"
    by (simp add: unsigned_of_nat take_bit_nat_eq_self)
  with l show ?thesis
    by (simp add: u32_to_be_def u32_from_be_def be_bytes_from_be)
qed

lemma u64_to_from_be: "length bs = 8 \<Longrightarrow> u64_to_be (u64_from_be bs) = bs"
proof -
  assume l: "length bs = 8"
  have "from_be bs < 2 ^ 64"
    using from_be_less [of bs] l by simp
  then have "unat (word_of_nat (from_be bs) :: u64) = from_be bs"
    by (simp add: unsigned_of_nat take_bit_nat_eq_self)
  with l show ?thesis
    by (simp add: u64_to_be_def u64_from_be_def be_bytes_from_be)
qed

lemma u32_saturate_small: "n < 2 ^ 32 \<Longrightarrow> unat (u32_saturate n) = n"
  by (simp add: u32_saturate_def u32_try_from_def unsigned_of_nat take_bit_nat_eq_self)

lemma u32_saturate_le: "unat (u32_saturate n) \<le> n"
proof (cases "n < 2 ^ 32")
  case True
  then show ?thesis by (simp add: u32_saturate_small)
next
  case False
  have "unat (- 1 :: u32) < 2 ^ 32"
    using unsigned_less [of "- 1 :: u32", where ?'a = nat] by simp
  with False show ?thesis
    by (simp add: u32_saturate_def u32_try_from_def)
qed

lemma u64_of_nat_inj:
  assumes "(word_of_nat i :: u64) = word_of_nat k" and "i < 2 ^ 64" and "k < 2 ^ 64"
  shows "i = k"
proof -
  have "unat (word_of_nat i :: u64) = unat (word_of_nat k :: u64)"
    using assms(1) by simp
  with assms(2,3) show ?thesis
    by (simp add: unsigned_of_nat take_bit_nat_eq_self)
qed

section \<open>List facts\<close>

lemma length_fill_range [simp]: "i \<le> j \<Longrightarrow> j \<le> length v \<Longrightarrow> length (fill_range i j v) = length v"
  by (simp add: fill_range_def)

lemma nth_fill_range [simp]:
  "i \<le> j \<Longrightarrow> j \<le> length v \<Longrightarrow> k < length v \<Longrightarrow>
   fill_range i j v ! k = (v ! k \<or> i \<le> k \<and> k < j)"
  by (auto simp: fill_range_def nth_append min_def)

lemma fill_range_empty [simp]: "fill_range i i v = v"
  by (simp add: fill_range_def)

text \<open>An occurrence of \<open>l\<close> at position \<open>s\<close> of \<open>xs\<close>.\<close>

abbreviation occurs_at :: "'a list \<Rightarrow> nat \<Rightarrow> 'a list \<Rightarrow> bool" where
  "occurs_at l s xs \<equiv> prefix l (drop s xs)"

lemma occurs_at_length: "occurs_at l s xs \<Longrightarrow> l \<noteq> [] \<Longrightarrow> s + length l \<le> length xs"
  using prefix_length_le [of l "drop s xs"] by (cases "s \<le> length xs") auto

lemma occurs_at_append: "occurs_at l s xs \<Longrightarrow> occurs_at l s (xs @ ys)"
  by (simp add: prefix_def) (metis append_assoc drop_append)

lemma occurs_at_append_decided:
  assumes "s < length xs" and "\<not> prefix (drop s xs) l"
  shows "occurs_at l s (xs @ ys) \<longleftrightarrow> occurs_at l s xs"
proof -
  have d: "drop s (xs @ ys) = drop s xs @ ys"
    using assms(1) by simp
  show ?thesis
    unfolding d prefix_append using assms(2) by (auto simp: prefix_def)
qed

end
