(* ===== verification/Protocol.thy ===== *)
theory Protocol
  imports Sealant_Prelude
begin

text \<open>
  The typed protocol vocabulary of \<open>crates/sealant-protocol\<close> the daemon's components exchange:
  \<open>ids.rs\<close> (sequence and stream offsets), \<open>event.rs\<close> (every event payload, the envelope, priorities
  and the withholding of argument text), \<open>error.rs\<close> (control error codes) and \<open>stream.rs\<close>
  (conduit frames). A Rust struct is a record, an enum a datatype with the source's constructors;
  a field's name carries a prefix for its struct. String ids are their strings. \<open>i32\<close>/\<open>i64\<close> fields
  are words read as two's complement; they are carried, never computed with.
\<close>

type_synonym id = string

section \<open>Sequence and offset newtypes (\<open>ids.rs\<close>)\<close>

definition saturating_add :: "'a::len word \<Rightarrow> 'a word \<Rightarrow> 'a word" where
  "saturating_add a b = (if unat a + unat b < 2 ^ LENGTH('a) then a + b else - 1)"

definition sequence_next :: "u64 \<Rightarrow> u64" where
  "sequence_next s = saturating_add s 1"

definition offset_advance :: "u64 \<Rightarrow> u64 \<Rightarrow> u64" where
  "offset_advance o' n = saturating_add o' n"

section \<open>Event enums and payload structs (\<open>event.rs\<close>)\<close>

datatype runtime_state = RtStarting | RtHealthy | RtDegraded | RtUnhealthy | RtShuttingDown | RtStopped

datatype process_state =
  PsCreated | PsStarting | PsRunning | PsTerminating | PsExited | PsSignaled | PsFailed

datatype exit_reason =
  ErExited | ErSignaled | ErTimeout | ErCancelled | ErStartFailed | ErLost

datatype stream_kind = Stdin | Stdout | Stderr | PtyInput | PtyOutput

datatype encoding = Base64

datatype capture_method = Pipe | Pty | Proxy | Inotify | SnapshotMethod | Ebpf | Netlink | Internal

datatype confidence = Observed | Inferred | Unknown

datatype event_priority = Critical | Normal | Low

datatype feature =
  FilesystemDiffing | LiveFilesystemWatching | NetworkCollection | PayloadCapture | VerboseIoCapture | ResourceSampling

record artifact_ref =
  ar_algo :: string
  ar_hash :: string
  ar_bytes :: u64

record transform_meta =
  tm_redacted :: bool
  tm_truncated :: bool
  tm_coalesced :: bool
  tm_original_byte_count :: "u64 option"

record process_started =
  st_pid :: u32
  st_pgid :: u32
  st_pidfd :: bool
  st_executable :: string
  st_args :: "string list"
  st_cwd :: string
  st_started_at :: u64
  st_arg_count :: u32
  st_arg_lengths :: "u32 list"

record process_exited =
  ex_exit_code :: "u32 option"
  ex_signal :: "u32 option"
  ex_reason :: exit_reason
  ex_duration_micros :: u64

record io_chunk =
  io_stream :: stream_kind
  io_encoding :: encoding
  io_byte_count :: u64
  io_stream_offset :: u64
  io_content :: "bytes option"
  io_artifact :: "artifact_ref option"
  io_transform :: "transform_meta option"

record runtime_state_changed =
  sc_state :: runtime_state
  sc_reason :: "string option"

record runtime_heartbeat =
  hb_state :: runtime_state

record telemetry_dropped =
  td_reason :: string
  td_count :: u64
  td_priority :: event_priority

datatype file_change_kind = Added | Modified | Deleted | Renamed | MetadataChanged

datatype file_type = FtFile | FtDir | FtSymlink | FtOther

record file_entry =
  fe_path :: string
  fe_file_type :: file_type
  fe_size :: u64
  fe_mtime_micros :: u64
  fe_mode :: u32
  fe_hash :: "string option"
  fe_symlink_target :: "string option"

record file_change =
  fc_kind :: file_change_kind
  fc_path :: string
  fc_rename_from :: "string option"
  fc_entry :: "file_entry option"
  fc_certain :: bool

record file_watch_overflow =
  wo_root :: string

record file_snapshot_completed =
  fsc_root :: string
  fsc_file_count :: u64

record file_diff_available =
  da_added :: u64
  da_modified :: u64
  da_deleted :: u64
  da_renamed :: u64

datatype network_scheme = Http | HttpsConnect

record network_request =
  nr_scheme :: network_scheme
  nr_method :: "string option"
  nr_host :: string
  nr_port :: "16 word"
  nr_path :: "string option"
  nr_status :: "u32 option"
  nr_bytes_sent :: u64
  nr_bytes_received :: u64
  nr_duration_micros :: u64

record network_source_observed =
  ns_host :: string
  ns_resolved_ips :: "string list"
  ns_port :: "16 word"
  ns_scheme :: "network_scheme option"
  ns_method :: "string option"
  ns_path :: "string option"
  ns_status :: "u32 option"

datatype event_payload =
    RuntimeStateChanged runtime_state_changed
  | RuntimeHeartbeat runtime_heartbeat
  | ProcessStarted process_started
  | ProcessExited process_exited
  | IoChunk io_chunk
  | TelemetryDropped telemetry_dropped
  | FileChange file_change
  | FileWatchOverflow file_watch_overflow
  | FileSnapshotCompleted file_snapshot_completed
  | FileDiffAvailable file_diff_available
  | NetworkRequest network_request
  | NetworkSourceObserved network_source_observed

section \<open>Environment variables (\<open>command.rs\<close>)\<close>

text \<open>\<open>EnvVar\<close> and \<open>SecretEnvVar\<close>, the same pair of strings.\<close>

record env_var =
  env_key :: string
  env_value :: string

section \<open>Withholding argument text\<close>

definition describe_args :: "string list \<Rightarrow> u32 \<times> u32 list" where
  "describe_args args = (u32_saturate (length args), map (\<lambda>a. u32_saturate (length a)) args)"

definition process_started_new ::
  "u32 \<Rightarrow> u32 \<Rightarrow> bool \<Rightarrow> string \<Rightarrow> string list \<Rightarrow> string \<Rightarrow> u64 \<Rightarrow> process_started" where
  "process_started_new pid pgid pidfd executable args cwd started_at =
     (let (arg_count, arg_lengths) = describe_args args in
      \<lparr>st_pid = pid, st_pgid = pgid, st_pidfd = pidfd, st_executable = executable, st_args = [],
       st_cwd = cwd, st_started_at = started_at, st_arg_count = arg_count,
       st_arg_lengths = arg_lengths\<rparr>)"

text \<open>A \<open>&mut self\<close> method returns its value and the updated payload.\<close>

definition withhold_started_args :: "process_started \<Rightarrow> bool \<times> process_started" where
  "withhold_started_args p =
     (if st_args p = [] then (False, p)
      else let (c, ls) = describe_args (st_args p) in
           (True, p\<lparr>st_args := [], st_arg_count := c, st_arg_lengths := ls\<rparr>))"

fun withhold_args :: "event_payload \<Rightarrow> bool \<times> event_payload" where
  "withhold_args (ProcessStarted started) =
     (let (changed, started') = withhold_started_args started in (changed, ProcessStarted started'))"
| "withhold_args p = (False, p)"

fun event_type :: "event_payload \<Rightarrow> string" where
  "event_type (RuntimeStateChanged _) = ''runtime.stateChanged''"
| "event_type (RuntimeHeartbeat _) = ''runtime.heartbeat''"
| "event_type (ProcessStarted _) = ''process.started''"
| "event_type (ProcessExited _) = ''process.exited''"
| "event_type (IoChunk _) = ''io.chunk''"
| "event_type (TelemetryDropped _) = ''telemetry.dropped''"
| "event_type (FileChange _) = ''file.changed''"
| "event_type (FileWatchOverflow _) = ''file.watchOverflow''"
| "event_type (FileSnapshotCompleted _) = ''file.snapshotCompleted''"
| "event_type (FileDiffAvailable _) = ''file.diffAvailable''"
| "event_type (NetworkRequest _) = ''network.request''"
| "event_type (NetworkSourceObserved _) = ''network.sourceObserved''"

fun payload_priority :: "event_payload \<Rightarrow> event_priority" where
  "payload_priority (RuntimeStateChanged _) = Critical"
| "payload_priority (ProcessStarted _) = Critical"
| "payload_priority (ProcessExited _) = Critical"
| "payload_priority (TelemetryDropped _) = Critical"
| "payload_priority (FileWatchOverflow _) = Critical"
| "payload_priority (FileDiffAvailable _) = Critical"
| "payload_priority (IoChunk _) = Normal"
| "payload_priority (FileChange _) = Normal"
| "payload_priority (FileSnapshotCompleted _) = Normal"
| "payload_priority (NetworkRequest _) = Normal"
| "payload_priority (NetworkSourceObserved _) = Normal"
| "payload_priority (RuntimeHeartbeat _) = Low"

record event_envelope =
  ev_schema_version :: u32
  ev_event_id :: id
  ev_runtime_id :: id
  ev_execution_id :: "id option"
  ev_session_id :: "id option"
  ev_process_id :: "id option"
  ev_request_id :: "id option"
  ev_sequence :: u64
  ev_observed_at :: u64
  ev_monotonic_timestamp :: u64
  ev_capture_method :: capture_method
  ev_confidence :: confidence
  ev_payload :: event_payload

definition priority :: "event_envelope \<Rightarrow> event_priority" where
  "priority e = payload_priority (ev_payload e)"

section \<open>Conduit frames (\<open>stream.rs\<close>)\<close>

record stream_end =
  se_exit_code :: "u32 option"
  se_signal :: "u32 option"
  se_error :: "string option"

datatype stream_payload = Data bytes | WindowUpdate u64 | End stream_end

record stream_frame =
  sf_channel_id :: id
  sf_seq :: u64
  sf_payload :: stream_payload

section \<open>Control errors (\<open>error.rs\<close>)\<close>

datatype control_error_code =
    InvalidJson | UnsupportedVersion | FrameTooLarge | UnknownCommand | InvalidArgument
  | MissingCommand | ExecutionNotFound | SessionNotFound | ProcessNotFound | ProcessStartFailed
  | PtyAllocationFailed | PermissionDenied | PolicyDenied | FeatureUnavailable
  | CapabilityUnavailable | QueueFull | RuntimeShuttingDown | InternalError

fun as_wire :: "control_error_code \<Rightarrow> string" where
  "as_wire InvalidJson = ''invalid-json''"
| "as_wire UnsupportedVersion = ''unsupported-version''"
| "as_wire FrameTooLarge = ''frame-too-large''"
| "as_wire UnknownCommand = ''unknown-command''"
| "as_wire InvalidArgument = ''invalid-argument''"
| "as_wire MissingCommand = ''missing-command''"
| "as_wire ExecutionNotFound = ''execution-not-found''"
| "as_wire SessionNotFound = ''session-not-found''"
| "as_wire ProcessNotFound = ''process-not-found''"
| "as_wire ProcessStartFailed = ''process-start-failed''"
| "as_wire PtyAllocationFailed = ''pty-allocation-failed''"
| "as_wire PermissionDenied = ''permission-denied''"
| "as_wire PolicyDenied = ''policy-denied''"
| "as_wire FeatureUnavailable = ''feature-unavailable''"
| "as_wire CapabilityUnavailable = ''capability-unavailable''"
| "as_wire QueueFull = ''queue-full''"
| "as_wire RuntimeShuttingDown = ''runtime-shutting-down''"
| "as_wire InternalError = ''internal-error''"

text \<open>\<open>detail\<close> is a JSON value of \<open>serde_json\<close>, a library: its type is the parameter \<open>'j\<close>.\<close>

record 'j control_error =
  ce_code :: control_error_code
  ce_message :: string
  ce_detail :: "'j option"

definition control_error_new :: "control_error_code \<Rightarrow> string \<Rightarrow> 'j control_error" where
  "control_error_new code message = \<lparr>ce_code = code, ce_message = message, ce_detail = None\<rparr>"

definition with_detail :: "'j control_error \<Rightarrow> 'j \<Rightarrow> 'j control_error" where
  "with_detail e detail = e\<lparr>ce_detail := Some detail\<rparr>"

section \<open>Facts\<close>

lemma saturating_add_le: "a \<le> saturating_add a b"
proof (cases "unat a + unat b < 2 ^ LENGTH('a)")
  case True
  then have "unat (a + b) = unat a + unat b"
    by (simp add: unat_word_ariths)
  with True show ?thesis
    by (simp add: saturating_add_def word_le_nat_alt)
next
  case False
  then show ?thesis by (simp add: saturating_add_def)
qed

lemma unat_saturating_add:
  fixes a b :: "'a::len word"
  shows "unat a + unat b < 2 ^ LENGTH('a) \<Longrightarrow> unat (saturating_add a b) = unat a + unat b"
  by (simp add: saturating_add_def unat_word_ariths)

lemma as_wire_inj: "as_wire a = as_wire b \<Longrightarrow> a = b"
  by (cases a; cases b) simp_all

lemma withhold_started_args_empty [simp]: "st_args (snd (withhold_started_args p)) = []"
  by (simp add: withhold_started_args_def describe_args_def)

lemma withhold_args_fixed: "\<not> fst (withhold_args p) \<Longrightarrow> snd (withhold_args p) = p"
  by (cases p) (auto simp: withhold_started_args_def describe_args_def split: if_splits)

lemma payload_priority_withhold [simp]:
  "payload_priority (snd (withhold_args p)) = payload_priority p"
  by (cases p) (auto simp: withhold_started_args_def describe_args_def)

lemma event_type_inj_constructor:
  "event_type p = ''process.started'' \<longleftrightarrow> (\<exists>s. p = ProcessStarted s)"
  by (cases p) auto

end
