(* ===== verification/Rust_Str.thy ===== *)
theory Rust_Str
  imports Sealant_Prelude
begin

text \<open>
  The string operations of Rust's standard library that the sources call, on UTF-8 bytes: ASCII
  classes and case, \<open>str::trim\<close> and its halves (over the UTF-8 encodings of the Unicode white-space
  characters), \<open>str::lines\<close>, \<open>str::split_once\<close>, \<open>join\<close>, \<open>str::parse::<u32>\<close> and the decimal
  \<open>Display\<close> of an unsigned integer.
\<close>

section \<open>ASCII\<close>

definition is_ascii_digit :: "byte \<Rightarrow> bool" where
  "is_ascii_digit b \<longleftrightarrow> (let n = (of_char b :: nat) in 48 \<le> n \<and> n \<le> 57)"

definition is_ascii_uppercase :: "byte \<Rightarrow> bool" where
  "is_ascii_uppercase b \<longleftrightarrow> (let n = (of_char b :: nat) in 65 \<le> n \<and> n \<le> 90)"

definition is_ascii_lowercase :: "byte \<Rightarrow> bool" where
  "is_ascii_lowercase b \<longleftrightarrow> (let n = (of_char b :: nat) in 97 \<le> n \<and> n \<le> 122)"

definition is_ascii_alphabetic :: "byte \<Rightarrow> bool" where
  "is_ascii_alphabetic b \<longleftrightarrow> is_ascii_uppercase b \<or> is_ascii_lowercase b"

definition is_ascii_alphanumeric :: "byte \<Rightarrow> bool" where
  "is_ascii_alphanumeric b \<longleftrightarrow> is_ascii_digit b \<or> is_ascii_alphabetic b"

definition ascii_upper :: "byte \<Rightarrow> byte" where
  "ascii_upper b = (if is_ascii_lowercase b then char_of (of_char b - 32 :: nat) else b)"

definition to_ascii_uppercase :: "bytes \<Rightarrow> bytes" where
  "to_ascii_uppercase = map ascii_upper"

definition eq_ignore_ascii_case :: "bytes \<Rightarrow> bytes \<Rightarrow> bool" where
  "eq_ignore_ascii_case a b \<longleftrightarrow> to_ascii_uppercase a = to_ascii_uppercase b"

definition LF :: byte where
  "LF = CHR 0x0A"

definition CR :: byte where
  "CR = CHR 0x0D"

definition NUL :: byte where
  "NUL = CHR 0x00"

section \<open>Trimming\<close>

text \<open>The UTF-8 encodings of the characters with the Unicode property \<open>White_Space\<close>.\<close>

definition WHITE_SPACE :: "bytes list" where
  "WHITE_SPACE =
     map (\<lambda>n. [char_of (n :: nat)]) ([9..<14] @ [32]) @
     [[CHR 0xC2, CHR 0x85], [CHR 0xC2, CHR 0xA0], [CHR 0xE1, CHR 0x9A, CHR 0x80]] @
     map (\<lambda>n. [CHR 0xE2, CHR 0x80, char_of (n :: nat)]) ([128..<139] @ [168, 169, 175]) @
     [[CHR 0xE2, CHR 0x81, CHR 0x9F], [CHR 0xE3, CHR 0x80, CHR 0x80]]"

function trim_start :: "bytes \<Rightarrow> bytes" where
  "trim_start s =
     (case find (\<lambda>w. prefix w s) WHITE_SPACE of
        Some w \<Rightarrow> if w = [] \<or> s = [] then s else trim_start (drop (length w) s)
      | None \<Rightarrow> s)"
  by pat_completeness auto
termination
  by (relation "measure length") auto

definition trim_end :: "bytes \<Rightarrow> bytes" where
  "trim_end s =
     (case find (\<lambda>k. trim_start (drop k s) = []) [0..<length s] of Some k \<Rightarrow> take k s | None \<Rightarrow> s)"

definition trim :: "bytes \<Rightarrow> bytes" where
  "trim s = trim_end (trim_start s)"

definition trim_end_matches :: "byte \<Rightarrow> bytes \<Rightarrow> bytes" where
  "trim_end_matches c s = rev (dropWhile (\<lambda>b. b = c) (rev s))"

section \<open>Lines, splitting and joining\<close>

definition strip_cr :: "bytes \<Rightarrow> bytes" where
  "strip_cr l = (if l \<noteq> [] \<and> last l = CR then butlast l else l)"

text \<open>\<open>lines_from cur s\<close>: the lines of \<open>s\<close>, the first of which already has the bytes \<open>cur\<close>.\<close>

fun lines_from :: "bytes \<Rightarrow> bytes \<Rightarrow> bytes list" where
  "lines_from cur [] = (if cur = [] then [] else [cur])"
| "lines_from cur (b # bs) =
     (if b = LF then strip_cr cur # lines_from [] bs else lines_from (cur @ [b]) bs)"

definition lines :: "bytes \<Rightarrow> bytes list" where
  "lines s = lines_from [] s"

fun split_once :: "byte \<Rightarrow> bytes \<Rightarrow> (bytes \<times> bytes) option" where
  "split_once c [] = None"
| "split_once c (b # bs) =
     (if b = c then Some ([], bs)
      else case split_once c bs of Some (l, r) \<Rightarrow> Some (b # l, r) | None \<Rightarrow> None)"

fun join :: "bytes \<Rightarrow> bytes list \<Rightarrow> bytes" where
  "join sep [] = []"
| "join sep [x] = x"
| "join sep (x # y # ys) = x @ sep @ join sep (y # ys)"

definition strip_prefix :: "bytes \<Rightarrow> bytes \<Rightarrow> bytes option" where
  "strip_prefix p s = (if prefix p s then Some (drop (length p) s) else None)"

definition strip_suffix :: "bytes \<Rightarrow> bytes \<Rightarrow> bytes option" where
  "strip_suffix p s = (if suffix p s then Some (take (length s - length p) s) else None)"

section \<open>Decimal integers\<close>

text \<open>\<open>digits_value\<close> is \<open>None\<close> on an empty string, a byte that is no digit, and a value over the bound.\<close>

fun digits_value :: "nat \<Rightarrow> nat \<Rightarrow> bytes \<Rightarrow> nat option" where
  "digits_value bound acc [] = Some acc"
| "digits_value bound acc (b # bs) =
     (if is_ascii_digit b then
        (let v = acc * 10 + (of_char b - 48) in if bound < v then None else digits_value bound v bs)
      else None)"

definition parse_unsigned :: "nat \<Rightarrow> bytes \<Rightarrow> nat option" where
  "parse_unsigned bound s =
     (let ds = (case s of b # bs \<Rightarrow> if b = CHR ''+'' then bs else s | [] \<Rightarrow> [])
      in if ds = [] then None else digits_value bound 0 ds)"

definition parse_u64 :: "bytes \<Rightarrow> nat option" where
  "parse_u64 s = parse_unsigned (2 ^ 64 - 1) s"

definition parse_u32 :: "bytes \<Rightarrow> nat option" where
  "parse_u32 s = parse_unsigned (2 ^ 32 - 1) s"

function decimal :: "nat \<Rightarrow> bytes" where
  "decimal n = (if n < 10 then [char_of (48 + n)] else decimal (n div 10) @ [char_of (48 + n mod 10)])"
  by pat_completeness auto
termination
  by (relation "measure id") auto

text \<open>\<open>{n:0w}\<close>: the decimal digits of \<open>n\<close>, zero-padded on the left to width \<open>w\<close>.\<close>

definition padded_decimal :: "nat \<Rightarrow> nat \<Rightarrow> bytes" where
  "padded_decimal w n = replicate (w - length (decimal n)) (CHR ''0'') @ decimal n"

text \<open>\<open>{n:x}\<close>.\<close>

definition hex_digit :: "nat \<Rightarrow> byte" where
  "hex_digit n = (if n < 10 then char_of (48 + n) else char_of (87 + n))"

function hex_lower :: "nat \<Rightarrow> bytes" where
  "hex_lower n = (if n < 16 then [hex_digit n] else hex_lower (n div 16) @ [hex_digit (n mod 16)])"
  by pat_completeness auto
termination
  by (relation "measure id") auto

text \<open>\<open>s.rsplit(sep).next()\<close>: what follows the last \<open>sep\<close>, all of \<open>s\<close> without one.\<close>

definition rsplit_next :: "byte \<Rightarrow> bytes \<Rightarrow> bytes" where
  "rsplit_next sep s = rev (takeWhile (\<lambda>b. b \<noteq> sep) (rev s))"

declare trim_start.simps [simp del] decimal.simps [simp del] hex_lower.simps [simp del]

lemma of_char_char_of_small: "n < 256 \<Longrightarrow> (of_char (char_of n :: char) :: nat) = n"
  by simp

lemma ascii_upper_not_lower: "\<not> is_ascii_lowercase (ascii_upper b)"
proof (cases "is_ascii_lowercase b")
  case True
  then have "97 \<le> (of_char b :: nat)" "(of_char b :: nat) \<le> 122"
    by (simp_all add: is_ascii_lowercase_def Let_def)
  then show ?thesis
    using True by (simp add: ascii_upper_def is_ascii_lowercase_def Let_def)
qed (simp add: ascii_upper_def)

lemma to_ascii_uppercase_idem [simp]: "to_ascii_uppercase (to_ascii_uppercase s) = to_ascii_uppercase s"
proof -
  have "ascii_upper (ascii_upper b) = ascii_upper b" for b
    using ascii_upper_not_lower [of b] by (simp add: ascii_upper_def [of "ascii_upper b"])
  then show ?thesis
    by (simp add: to_ascii_uppercase_def)
qed

lemma split_once_append: "split_once c s = Some (l, r) \<Longrightarrow> s = l @ c # r \<and> c \<notin> set l"
proof (induction s arbitrary: l)
  case (Cons b bs)
  show ?case
  proof (cases "b = c")
    case False
    with Cons.prems obtain l' where "split_once c bs = Some (l', r)" "l = b # l'"
      by (cases "split_once c bs") auto
    with False Cons.IH show ?thesis by simp
  qed (use Cons.prems in simp)
qed simp

section \<open>Decimal round trip\<close>

lemma digits_value_append:
  "digits_value bound acc (xs @ ys) =
     (case digits_value bound acc xs of Some v \<Rightarrow> digits_value bound v ys | None \<Rightarrow> None)"
  by (induction xs arbitrary: acc) (auto simp: Let_def)

lemma is_ascii_digit_char_of: "(n :: nat) < 10 \<Longrightarrow> is_ascii_digit (char_of (48 + n))"
  by (simp add: is_ascii_digit_def Let_def)

lemma decimal_digits: "list_all is_ascii_digit (decimal n)"
proof (induction n rule: decimal.induct)
  case (1 n)
  then show ?case
    by (subst decimal.simps) (auto simp: is_ascii_digit_char_of)
qed

lemma decimal_not_Nil [simp]: "decimal n \<noteq> []"
  by (subst decimal.simps) simp

lemma digits_value_decimal: "n \<le> bound \<Longrightarrow> digits_value bound 0 (decimal n) = Some n"
proof (induction n rule: decimal.induct)
  case (1 n)
  show ?case
  proof (cases "n < 10")
    case True
    with 1 show ?thesis
      by (subst decimal.simps) (simp add: is_ascii_digit_char_of Let_def)
  next
    case False
    have "n div 10 * 10 + n mod 10 = n"
      by simp
    with False 1 show ?thesis
      by (subst decimal.simps) (simp add: digits_value_append is_ascii_digit_char_of Let_def)
  qed
qed

lemma parse_unsigned_decimal: "n \<le> bound \<Longrightarrow> parse_unsigned bound (decimal n) = Some n"
proof -
  assume n: "n \<le> bound"
  obtain b bs where d: "decimal n = b # bs"
    by (meson decimal_not_Nil list.exhaust)
  then have "is_ascii_digit b"
    using decimal_digits [of n] by simp
  then have "b \<noteq> CHR ''+''"
    by (auto simp: is_ascii_digit_def)
  with n d show ?thesis
    using digits_value_decimal [OF n] by (simp add: parse_unsigned_def)
qed

lemma trim_start_digits:
  assumes "list_all is_ascii_digit s"
  shows "trim_start s = s"
proof -
  have "list_all (\<lambda>w. w \<noteq> [] \<and> \<not> is_ascii_digit (hd w)) WHITE_SPACE"
    by code_simp
  then have "\<not> prefix w s" if "w \<in> set WHITE_SPACE" for w
    using that assms by (cases s; cases w) (auto simp: list_all_iff)
  then have "find (\<lambda>w. prefix w s) WHITE_SPACE = None"
    by (simp add: find_None_iff)
  then show ?thesis
    by (subst trim_start.simps) simp
qed

lemma trim_decimal: "trim (decimal n) = decimal n"
proof -
  have "list_all is_ascii_digit (drop k (decimal n))" for k
    using decimal_digits [of n] by (auto simp: list_all_iff dest: in_set_dropD)
  then have "find (\<lambda>k. trim_start (drop k (decimal n)) = []) [0..<length (decimal n)] = None"
    by (simp add: find_None_iff trim_start_digits)
  then show ?thesis
    by (simp add: trim_def trim_end_def trim_start_digits decimal_digits)
qed

lemma digits_value_bound: "digits_value bound acc s = Some v \<Longrightarrow> acc \<le> bound \<Longrightarrow> v \<le> bound"
  by (induction s arbitrary: acc) (auto simp: Let_def split: if_splits)

lemma parse_u64_bound: "parse_u64 s = Some n \<Longrightarrow> n \<le> 2 ^ 64 - 1"
  using digits_value_bound [of "2 ^ 64 - 1" 0]
  by (auto simp: parse_u64_def parse_unsigned_def Let_def split: if_splits)

lemma decimal_inj: "decimal m = decimal n \<Longrightarrow> m = n"
  by (metis max.cobounded1 max.cobounded2 option.inject parse_unsigned_decimal)

lemma digits_value_zeros: "digits_value bound 0 (replicate n (CHR ''0'') @ ds) = digits_value bound 0 ds"
  by (induction n) (simp_all add: is_ascii_digit_def Let_def)

lemma parse_unsigned_padded: "n \<le> bound \<Longrightarrow> parse_unsigned bound (padded_decimal w n) = Some n"
proof (cases "w - length (decimal n)")
  case 0
  then show "n \<le> bound \<Longrightarrow> ?thesis"
    by (simp add: padded_decimal_def parse_unsigned_decimal)
next
  case (Suc k)
  then show "n \<le> bound \<Longrightarrow> ?thesis"
    using digits_value_zeros [of bound "Suc k" "decimal n"] digits_value_decimal [of n bound]
    by (simp add: padded_decimal_def parse_unsigned_def)
qed

lemma padded_decimal_inj: "padded_decimal w m = padded_decimal w n \<Longrightarrow> m = n"
  by (metis max.cobounded1 max.cobounded2 option.inject parse_unsigned_padded)

lemma strip_prefix_append [simp]: "strip_prefix p (p @ s) = Some s"
  by (simp add: strip_prefix_def)

lemma strip_suffix_append [simp]: "strip_suffix p (s @ p) = Some s"
  by (simp add: strip_suffix_def suffix_def)

lemma hex_digit_inj: "m < 16 \<Longrightarrow> n < 16 \<Longrightarrow> hex_digit m = hex_digit n \<longleftrightarrow> m = n"
  by (auto simp: hex_digit_def char_of_eq_iff take_bit_nat_eq_self split: if_splits)

lemma hex_lower_not_Nil [simp]: "hex_lower n \<noteq> []"
  by (subst hex_lower.simps) simp

lemma hex_lower_inj: "hex_lower m = hex_lower n \<Longrightarrow> m = n"
proof (induction m arbitrary: n rule: hex_lower.induct)
  case (1 m)
  show ?case
  proof (cases "m < 16 \<or> n < 16")
    case True
    then show ?thesis
      using "1.prems" hex_lower.simps [of m] hex_lower.simps [of n] by (auto simp: hex_digit_inj dest!: sym [of "[]"] split: if_splits)
  next
    case False
    then have "hex_lower (m div 16) = hex_lower (n div 16)" "hex_digit (m mod 16) = hex_digit (n mod 16)"
      using "1.prems" hex_lower.simps [of m] hex_lower.simps [of n] by auto
    then have "m div 16 = n div 16" "m mod 16 = n mod 16"
      using "1.IH" False by (simp_all add: hex_digit_inj)
    then show ?thesis
      by (metis div_mult_mod_eq)
  qed
qed

lemma hex_lower_chars: "b \<in> set (hex_lower n) \<Longrightarrow> is_ascii_digit b \<or> is_ascii_lowercase b"
proof (induction n rule: hex_lower.induct)
  case (1 n)
  then show ?case
    using hex_lower.simps [of n]
    by (auto simp: hex_digit_def is_ascii_digit_def is_ascii_lowercase_def split: if_splits)
qed

lemma rsplit_next_sep: "sep \<notin> set t \<Longrightarrow> rsplit_next sep (s @ sep # t) = t"
  by (simp add: rsplit_next_def takeWhile_append)

lemma sep_notin_rsplit_next: "sep \<notin> set (rsplit_next sep s)"
  by (auto simp: rsplit_next_def dest: set_takeWhileD)

end
