(* ===== verification/Redact.thy ===== *)
theory Redact
  imports Protocol Rust_Str
begin

text \<open>
  Secret masking of recorded streams: \<open>crates/sealant-runtime-core/src/redact.rs\<close>.

  A \<open>redactor\<close> is the immutable pattern set, a \<open>stream_redactor\<close> the masking state of one stream. The
  operations \<open>push\<close> and \<open>finish\<close> advance the two scans (\<open>scan_literals\<close>, \<open>scan_tokens\<close>) over the
  undecided bytes and emit what is decided (\<open>emit_until\<close>). Positions count raw bytes from the
  start of the stream. Slices and indices are in range under \<open>stream_ok\<close> (theory \<open>Redact_Correct\<close>),
  which every operation keeps.
\<close>

section \<open>Patterns\<close>

definition REDACTED :: bytes where
  "REDACTED = ''***REDACTED***''"

definition TOKEN_PREFIXES :: "bytes list" where
  "TOKEN_PREFIXES =
     [''sk-'', ''ghp_'', ''gho_'', ''ghs_'', ''github_pat_'', ''AKIA'', ''xoxb-'', ''xoxp-'',
      ''glpat-'', ''AIza'']"

definition MIN_TOKEN_LEN :: nat where
  "MIN_TOKEN_LEN = 16"

fun longest_prefix :: "nat \<Rightarrow> bytes list \<Rightarrow> nat" where
  "longest_prefix longest [] = longest"
| "longest_prefix longest (p # ps) =
     longest_prefix (if length p > longest then length p else longest) ps"

definition LONGEST_PREFIX :: nat where
  "LONGEST_PREFIX = longest_prefix 0 TOKEN_PREFIXES"

definition MIN_LITERAL_LEN :: nat where
  "MIN_LITERAL_LEN = 6"

definition is_token_char :: "byte \<Rightarrow> bool" where
  "is_token_char b \<longleftrightarrow> is_ascii_alphanumeric b \<or> b = CHR ''-'' \<or> b = CHR ''_''"

record redactor =
  literals :: "bytes list"

definition redactor_new :: "string list \<Rightarrow> redactor" where
  "redactor_new ls = \<lparr>literals = filter (\<lambda>l. MIN_LITERAL_LEN \<le> length l) ls\<rparr>"

definition with_literals :: "redactor \<Rightarrow> string list \<Rightarrow> redactor" where
  "with_literals r ls = \<lparr>literals = ls @ literals r\<rparr>"

fun line_variant :: "bytes \<Rightarrow> bytes \<Rightarrow> bytes" where
  "line_variant line_end [] = []"
| "line_variant line_end (b # bs) =
     (if b = LF then line_end else [b]) @ line_variant line_end bs"

definition with_line_ends :: "redactor \<Rightarrow> bytes \<Rightarrow> redactor" where
  "with_line_ends r line_end =
     \<lparr>literals = literals r @
        map (line_variant line_end) (filter (\<lambda>l. LF \<in> set l) (literals r))\<rparr>"

section \<open>One stream's masking state\<close>

datatype token_scan = Searching | Candidate (cand_start: nat) (cand_body: nat) | Masking

datatype finish_reason = Eof | Cutoff

record stream_redactor =
  patterns :: redactor
  pending :: bytes
  covered :: "bool list"
  base :: nat
  before_bytes :: bytes
  literal_at :: nat
  token_at :: nat
  token :: token_scan
  in_mask :: bool

definition stream :: "redactor \<Rightarrow> stream_redactor" where
  "stream r = \<lparr>patterns = r, pending = [], covered = [], base = 0, before_bytes = [], literal_at = 0,
     token_at = 0, token = Searching, in_mask = False\<rparr>"

record masked_chunk =
  recorded :: bytes
  consumed :: nat
  redactions :: u32

definition sr_end :: "stream_redactor \<Rightarrow> nat" where
  "sr_end s = base s + length (pending s)"

definition index :: "stream_redactor \<Rightarrow> nat \<Rightarrow> nat" where
  "index s position = position - base s"

section \<open>The literal scan\<close>

text \<open>The \<open>for literal in &self.patterns.literals\<close> loop at one position: \<open>rest\<close> are the pending
  bytes from index \<open>i\<close>; the result is the covered flags and whether some literal is undecided.\<close>

fun mark_literals ::
  "bool \<Rightarrow> bytes list \<Rightarrow> bytes \<Rightarrow> nat \<Rightarrow> bool list \<Rightarrow> bool \<Rightarrow> bool list \<times> bool" where
  "mark_literals at_end [] rest i cov undecided = (cov, undecided)"
| "mark_literals at_end (l # ls) rest i cov undecided =
     (if prefix l rest then mark_literals at_end ls rest i (fill_range i (i + length l) cov) undecided
      else if \<not> at_end \<and> prefix rest l then mark_literals at_end ls rest i cov True
      else mark_literals at_end ls rest i cov undecided)"

function scan_literals :: "bool \<Rightarrow> stream_redactor \<Rightarrow> stream_redactor" where
  "scan_literals at_end s =
     (if literal_at s < sr_end s then
        (let i = index s (literal_at s);
             (cov, undecided) =
               mark_literals at_end (literals (patterns s)) (drop i (pending s)) i (covered s) False
         in if undecided then s\<lparr>covered := cov\<rparr>
            else scan_literals at_end (s\<lparr>covered := cov, literal_at := literal_at s + 1\<rparr>))
      else s)"
  by pat_completeness auto
termination
  by (relation "measure (\<lambda>(at_end, s). sr_end s - literal_at s)") (auto simp: sr_end_def)

section \<open>The token scan\<close>

definition byte_at :: "stream_redactor \<Rightarrow> nat \<Rightarrow> byte" where
  "byte_at s p =
     (if base s \<le> p then pending s ! index s p
      else before_bytes s ! (length (before_bytes s) - (base s - p)))"

definition prefix_ending_at :: "stream_redactor \<Rightarrow> nat \<Rightarrow> nat option" where
  "prefix_ending_at s position =
     (let earliest = base s - length (before_bytes s) in
      map_option length
        (find (\<lambda>prefix. earliest + length prefix \<le> position + 1 \<and>
            list_all (\<lambda>k. byte_at s (position + 1 - length prefix + k) = prefix ! k)
              [0..<length prefix])
          TOKEN_PREFIXES))"

definition token_step :: "stream_redactor \<Rightarrow> stream_redactor" where
  "token_step s =
     (let i = index s (token_at s) in
      if \<not> is_token_char (pending s ! i) then s\<lparr>token := Searching, token_at := token_at s + 1\<rparr>
      else case token s of
        Searching \<Rightarrow>
          (case prefix_ending_at s (token_at s) of
             Some len \<Rightarrow> s\<lparr>token := Candidate (token_at s + 1 - len) (token_at s + 1),
                           token_at := token_at s + 1\<rparr>
           | None \<Rightarrow> s\<lparr>token_at := token_at s + 1\<rparr>)
      | Candidate start body \<Rightarrow>
          (if MIN_TOKEN_LEN \<le> token_at s + 1 - start
           then s\<lparr>covered := fill_range (index s body) (i + 1) (covered s), token := Masking,
                  token_at := token_at s + 1\<rparr>
           else s\<lparr>token_at := token_at s + 1\<rparr>)
      | Masking \<Rightarrow> s\<lparr>covered := (covered s)[i := True], token_at := token_at s + 1\<rparr>)"

function scan_tokens :: "stream_redactor \<Rightarrow> stream_redactor" where
  "scan_tokens s = (if token_at s < sr_end s then scan_tokens (token_step s) else s)"
  by pat_completeness auto
termination
  by (relation "measure (\<lambda>s. sr_end s - token_at s)")
    (auto simp: token_step_def sr_end_def Let_def split: token_scan.splits option.splits)

definition scan :: "bool \<Rightarrow> stream_redactor \<Rightarrow> stream_redactor" where
  "scan at_end s = scan_tokens (scan_literals at_end s)"

section \<open>Recording what is decided\<close>

text \<open>The loop of \<open>emit_until\<close> over the decided bytes and their flags: the recorded bytes, the
  number of markers (a \<open>u32\<close>) and the new \<open>in_mask\<close>.\<close>

fun emit_bytes :: "(byte \<times> bool) list \<Rightarrow> bool \<Rightarrow> bytes \<times> u32 \<times> bool" where
  "emit_bytes [] m = ([], 0, m)"
| "emit_bytes ((b, cov) # zs) m =
     (if \<not> cov then (let (r, n, m') = emit_bytes zs False in (b # r, n, m'))
      else if \<not> m then (let (r, n, m') = emit_bytes zs True in (REDACTED @ r, n + 1, m'))
      else emit_bytes zs True)"

definition emit_until :: "nat \<Rightarrow> stream_redactor \<Rightarrow> masked_chunk \<times> stream_redactor" where
  "emit_until limit s =
     (let n = index s limit;
          (r, k, m) = emit_bytes (zip (take n (pending s)) (take n (covered s))) (in_mask s);
          bef = before_bytes s @ take n (pending s);
          excess = length bef - (LONGEST_PREFIX - 1)
      in (\<lparr>recorded = r, consumed = n, redactions = k\<rparr>,
          s\<lparr>before_bytes := drop excess bef, pending := drop n (pending s),
            covered := drop n (covered s), base := limit, in_mask := m\<rparr>))"

definition push :: "bytes \<Rightarrow> stream_redactor \<Rightarrow> masked_chunk \<times> stream_redactor" where
  "push raw s =
     (let s1 = s\<lparr>pending := pending s @ raw, covered := covered s @ replicate (length raw) False\<rparr>;
          s2 = scan False s1;
          token_hold = (case token s2 of Candidate start body \<Rightarrow> body | _ \<Rightarrow> token_at s2)
      in emit_until (min (literal_at s2) token_hold) s2)"

text \<open>The position a cut masks from: \<open>literal.into_iter().chain(token).min()\<close>.\<close>

definition cutoff_from :: "stream_redactor \<Rightarrow> nat option" where
  "cutoff_from s =
     (let literal = (if literal_at s < sr_end s then Some (literal_at s) else None);
          tok = (case token s of Candidate start body \<Rightarrow> Some body | _ \<Rightarrow> None)
      in case (literal, tok) of
           (Some a, Some b) \<Rightarrow> Some (min a b) | (Some a, None) \<Rightarrow> Some a
         | (None, Some b) \<Rightarrow> Some b | (None, None) \<Rightarrow> None)"

definition finish :: "finish_reason \<Rightarrow> stream_redactor \<Rightarrow> masked_chunk \<times> stream_redactor" where
  "finish reason s =
     (let e = sr_end s;
          s1 = (if reason = Cutoff then
                  (case cutoff_from s of
                     Some from \<Rightarrow>
                       s\<lparr>covered := fill_range (index s from) (length (covered s)) (covered s)\<rparr>
                   | None \<Rightarrow> s)
                else s);
          (chunk, s2) = emit_until e (scan True s1)
      in (chunk, stream (patterns s2)))"

section \<open>The recorded chunk\<close>

definition is_redacted :: "masked_chunk \<Rightarrow> bool" where
  "is_redacted c \<longleftrightarrow> 0 < redactions c \<or> length (recorded c) \<noteq> consumed c"

definition io_chunk_of :: "masked_chunk \<Rightarrow> stream_kind \<Rightarrow> u64 \<Rightarrow> io_chunk option" where
  "io_chunk_of c kind off =
     (if 0 < consumed c then
        Some \<lparr>io_stream = kind, io_encoding = Base64,
              io_byte_count = word_of_nat (length (recorded c)), io_stream_offset = off,
              io_content = Some (recorded c), io_artifact = None,
              io_transform =
                (if is_redacted c then
                   Some \<lparr>tm_redacted = True, tm_truncated = False, tm_coalesced = False,
                         tm_original_byte_count = Some (word_of_nat (consumed c))\<rparr>
                 else None)\<rparr>
      else None)"

section \<open>A whole stream\<close>

text \<open>A stream read in \<open>pieces\<close> and then ended: the chunks in order.\<close>

fun push_all :: "bytes list \<Rightarrow> stream_redactor \<Rightarrow> masked_chunk list \<times> stream_redactor" where
  "push_all [] s = ([], s)"
| "push_all (p # ps) s =
     (let (c, s1) = push p s; (cs, s2) = push_all ps s1 in (c # cs, s2))"

definition run_stream :: "redactor \<Rightarrow> bytes list \<Rightarrow> finish_reason \<Rightarrow> masked_chunk list" where
  "run_stream r pieces reason =
     (let (cs, s) = push_all pieces (stream r); (c, s') = finish reason s in cs @ [c])"

declare scan_literals.simps [simp del] scan_tokens.simps [simp del]

lemma token_at_token_step [simp]: "token_at (token_step s) = Suc (token_at s)"
  by (simp add: token_step_def Let_def split: token_scan.splits option.splits)

lemma token_step_frame [simp]:
  "pending (token_step s) = pending s" "base (token_step s) = base s"
  "before_bytes (token_step s) = before_bytes s" "patterns (token_step s) = patterns s"
  "literal_at (token_step s) = literal_at s" "in_mask (token_step s) = in_mask s"
  by (simp_all add: token_step_def Let_def split: token_scan.splits option.splits)

lemma sr_end_token_step [simp]: "sr_end (token_step s) = sr_end s"
  by (simp add: sr_end_def)

end
