(* ===== verification/Redact_Correct.thy ===== *)
theory Redact_Correct
  imports Redact
begin

text \<open>
  Correctness of the stream redactor of theory \<open>Redact\<close>.

  The specification masks a whole stream at once: a byte is masked when an occurrence of a literal
  spans it (\<open>literal_covered\<close>), when the token shape covers it (\<open>token_marks\<close>), or, on a cut, when it
  lies at or after the first byte that could still begin a secret (\<open>cut_from\<close>). \<open>stream_inv\<close> relates a
  masking state to the raw bytes pushed so far; \<open>push\<close> and \<open>finish\<close> keep it, so what a stream
  records does not depend on how it was split into reads. The security theorem is then a fact
  about the specification: no literal occurs in the recorded bytes.
\<close>

section \<open>Whole-stream specification\<close>

definition lit_cov :: "bytes list \<Rightarrow> bytes \<Rightarrow> nat \<Rightarrow> nat \<Rightarrow> bool" where
  "lit_cov ls raw m p \<longleftrightarrow> (\<exists>s < m. s \<le> p \<and> (\<exists>l \<in> set ls. p < s + length l \<and> occurs_at l s raw))"

definition literal_covered :: "bytes list \<Rightarrow> bytes \<Rightarrow> nat \<Rightarrow> bool" where
  "literal_covered ls raw p \<longleftrightarrow> lit_cov ls raw (length raw) p"

definition decided :: "bytes list \<Rightarrow> bytes \<Rightarrow> nat \<Rightarrow> bool" where
  "decided ls raw q \<longleftrightarrow> (\<forall>l \<in> set ls. occurs_at l q raw \<or> \<not> prefix (drop q raw) l)"

definition prefix_ends :: "bytes \<Rightarrow> nat \<Rightarrow> nat option" where
  "prefix_ends raw k = map_option length (find (\<lambda>pr. suffix pr (take (k + 1) raw)) TOKEN_PREFIXES)"

fun token_state :: "bytes \<Rightarrow> nat \<Rightarrow> token_scan" where
  "token_state raw 0 = Searching"
| "token_state raw (Suc k) =
     (if \<not> is_token_char (raw ! k) then Searching
      else case token_state raw k of
        Searching \<Rightarrow>
          (case prefix_ends raw k of Some len \<Rightarrow> Candidate (k + 1 - len) (k + 1) | None \<Rightarrow> Searching)
      | Candidate st b \<Rightarrow> if MIN_TOKEN_LEN \<le> k + 1 - st then Masking else Candidate st b
      | Masking \<Rightarrow> Masking)"

fun token_marks :: "bytes \<Rightarrow> nat \<Rightarrow> nat \<Rightarrow> bool" where
  "token_marks raw 0 p = False"
| "token_marks raw (Suc k) p =
     (token_marks raw k p \<or>
      is_token_char (raw ! k) \<and>
      (case token_state raw k of
         Searching \<Rightarrow> False
       | Candidate st b \<Rightarrow> MIN_TOKEN_LEN \<le> k + 1 - st \<and> b \<le> p \<and> p \<le> k
       | Masking \<Rightarrow> p = k))"

definition token_hold :: "bytes \<Rightarrow> nat \<Rightarrow> nat" where
  "token_hold raw k = (case token_state raw k of Candidate st b \<Rightarrow> b | _ \<Rightarrow> k)"

definition masked_at :: "bytes list \<Rightarrow> bytes \<Rightarrow> nat \<Rightarrow> bool" where
  "masked_at ls raw p \<longleftrightarrow> literal_covered ls raw p \<or> token_marks raw (length raw) p"

text \<open>The first position that could still begin a literal; the end of the stream if there is none.\<close>

definition literal_hold :: "bytes list \<Rightarrow> bytes \<Rightarrow> nat" where
  "literal_hold ls raw =
     (case find (\<lambda>q. \<not> decided ls raw q) [0..<length raw] of Some q \<Rightarrow> q | None \<Rightarrow> length raw)"

definition cut_from :: "bytes list \<Rightarrow> bytes \<Rightarrow> nat" where
  "cut_from ls raw = min (literal_hold ls raw) (token_hold raw (length raw))"

definition finally_masked :: "bytes list \<Rightarrow> bytes \<Rightarrow> finish_reason \<Rightarrow> nat \<Rightarrow> bool" where
  "finally_masked ls raw reason p \<longleftrightarrow>
     masked_at ls raw p \<or> reason = Cutoff \<and> cut_from ls raw \<le> p"

text \<open>Recording the first \<open>k\<close> bytes of \<open>raw\<close> under a masking predicate.\<close>

definition render :: "(nat \<Rightarrow> bool) \<Rightarrow> bytes \<Rightarrow> nat \<Rightarrow> bytes \<times> u32 \<times> bool" where
  "render F raw k = emit_bytes (zip (take k raw) (map F [0..<k])) False"

definition mask_stream :: "bytes list \<Rightarrow> bytes \<Rightarrow> finish_reason \<Rightarrow> bytes" where
  "mask_stream ls raw reason = fst (render (finally_masked ls raw reason) raw (length raw))"

text \<open>The invariant of a masking state between two operations, for the raw bytes pushed so far.\<close>

definition window_ok :: "bytes \<Rightarrow> stream_redactor \<Rightarrow> bool" where
  "window_ok raw s \<longleftrightarrow>
     base s \<le> length raw \<and> pending s = drop (base s) raw \<and>
     before_bytes s = drop (base s - (LONGEST_PREFIX - 1)) (take (base s) raw) \<and>
     length (covered s) = length (pending s) \<and>
     base s \<le> literal_at s \<and> literal_at s \<le> length raw \<and>
     base s \<le> token_at s \<and> token_at s \<le> length raw"

definition flags_ok :: "(nat \<Rightarrow> bool) \<Rightarrow> bytes \<Rightarrow> stream_redactor \<Rightarrow> bool" where
  "flags_ok X raw s \<longleftrightarrow>
     (\<forall>p. base s \<le> p \<longrightarrow> p < length raw \<longrightarrow>
        ((lit_cov (literals (patterns s)) raw (literal_at s) p \<or> token_marks raw (token_at s) p \<or> X p
            \<longrightarrow> covered s ! (p - base s)) \<and>
         (covered s ! (p - base s) \<longrightarrow>
            literal_covered (literals (patterns s)) raw p \<or> token_marks raw (token_at s) p \<or> X p)))"

definition scan_ok :: "bytes \<Rightarrow> stream_redactor \<Rightarrow> bool" where
  "scan_ok raw s \<longleftrightarrow>
     token s = token_state raw (token_at s) \<and>
     base s \<le> token_hold raw (token_at s) \<and>
     (\<forall>q < literal_at s. decided (literals (patterns s)) raw q)"

definition stream_inv :: "redactor \<Rightarrow> bytes \<Rightarrow> stream_redactor \<Rightarrow> bool" where
  "stream_inv r raw s \<longleftrightarrow>
     patterns s = r \<and> window_ok raw s \<and> flags_ok (\<lambda>_. False) raw s \<and> scan_ok raw s \<and>
     token_at s = length raw \<and>
     (literal_at s < length raw \<longrightarrow> \<not> decided (literals r) raw (literal_at s)) \<and>
     in_mask s = snd (snd (render (masked_at (literals r) raw) raw (base s)))"

text \<open>One round of the literal scan: the flags it sets, and whether it is undecided.\<close>

definition literal_marks :: "bool \<Rightarrow> stream_redactor \<Rightarrow> bool list \<times> bool" where
  "literal_marks at_end s =
     mark_literals at_end (literals (patterns s)) (drop (index s (literal_at s)) (pending s))
       (index s (literal_at s)) (covered s) False"

section \<open>The token automaton\<close>

lemma LONGEST_PREFIX_eq: "LONGEST_PREFIX = 11"
  by (simp add: LONGEST_PREFIX_def TOKEN_PREFIXES_def)

lemma token_prefix_length: "pr \<in> set TOKEN_PREFIXES \<Longrightarrow> 0 < length pr \<and> length pr \<le> LONGEST_PREFIX"
  by (auto simp: TOKEN_PREFIXES_def LONGEST_PREFIX_eq)

lemma token_state_body: "token_state raw k = Candidate st b \<Longrightarrow> st \<le> b \<and> b \<le> k"
  by (induction k) (auto split: if_splits token_scan.splits option.splits)

lemma token_hold_le: "token_hold raw k \<le> k"
  using token_state_body by (auto simp: token_hold_def split: token_scan.splits)

lemma token_marks_less: "token_marks raw k p \<Longrightarrow> p < k"
  by (induction k) (auto split: token_scan.splits)

lemma token_state_append: "k \<le> length raw \<Longrightarrow> token_state (raw @ rest) k = token_state raw k"
proof (induction k)
  case 0
  then show ?case by simp
next
  case (Suc k)
  then have "prefix_ends (raw @ rest) k = prefix_ends raw k" "(raw @ rest) ! k = raw ! k"
    by (simp_all add: prefix_ends_def nth_append)
  with Suc show ?case
    by (simp split: token_scan.split)
qed

lemma token_marks_append:
  "k \<le> length raw \<Longrightarrow> token_marks (raw @ rest) k p = token_marks raw k p"
  by (induction k) (simp_all add: token_state_append nth_append)

lemma token_hold_append: "k \<le> length raw \<Longrightarrow> token_hold (raw @ rest) k = token_hold raw k"
  by (simp add: token_hold_def token_state_append)

lemma token_hold_mono_Suc: "token_hold raw k \<le> token_hold raw (Suc k)"
proof (cases "token_state raw k")
  case (Candidate st b)
  then have "b \<le> k" by (simp add: token_state_body)
  with Candidate show ?thesis by (simp add: token_hold_def)
qed (simp_all add: token_hold_def split: option.split)

lemma token_hold_mono: "n \<le> k \<Longrightarrow> token_hold raw n \<le> token_hold raw k"
  by (rule lift_Suc_mono_le [of "token_hold raw"]) (rule token_hold_mono_Suc)

lemma token_marks_stable:
  "p < token_hold raw n \<Longrightarrow> n \<le> k \<Longrightarrow> token_marks raw k p = token_marks raw n p"
proof (induction k)
  case 0
  then show ?case by simp
next
  case (Suc k)
  show ?case
  proof (cases "n = Suc k")
    case False
    with Suc.prems have le: "n \<le> k" by simp
    have "token_hold raw n \<le> token_hold raw k"
      using le by (rule token_hold_mono)
    then have "p < token_hold raw k"
      using Suc.prems by simp
    then have "\<not> (case token_state raw k of Searching \<Rightarrow> False
        | Candidate st b \<Rightarrow> MIN_TOKEN_LEN \<le> k + 1 - st \<and> b \<le> p \<and> p \<le> k | Masking \<Rightarrow> p = k)"
      by (auto simp: token_hold_def split: token_scan.splits)
    with Suc le show ?thesis by simp
  qed simp
qed

section \<open>Literal coverage\<close>

lemma lit_cov_mono: "lit_cov ls raw m p \<Longrightarrow> m \<le> n \<Longrightarrow> lit_cov ls raw n p"
  by (auto simp: lit_cov_def intro: less_le_trans)

lemma lit_cov_Suc:
  "lit_cov ls raw (Suc m) p \<longleftrightarrow>
   lit_cov ls raw m p \<or> m \<le> p \<and> (\<exists>l \<in> set ls. p < m + length l \<and> occurs_at l m raw)"
  by (auto simp: lit_cov_def less_Suc_eq)

lemma lit_cov_less: "p < m \<Longrightarrow> m \<le> n \<Longrightarrow> lit_cov ls raw n p = lit_cov ls raw m p"
  unfolding lit_cov_def by (meson le_less_trans less_le_trans)

lemma literal_covered_less: "p < m \<Longrightarrow> m \<le> length raw \<Longrightarrow> literal_covered ls raw p = lit_cov ls raw m p"
  unfolding literal_covered_def by (rule lit_cov_less)

lemma literal_covered_iff:
  assumes "p < length raw"
  shows "literal_covered ls raw p \<longleftrightarrow>
    (\<exists>s \<le> p. \<exists>l \<in> set ls. p < s + length l \<and> occurs_at l s raw)"
  unfolding literal_covered_def lit_cov_def using assms by (meson le_less_trans)

lemma decided_append:
  assumes "decided ls raw q" and "q < length raw"
  shows "decided ls (raw @ rest) q"
proof -
  have "occurs_at l q (raw @ rest) \<or> \<not> prefix (drop q (raw @ rest)) l" if "l \<in> set ls" for l
  proof (cases "occurs_at l q raw")
    case True
    then show ?thesis by (simp add: occurs_at_append)
  next
    case False
    with assms that have "\<not> prefix (drop q raw) l"
      by (auto simp: decided_def)
    moreover have "prefix (drop q raw) (drop q (raw @ rest))"
      using assms(2) by simp
    ultimately have "\<not> prefix (drop q (raw @ rest)) l"
      using prefix_order.trans by metis
    then show ?thesis ..
  qed
  then show ?thesis by (simp add: decided_def)
qed

lemma occurs_at_decided:
  assumes "decided ls raw q" and "q < length raw" and "l \<in> set ls"
  shows "occurs_at l q (raw @ rest) \<longleftrightarrow> occurs_at l q raw"
  using assms occurs_at_append_decided [of q raw l rest] occurs_at_append [of l q raw rest]
  by (auto simp: decided_def)

lemma literal_covered_stable:
  assumes dec: "\<forall>q \<le> p. decided ls raw q" and p: "p < length raw"
  shows "literal_covered ls (raw @ rest) p = literal_covered ls raw p"
proof -
  have "occurs_at l s (raw @ rest) = occurs_at l s raw" if "s \<le> p" "l \<in> set ls" for s l
    using that dec p by (intro occurs_at_decided) auto
  then have "(\<exists>s \<le> p. \<exists>l \<in> set ls. p < s + length l \<and> occurs_at l s (raw @ rest)) =
      (\<exists>s \<le> p. \<exists>l \<in> set ls. p < s + length l \<and> occurs_at l s raw)"
    by meson
  with p show ?thesis
    by (simp add: literal_covered_iff)
qed

lemma masked_at_stable:
  assumes "\<forall>q < m. decided ls raw q" and "p < m" and "m \<le> length raw"
    and "p < token_hold raw (length raw)"
  shows "masked_at ls (raw @ rest) p = masked_at ls raw p"
proof -
  have "literal_covered ls (raw @ rest) p = literal_covered ls raw p"
    using assms by (intro literal_covered_stable) auto
  moreover have "token_marks (raw @ rest) (length (raw @ rest)) p = token_marks raw (length raw) p"
    using assms(4) by (subst token_marks_stable [where n = "length raw"])
      (simp_all add: token_hold_append token_marks_append)
  ultimately show ?thesis by (simp add: masked_at_def)
qed

lemma render_cong:
  "k \<le> length raw \<Longrightarrow> (\<And>p. p < k \<Longrightarrow> F p = G p) \<Longrightarrow> render F (raw @ rest) k = render G raw k"
proof -
  assume k: "k \<le> length raw" and eq: "\<And>p. p < k \<Longrightarrow> F p = G p"
  have "map F [0..<k] = map G [0..<k]"
    using eq by simp
  moreover have "take k (raw @ rest) = take k raw"
    using k by simp
  ultimately show ?thesis
    by (simp only: render_def)
qed

lemma render_stable:
  assumes "\<forall>q < m. decided ls raw q" and "k \<le> m" and "m \<le> length raw"
    and "k \<le> token_hold raw (length raw)"
  shows "render (masked_at ls (raw @ rest)) (raw @ rest) k = render (masked_at ls raw) raw k"
  using assms by (intro render_cong masked_at_stable [where m = m]) auto

lemma lit_cov_append:
  assumes "\<forall>q < m. decided ls raw q" and "m \<le> length raw"
  shows "lit_cov ls (raw @ rest) m p = lit_cov ls raw m p"
proof -
  have "occurs_at l q (raw @ rest) = occurs_at l q raw" if "q < m" "l \<in> set ls" for q l
    using that assms by (intro occurs_at_decided) auto
  then show ?thesis
    unfolding lit_cov_def by meson
qed

lemma lit_cov_bound: "lit_cov ls raw m p \<Longrightarrow> p < length raw"
  by (auto simp: lit_cov_def) (metis add.right_neutral leD le_trans less_le_trans list.size(3) occurs_at_length)

lemma literal_covered_append: "literal_covered ls raw p \<Longrightarrow> literal_covered ls (raw @ rest) p"
  unfolding literal_covered_def lit_cov_def
  by (metis occurs_at_append length_append trans_less_add1)

section \<open>The literal scan\<close>

lemma mark_literals_undecided:
  "snd (mark_literals at_end ls rest i cov und) \<longleftrightarrow>
     und \<or> \<not> at_end \<and> (\<exists>l \<in> set ls. \<not> prefix l rest \<and> prefix rest l)"
  by (induction at_end ls rest i cov und rule: mark_literals.induct) auto

lemma mark_literals_flags:
  "i + length rest = length cov \<Longrightarrow>
   length (fst (mark_literals at_end ls rest i cov und)) = length cov \<and>
   (\<forall>k < length cov. fst (mark_literals at_end ls rest i cov und) ! k \<longleftrightarrow>
      cov ! k \<or> (\<exists>l \<in> set ls. prefix l rest \<and> i \<le> k \<and> k < i + length l))"
proof (induction at_end ls rest i cov und rule: mark_literals.induct)
  case (2 at_end l ls rest i cov und)
  show ?case
  proof (cases "prefix l rest")
    case True
    then have "i + length l \<le> length cov"
      using "2.prems" prefix_length_le by fastforce
    with True "2.IH"(1) "2.prems" show ?thesis
      by auto
  next
    case False
    with "2.IH"(2,3) "2.prems" show ?thesis by auto
  qed
qed simp

lemma sr_end_window: "window_ok raw s \<Longrightarrow> sr_end s = length raw"
  by (auto simp: window_ok_def sr_end_def)

text \<open>One iteration of the literal loop.\<close>

lemma scan_literals_unfold:
  "scan_literals at_end s =
     (if literal_at s < sr_end s then
        (if snd (literal_marks at_end s) then s\<lparr>covered := fst (literal_marks at_end s)\<rparr>
         else scan_literals at_end
           (s\<lparr>covered := fst (literal_marks at_end s), literal_at := literal_at s + 1\<rparr>))
      else s)"
  by (subst scan_literals.simps) (simp add: literal_marks_def Let_def case_prod_beta)

lemma literal_marks_undecided:
  assumes "window_ok raw s" and "literal_at s < length raw"
  shows "snd (literal_marks at_end s) \<longleftrightarrow>
    \<not> at_end \<and> \<not> decided (literals (patterns s)) raw (literal_at s)"
  using assms by (auto simp: literal_marks_def mark_literals_undecided window_ok_def index_def decided_def)

lemma literal_marks_flags:
  assumes w: "window_ok raw s" and lt: "literal_at s < length raw"
  shows "length (fst (literal_marks at_end s)) = length (covered s)"
    and "\<And>p. base s \<le> p \<Longrightarrow> p < length raw \<Longrightarrow>
      fst (literal_marks at_end s) ! (p - base s) \<longleftrightarrow>
        covered s ! (p - base s) \<or>
        (\<exists>l \<in> set (literals (patterns s)). occurs_at l (literal_at s) raw \<and>
           literal_at s \<le> p \<and> p < literal_at s + length l)"
proof -
  let ?i = "index s (literal_at s)"
  let ?rest = "drop ?i (pending s)"
  have rest: "?rest = drop (literal_at s) raw" and len: "?i + length ?rest = length (covered s)"
    and le: "base s \<le> literal_at s" and cov: "length (covered s) = length raw - base s"
    using w lt by (auto simp: window_ok_def index_def)
  note flags = mark_literals_flags [OF len, of at_end "literals (patterns s)" False]
  show "length (fst (literal_marks at_end s)) = length (covered s)"
    using flags by (simp add: literal_marks_def)
  fix p
  assume p: "base s \<le> p" "p < length raw"
  then have "p - base s < length (covered s)"
    using cov by simp
  with flags have "fst (literal_marks at_end s) ! (p - base s) \<longleftrightarrow>
      covered s ! (p - base s) \<or>
      (\<exists>l \<in> set (literals (patterns s)). prefix l ?rest \<and> ?i \<le> p - base s \<and>
         p - base s < ?i + length l)"
    by (simp add: literal_marks_def)
  moreover have i: "?i \<le> p - base s \<longleftrightarrow> literal_at s \<le> p"
    and i_l: "p - base s < ?i + n \<longleftrightarrow> p < literal_at s + n" for n
    using p le by (auto simp: index_def)
  ultimately show "fst (literal_marks at_end s) ! (p - base s) \<longleftrightarrow>
      covered s ! (p - base s) \<or>
      (\<exists>l \<in> set (literals (patterns s)). occurs_at l (literal_at s) raw \<and>
         literal_at s \<le> p \<and> p < literal_at s + length l)"
    by (simp only: rest i i_l)
qed

lemma literal_marks_flags_ok:
  assumes w: "window_ok raw s" and f: "flags_ok X raw s" and lt: "literal_at s < length raw"
  shows "flags_ok X raw (s\<lparr>covered := fst (literal_marks at_end s)\<rparr>)"
    and "flags_ok X raw (s\<lparr>covered := fst (literal_marks at_end s), literal_at := literal_at s + 1\<rparr>)"
proof -
  have at_covered: "literal_covered (literals (patterns s)) raw p"
    if "l \<in> set (literals (patterns s))" "occurs_at l (literal_at s) raw" "literal_at s \<le> p"
      "p < literal_at s + length l" for l p
    using that lt by (auto simp: literal_covered_def lit_cov_def)
  note new = literal_marks_flags(2) [OF w lt, of _ at_end]
  show "flags_ok X raw (s\<lparr>covered := fst (literal_marks at_end s)\<rparr>)"
    using f at_covered by (auto simp: flags_ok_def new)
  show "flags_ok X raw (s\<lparr>covered := fst (literal_marks at_end s), literal_at := literal_at s + 1\<rparr>)"
    using f at_covered by (auto simp: flags_ok_def new lit_cov_Suc)
qed

lemma scan_literals_induct:
  assumes step: "\<And>s. (literal_at s < sr_end s \<Longrightarrow> \<not> snd (literal_marks at_end s) \<Longrightarrow>
      P (s\<lparr>covered := fst (literal_marks at_end s), literal_at := literal_at s + 1\<rparr>)) \<Longrightarrow> P s"
  shows "P s"
proof (induction "sr_end s - literal_at s" arbitrary: s rule: less_induct)
  case less
  show ?case
    by (rule step, rule less) (simp add: sr_end_def)
qed

lemma scan_literals_frame [simp]:
  "base (scan_literals at_end s) = base s \<and> pending (scan_literals at_end s) = pending s \<and>
   before_bytes (scan_literals at_end s) = before_bytes s \<and>
   token_at (scan_literals at_end s) = token_at s \<and> token (scan_literals at_end s) = token s \<and>
   patterns (scan_literals at_end s) = patterns s \<and> in_mask (scan_literals at_end s) = in_mask s"
proof (induction s rule: scan_literals_induct [where at_end = at_end])
  case (1 s)
  then show ?case by (simp add: scan_literals_unfold [of at_end s])
qed

lemma scan_literals_mono: "literal_at s \<le> literal_at (scan_literals at_end s)"
proof (induction s rule: scan_literals_induct [where at_end = at_end])
  case (1 s)
  then show ?case
    using scan_literals_unfold [of at_end s] by (auto simp: Let_def)
qed

lemma scan_literals_ok:
  assumes "window_ok raw s" and "flags_ok X raw s"
    and "at_end \<or> (\<forall>q < literal_at s. decided (literals (patterns s)) raw q)"
  shows "window_ok raw (scan_literals at_end s) \<and> flags_ok X raw (scan_literals at_end s) \<and>
    (at_end \<or> (\<forall>q < literal_at (scan_literals at_end s). decided (literals (patterns s)) raw q)) \<and>
    (literal_at (scan_literals at_end s) < length raw \<longrightarrow>
       \<not> at_end \<and> \<not> decided (literals (patterns s)) raw (literal_at (scan_literals at_end s)))"
  using assms
proof (induction s rule: scan_literals_induct [where at_end = at_end])
  case (1 s)
  note unfold = scan_literals_unfold [of at_end s] sr_end_window [OF "1.prems"(1)]
  show ?case
  proof (cases "literal_at s < length raw")
    case False
    with "1.prems" show ?thesis by (simp add: unfold)
  next
    case True
    let ?cov = "fst (literal_marks at_end s)"
    note und = literal_marks_undecided [OF "1.prems"(1) True, of at_end]
    note flags = literal_marks_flags_ok [OF "1.prems"(1,2) True, of at_end]
    have win: "window_ok raw (s\<lparr>covered := ?cov\<rparr>)"
      "window_ok raw (s\<lparr>covered := ?cov, literal_at := literal_at s + 1\<rparr>)"
      using "1.prems"(1) True literal_marks_flags(1) [OF "1.prems"(1) True, of at_end]
      by (auto simp: window_ok_def)
    show ?thesis
    proof (cases "snd (literal_marks at_end s)")
      case u: True
      with True have eq: "scan_literals at_end s = s\<lparr>covered := ?cov\<rparr>"
        by (simp add: unfold)
      show ?thesis
        unfolding eq using win flags und u "1.prems"(3) by simp
    next
      case d: False
      let ?s = "s\<lparr>covered := ?cov, literal_at := literal_at s + 1\<rparr>"
      have dec: "at_end \<or> (\<forall>q < literal_at ?s. decided (literals (patterns ?s)) raw q)"
        using d und "1.prems"(3) by (auto simp: less_Suc_eq)
      have lt: "literal_at s < sr_end s"
        using True by (simp add: unfold(2))
      have eq: "scan_literals at_end s =
          scan_literals at_end (s\<lparr>covered := ?cov, literal_at := literal_at s + 1\<rparr>)"
        using True d by (simp add: unfold)
      show ?thesis
        unfolding eq using "1.IH" [OF lt d win(2) flags(2) dec] by auto
    qed
  qed
qed

section \<open>The token scan\<close>

lemma window_before:
  assumes "window_ok raw s"
  shows "length (before_bytes s) = base s - (base s - (LONGEST_PREFIX - 1))"
    and "base s - (LONGEST_PREFIX - 1) \<le> p \<Longrightarrow> p < length raw \<Longrightarrow> byte_at s p = raw ! p"
proof -
  show len: "length (before_bytes s) = base s - (base s - (LONGEST_PREFIX - 1))"
    using assms by (auto simp: window_ok_def)
  assume p: "base s - (LONGEST_PREFIX - 1) \<le> p" "p < length raw"
  show "byte_at s p = raw ! p"
  proof (cases "base s \<le> p")
    case True
    with assms p show ?thesis by (simp add: byte_at_def window_ok_def index_def)
  next
    case False
    let ?e = "base s - (LONGEST_PREFIX - 1)"
    have "before_bytes s ! (p - ?e) = raw ! p"
      using assms False p by (simp add: window_ok_def)
    moreover have "length (before_bytes s) - (base s - p) = p - ?e"
      using False p by (simp add: len)
    ultimately show ?thesis
      using False by (simp add: byte_at_def)
  qed
qed

lemma suffix_take_iff:
  assumes "k < length raw"
  shows "suffix pr (take (k + 1) raw) \<longleftrightarrow>
    length pr \<le> k + 1 \<and> (\<forall>j < length pr. raw ! (k + 1 - length pr + j) = pr ! j)"
proof (cases "length pr \<le> k + 1")
  case False
  then show ?thesis
    using suffix_length_le [of pr "take (k + 1) raw"] assms by auto
next
  case True
  let ?d = "drop (k + 1 - length pr) (take (k + 1) raw)"
  have "suffix pr (take (k + 1) raw) \<longleftrightarrow> pr = ?d"
  proof
    assume "suffix pr (take (k + 1) raw)"
    then obtain zs where zs: "take (k + 1) raw = zs @ pr"
      by (auto simp: suffix_def)
    then have "length zs + length pr = k + 1"
      using assms by (metis length_append length_take min.absorb2 Suc_eq_plus1 Suc_leI)
    with zs show "pr = ?d" by simp
  next
    assume "pr = ?d"
    then show "suffix pr (take (k + 1) raw)"
      by (metis suffix_drop)
  qed
  also have "\<dots> \<longleftrightarrow> (\<forall>j < length pr. ?d ! j = pr ! j)"
    using True assms by (auto simp: list_eq_iff_nth_eq)
  also have "\<dots> \<longleftrightarrow> (\<forall>j < length pr. raw ! (k + 1 - length pr + j) = pr ! j)"
    using True assms by auto
  finally show ?thesis
    using True by blast
qed

lemma prefix_ending_at_eq:
  assumes w: "window_ok raw s" and k: "base s \<le> k" "k < length raw"
  shows "prefix_ending_at s k = prefix_ends raw k"
proof -
  let ?e = "base s - length (before_bytes s)"
  have e: "?e = base s - (LONGEST_PREFIX - 1)"
    using window_before(1) [OF w] by simp
  have "?e + length pr \<le> k + 1 \<and>
      list_all (\<lambda>j. byte_at s (k + 1 - length pr + j) = pr ! j) [0..<length pr] \<longleftrightarrow>
      suffix pr (take (k + 1) raw)" if "pr \<in> set TOKEN_PREFIXES" for pr
  proof -
    have len: "?e + length pr \<le> k + 1 \<longleftrightarrow> length pr \<le> k + 1"
      using token_prefix_length [OF that] k unfolding e by auto
    have "byte_at s (k + 1 - length pr + j) = raw ! (k + 1 - length pr + j)"
      if "j < length pr" "?e + length pr \<le> k + 1" for j
      using that k by (intro window_before(2) [OF w]) (auto simp: e)
    then show ?thesis
      unfolding suffix_take_iff [OF k(2)] using len by (auto simp: list_all_iff)
  qed
  then show ?thesis
    by (auto simp: prefix_ending_at_def prefix_ends_def Let_def intro!: arg_cong [where f = "map_option length"] find_cong)
qed

lemma token_step_ok:
  assumes w: "window_ok raw s" and f: "flags_ok X raw s" and lt: "token_at s < length raw"
    and tok: "token s = token_state raw (token_at s)"
    and hold: "base s \<le> token_hold raw (token_at s)"
  shows "window_ok raw (token_step s)" and "flags_ok X raw (token_step s)"
    and "token (token_step s) = token_state raw (Suc (token_at s))"
proof -
  let ?k = "token_at s"
  have le: "base s \<le> ?k" and len: "length (covered s) = length raw - base s"
    using w by (auto simp: window_ok_def)
  have byte: "pending s ! index s ?k = raw ! ?k"
    using w lt le by (simp add: window_ok_def index_def)
  have pre: "prefix_ending_at s ?k = prefix_ends raw ?k"
    using w le lt by (rule prefix_ending_at_eq)
  show "token (token_step s) = token_state raw (Suc ?k)"
    by (simp add: token_step_def Let_def byte pre tok split: token_scan.split option.split)
  have body: "base s \<le> b \<and> b \<le> ?k" if "token_state raw ?k = Candidate st b" for st b
    using hold token_state_body [OF that] that by (simp add: token_hold_def)
  have cov: "length (covered (token_step s)) = length (covered s) \<and>
      (\<forall>p. base s \<le> p \<longrightarrow> p < length raw \<longrightarrow>
        (covered (token_step s) ! (p - base s) \<longleftrightarrow>
           covered s ! (p - base s) \<or>
           is_token_char (raw ! ?k) \<and>
           (case token_state raw ?k of Searching \<Rightarrow> False
            | Candidate st b \<Rightarrow> MIN_TOKEN_LEN \<le> ?k + 1 - st \<and> b \<le> p \<and> p \<le> ?k
            | Masking \<Rightarrow> p = ?k)))"
  proof (cases "token_state raw ?k")
    case Searching
    then show ?thesis
      by (simp add: token_step_def Let_def tok byte split: option.split)
  next
    case (Candidate st b)
    have "index s b \<le> index s ?k + 1" "index s ?k + 1 \<le> length (covered s)"
      using body [OF Candidate] lt le len by (auto simp: index_def)
    with Candidate body [OF Candidate] len show ?thesis
      by (auto simp: token_step_def Let_def tok byte byte [unfolded index_def] index_def)
  next
    case Masking
    with le lt len show ?thesis
      by (auto simp: token_step_def Let_def tok byte byte [unfolded index_def] index_def
          nth_list_update)
  qed
  show "window_ok raw (token_step s)"
    using w lt cov by (auto simp: window_ok_def)
  show "flags_ok X raw (token_step s)"
    using f cov by (auto simp: flags_ok_def)
qed

lemma scan_tokens_induct:
  assumes step: "\<And>s. (token_at s < sr_end s \<Longrightarrow> P (token_step s)) \<Longrightarrow> P s"
  shows "P s"
proof (induction "sr_end s - token_at s" arbitrary: s rule: less_induct)
  case less
  show ?case
    by (rule step, rule less) (simp add: sr_end_def)
qed

lemma scan_tokens_frame [simp]:
  "base (scan_tokens s) = base s \<and> pending (scan_tokens s) = pending s \<and>
   before_bytes (scan_tokens s) = before_bytes s \<and> literal_at (scan_tokens s) = literal_at s \<and>
   patterns (scan_tokens s) = patterns s \<and> in_mask (scan_tokens s) = in_mask s"
proof (induction s rule: scan_tokens_induct)
  case (1 s)
  then show ?case by (simp add: scan_tokens.simps [of s])
qed

lemma scan_tokens_ok:
  assumes "window_ok raw s" and "flags_ok X raw s" and "token s = token_state raw (token_at s)"
    and "base s \<le> token_hold raw (token_at s)"
  shows "window_ok raw (scan_tokens s) \<and> flags_ok X raw (scan_tokens s) \<and>
    token_at (scan_tokens s) = length raw \<and> token (scan_tokens s) = token_state raw (length raw) \<and>
    base s \<le> token_hold raw (length raw)"
  using assms
proof (induction s rule: scan_tokens_induct)
  case (1 s)
  note unfold = scan_tokens.simps [of s] sr_end_window [OF "1.prems"(1)]
  show ?case
  proof (cases "token_at s < length raw")
    case False
    then have "token_at s = length raw"
      using "1.prems"(1) by (simp add: window_ok_def)
    with "1.prems" show ?thesis by (simp add: unfold)
  next
    case True
    note step = token_step_ok [OF "1.prems"(1,2) True "1.prems"(3,4)]
    have "base s \<le> token_hold raw (Suc (token_at s))"
      using "1.prems"(4) token_hold_mono_Suc le_trans by blast
    with "1.IH" step True show ?thesis by (simp add: unfold)
  qed
qed

section \<open>Emission\<close>

lemma emit_bytes_append:
  "emit_bytes (xs @ ys) m =
     (fst (emit_bytes xs m) @ fst (emit_bytes ys (snd (snd (emit_bytes xs m)))),
      fst (snd (emit_bytes xs m)) + fst (snd (emit_bytes ys (snd (snd (emit_bytes xs m))))),
      snd (snd (emit_bytes ys (snd (snd (emit_bytes xs m))))))"
  by (induction xs m rule: emit_bytes.induct) (auto simp: Let_def case_prod_beta)

lemma render_split:
  assumes "b \<le> k" and "k \<le> length raw"
  shows "render F raw k =
    (let (r, n, m) = render F raw b;
         (r', n', m') = emit_bytes (zip (take (k - b) (drop b raw)) (map F [b..<k])) m
     in (r @ r', n + n', m'))"
proof -
  have "take k raw = take b raw @ take (k - b) (drop b raw)"
    using assms by (metis le_add_diff_inverse take_add)
  moreover have "map F [0..<k] = map F [0..<b] @ map F [b..<k]"
    using assms by (metis le_add_diff_inverse map_append upt_add_eq_append zero_le)
  ultimately have "zip (take k raw) (map F [0..<k]) =
      zip (take b raw) (map F [0..<b]) @ zip (take (k - b) (drop b raw)) (map F [b..<k])"
    using assms by simp
  then show ?thesis
    by (simp add: render_def emit_bytes_append case_prod_beta Let_def)
qed

lemma emit_until_window:
  assumes w: "window_ok raw s" and k: "base s \<le> k" "k \<le> literal_at s" "k \<le> token_at s"
  shows "window_ok raw (snd (emit_until k s))"
proof -
  let ?e = "base s - (LONGEST_PREFIX - 1)"
  have k': "k \<le> length raw"
    using w k by (auto simp: window_ok_def)
  have "take k raw = take (base s) raw @ take (k - base s) (drop (base s) raw)"
    using k by (metis le_add_diff_inverse take_add)
  moreover have "?e \<le> length (take (base s) raw)"
    using w by (simp add: window_ok_def)
  ultimately have "before_bytes s @ take (index s k) (pending s) = drop ?e (take k raw)"
    using w by (simp add: window_ok_def index_def)
  moreover have "length (drop ?e (take k raw)) - (LONGEST_PREFIX - 1) + ?e = k - (LONGEST_PREFIX - 1)"
    using k k' by simp
  moreover have "before_bytes (snd (emit_until k s)) =
      (let b = before_bytes s @ take (index s k) (pending s) in drop (length b - (LONGEST_PREFIX - 1)) b)"
    by (simp only: emit_until_def Let_def case_prod_beta) simp
  ultimately have "before_bytes (snd (emit_until k s)) = drop (k - (LONGEST_PREFIX - 1)) (take k raw)"
    by (simp only: Let_def drop_drop)
  then show ?thesis
    using w k k' by (auto simp: window_ok_def emit_until_def index_def Let_def case_prod_beta)
qed

lemma emit_until_flags:
  assumes "window_ok raw s" and "flags_ok X raw s" and "base s \<le> k" and "k \<le> length raw"
  shows "flags_ok X raw (snd (emit_until k s))"
proof -
  have "drop (k - base s) (covered s) ! (p - k) = covered s ! (p - base s)" if "k \<le> p" "p < length raw" for p
    using assms that by (subst nth_drop) (auto simp: window_ok_def)
  with assms show ?thesis
    by (auto simp: flags_ok_def emit_until_def index_def Let_def case_prod_beta)
qed

lemma emit_until_render:
  assumes w: "window_ok raw s" and k: "base s \<le> k" "k \<le> length raw"
    and F: "\<And>p. base s \<le> p \<Longrightarrow> p < k \<Longrightarrow> covered s ! (p - base s) = F p"
    and m: "in_mask s = snd (snd (render F raw (base s)))"
  shows "render F raw k =
    (fst (render F raw (base s)) @ recorded (fst (emit_until k s)),
     fst (snd (render F raw (base s))) + redactions (fst (emit_until k s)),
     in_mask (snd (emit_until k s)))"
proof -
  have len: "length (covered s) = length raw - base s" and pen: "pending s = drop (base s) raw"
    using w by (auto simp: window_ok_def)
  have "take (k - base s) (covered s) = map F [base s..<k]"
  proof (rule nth_equalityI)
    show "length (take (k - base s) (covered s)) = length (map F [base s..<k])"
      using len k by simp
  next
    fix i
    assume "i < length (take (k - base s) (covered s))"
    moreover from this have "base s + i < k"
      by (simp add: less_diff_conv add.commute)
    ultimately show "take (k - base s) (covered s) ! i = map F [base s..<k] ! i"
      using F [of "base s + i"] by simp
  qed
  then show ?thesis
    by (subst render_split [OF k])
      (simp add: emit_until_def index_def pen m Let_def case_prod_beta)
qed

lemma emit_until_simps [simp]:
  "base (snd (emit_until k s)) = k" "consumed (fst (emit_until k s)) = k - base s"
  "literal_at (snd (emit_until k s)) = literal_at s" "token_at (snd (emit_until k s)) = token_at s"
  "token (snd (emit_until k s)) = token s" "patterns (snd (emit_until k s)) = patterns s"
  by (simp_all add: emit_until_def index_def Let_def case_prod_beta)

section \<open>Pushing bytes\<close>

lemma extend_ok:
  fixes p :: bytes
  assumes inv: "stream_inv r raw s"
  defines "s1 \<equiv> s\<lparr>pending := pending s @ p, covered := covered s @ replicate (length p) False\<rparr>"
  shows "window_ok (raw @ p) s1" and "flags_ok (\<lambda>_. False) (raw @ p) s1" and "scan_ok (raw @ p) s1"
proof -
  have w: "window_ok raw s" and f: "flags_ok (\<lambda>_. False) raw s" and sc: "scan_ok raw s"
    and t: "token_at s = length raw" and dec: "\<forall>q < literal_at s. decided (literals (patterns s)) raw q"
    and le: "literal_at s \<le> length raw" and len: "length (covered s) = length raw - base s"
    and b: "base s \<le> length raw"
    using inv by (auto simp: stream_inv_def scan_ok_def window_ok_def)
  show "window_ok (raw @ p) s1"
    using w by (auto simp: window_ok_def s1_def)
  show "scan_ok (raw @ p) s1"
    using sc t le by (auto simp: scan_ok_def s1_def token_state_append token_hold_append intro!: decided_append)
  have cov: "(covered s @ replicate (length p) False) ! (q - base s) \<longleftrightarrow>
      q < length raw \<and> covered s ! (q - base s)" if "base s \<le> q" "q < length (raw @ p)" for q
    using that len b by (auto simp: nth_append)
  have "lit_cov (literals (patterns s)) (raw @ p) (literal_at s) q
      = lit_cov (literals (patterns s)) raw (literal_at s) q" for q
    using dec le by (rule lit_cov_append)
  then show "flags_ok (\<lambda>_. False) (raw @ p) s1"
    using f cov t
    by (auto simp: flags_ok_def s1_def token_marks_append literal_covered_append
        dest: lit_cov_bound token_marks_less)
qed

lemma flags_exact:
  assumes "flags_ok X raw s" and "base s \<le> q" and "q < literal_at s" and "literal_at s \<le> length raw"
  shows "covered s ! (q - base s) \<longleftrightarrow>
    literal_covered (literals (patterns s)) raw q \<or> token_marks raw (token_at s) q \<or> X q"
  using assms literal_covered_less [of q "literal_at s" raw] by (auto simp: flags_ok_def)

lemma push_step:
  assumes inv: "stream_inv r raw s" and eq: "push p s = (c, s')"
  shows "stream_inv r (raw @ p) s' \<and> base s \<le> base s' \<and> consumed c = base s' - base s \<and>
    fst (render (masked_at (literals r) (raw @ p)) (raw @ p) (base s')) =
      fst (render (masked_at (literals r) raw) raw (base s)) @ recorded c \<and>
    fst (snd (render (masked_at (literals r) (raw @ p)) (raw @ p) (base s'))) =
      fst (snd (render (masked_at (literals r) raw) raw (base s))) + redactions c"
proof -
  define s1 where "s1 = s\<lparr>pending := pending s @ p, covered := covered s @ replicate (length p) False\<rparr>"
  define s2 where "s2 = scan False s1"
  define k where "k = min (literal_at s2) (token_hold (raw @ p) (length (raw @ p)))"
  let ?F = "masked_at (literals r) (raw @ p)"
  note ext = extend_ok [OF inv, of p, folded s1_def]
  have frame: "base s1 = base s" "patterns s1 = r" "in_mask s1 = in_mask s" "literal_at s \<le> literal_at s2"
    "base s2 = base s" "patterns s2 = r" "in_mask s2 = in_mask s"
    using inv scan_literals_mono [of s1 False] by (auto simp: s1_def s2_def scan_def stream_inv_def)
  have lits: "window_ok (raw @ p) (scan_literals False s1)" "flags_ok (\<lambda>_. False) (raw @ p) (scan_literals False s1)"
    "\<forall>q < literal_at s2. decided (literals r) (raw @ p) q"
    "literal_at s2 < length (raw @ p) \<longrightarrow> \<not> decided (literals r) (raw @ p) (literal_at s2)"
    using scan_literals_ok [OF ext(1,2), of False] ext(3) frame(2) by (simp_all add: scan_ok_def s2_def scan_def)
  have toks: "window_ok (raw @ p) s2" "flags_ok (\<lambda>_. False) (raw @ p) s2" "token_at s2 = length (raw @ p)"
    "token s2 = token_state (raw @ p) (length (raw @ p))" "base s \<le> token_hold (raw @ p) (length (raw @ p))"
    using scan_tokens_ok [OF lits(1,2)] ext(3) frame(1) by (simp_all add: scan_ok_def s2_def scan_def)
  have bounds: "base s2 \<le> k" "k \<le> literal_at s2" "k \<le> token_at s2" "literal_at s2 \<le> length (raw @ p)"
    using toks frame(5) token_hold_le [of "raw @ p" "length (raw @ p)"]
    by (auto simp: k_def window_ok_def)
  have emit: "c = fst (emit_until k s2)" "s' = snd (emit_until k s2)"
    using eq toks(3,4)
    by (simp_all add: push_def Let_def k_def token_hold_def split: token_scan.splits flip: s1_def s2_def)
  have same: "render ?F (raw @ p) (base s) = render (masked_at (literals r) raw) raw (base s)"
    using inv by (intro render_stable [where m = "literal_at s"])
      (auto simp: stream_inv_def scan_ok_def window_ok_def)
  have "covered s2 ! (q - base s2) = ?F q" if "base s2 \<le> q" "q < k" for q
    using flags_exact [OF toks(2) that(1)] that bounds toks(3) frame(6) by (simp add: masked_at_def)
  moreover have "in_mask s2 = snd (snd (render ?F (raw @ p) (base s2)))"
    using inv same frame by (simp add: stream_inv_def)
  ultimately have r: "render ?F (raw @ p) k =
    (fst (render ?F (raw @ p) (base s2)) @ recorded (fst (emit_until k s2)),
     fst (snd (render ?F (raw @ p) (base s2))) + redactions (fst (emit_until k s2)),
     in_mask (snd (emit_until k s2)))"
    using toks(1,3) bounds by (intro emit_until_render) auto
  have "stream_inv r (raw @ p) s'"
    using emit_until_window [OF toks(1) bounds(1-3)] emit_until_flags [OF toks(1,2) bounds(1)] bounds r lits(3,4) toks(3,4) frame
    by (simp add: stream_inv_def emit scan_ok_def) (simp add: k_def)
  with r bounds show ?thesis
    by (simp add: emit frame same)
qed

section \<open>Ending a stream\<close>

lemma literal_hold_eq:
  assumes "\<forall>q < m. decided ls raw q" and "m \<le> length raw"
    and "m < length raw \<longrightarrow> \<not> decided ls raw m"
  shows "literal_hold ls raw = m"
proof (cases "m < length raw")
  case True
  with assms have "find (\<lambda>q. \<not> decided ls raw q) [0..<length raw] = Some m"
    by (auto simp: find_Some_iff intro!: exI [of _ m])
  then show ?thesis
    by (simp add: literal_hold_def)
next
  case False
  with assms have "find (\<lambda>q. \<not> decided ls raw q) [0..<length raw] = None"
    by (auto simp: find_None_iff)
  with False assms show ?thesis
    by (simp add: literal_hold_def)
qed

lemma cut_from_state:
  assumes "stream_inv r raw s"
  shows "cut_from (literals r) raw = (case cutoff_from s of Some a \<Rightarrow> a | None \<Rightarrow> length raw)"
    and "base s \<le> cut_from (literals r) raw"
proof -
  have lit: "literal_hold (literals r) raw = literal_at s" and le: "literal_at s \<le> length raw"
    and e: "sr_end s = length raw"
    using assms by (auto simp: stream_inv_def scan_ok_def window_ok_def sr_end_def intro!: literal_hold_eq)
  have tok: "token s = token_state raw (length raw)"
    using assms by (auto simp: stream_inv_def scan_ok_def)
  show "cut_from (literals r) raw = (case cutoff_from s of Some a \<Rightarrow> a | None \<Rightarrow> length raw)"
  proof (cases "token s")
    case (Candidate st b)
    then have "b \<le> length raw"
      using tok token_state_body by metis
    with Candidate lit le e tok show ?thesis
      by (auto simp: cut_from_def cutoff_from_def token_hold_def Let_def)
  qed (use lit le e tok in \<open>auto simp: cut_from_def cutoff_from_def token_hold_def Let_def\<close>)
  show "base s \<le> cut_from (literals r) raw"
    using assms lit by (auto simp: cut_from_def stream_inv_def scan_ok_def window_ok_def)
qed

text \<open>The state \<open>finish\<close> scans: on a cut, every byte from the undecided one on is flagged.\<close>

lemma cutoff_flags:
  fixes reason :: finish_reason
  assumes inv: "stream_inv r raw s"
  defines "X \<equiv> \<lambda>q. reason = Cutoff \<and> cut_from (literals r) raw \<le> q"
    and "s1 \<equiv> (if reason = Cutoff then
                  (case cutoff_from s of
                     Some from \<Rightarrow>
                       s\<lparr>covered := fill_range (index s from) (length (covered s)) (covered s)\<rparr>
                   | None \<Rightarrow> s)
                else s)"
  shows "window_ok raw s1 \<and> flags_ok X raw s1 \<and> base s1 = base s \<and> literal_at s1 = literal_at s \<and>
    token_at s1 = token_at s \<and> token s1 = token s \<and> patterns s1 = patterns s \<and> in_mask s1 = in_mask s"
proof (cases "reason = Cutoff \<and> cutoff_from s \<noteq> None")
  case False
  then have "X q = False" if "q < length raw" for q
    using that cut_from_state(1) [OF inv] by (auto simp: X_def)
  moreover have "s1 = s"
    using False by (auto simp: s1_def)
  ultimately show ?thesis
    using inv by (auto simp: stream_inv_def flags_ok_def)
next
  case True
  then obtain a where a: "cutoff_from s = Some a"
    by auto
  then have cut: "cut_from (literals r) raw = a" "base s \<le> a"
    using cut_from_state [OF inv] by simp_all
  then have "a \<le> length raw"
    using token_hold_le [of raw "length raw"] by (auto simp: cut_from_def)
  have s1: "s1 = s\<lparr>covered := fill_range (a - base s) (length (covered s)) (covered s)\<rparr>"
    using True a by (simp add: s1_def index_def)
  have w: "window_ok raw s" and f: "flags_ok (\<lambda>_. False) raw s"
    using inv by (auto simp: stream_inv_def)
  have "covered s1 ! (q - base s) \<longleftrightarrow> a \<le> q \<or> covered s ! (q - base s)"
    if "base s \<le> q" "q < length raw" for q
    using that w cut(2) \<open>a \<le> length raw\<close>
    by (subst s1, simp, subst nth_fill_range) (auto simp: window_ok_def)
  with f have "flags_ok X raw s1"
    using True cut by (auto simp: flags_ok_def s1 X_def)
  with w \<open>a \<le> length raw\<close> show ?thesis
    by (auto simp: s1 window_ok_def)
qed

lemma finish_step:
  assumes inv: "stream_inv r raw s" and eq: "finish reason s = (c, s')"
  shows "s' = stream r" and "consumed c = length raw - base s"
    and "render (finally_masked (literals r) raw reason) raw (length raw) =
      (fst (render (masked_at (literals r) raw) raw (base s)) @ recorded c,
       fst (snd (render (masked_at (literals r) raw) raw (base s))) + redactions c,
       snd (snd (render (finally_masked (literals r) raw reason) raw (length raw))))"
proof -
  define X where "X = (\<lambda>q. reason = Cutoff \<and> cut_from (literals r) raw \<le> q)"
  define s1 where "s1 = (if reason = Cutoff then
                  (case cutoff_from s of
                     Some from \<Rightarrow>
                       s\<lparr>covered := fill_range (index s from) (length (covered s)) (covered s)\<rparr>
                   | None \<Rightarrow> s)
                else s)"
  define s2 where "s2 = scan True s1"
  let ?F = "finally_masked (literals r) raw reason"
  note cut = cutoff_flags [OF inv, of reason, folded X_def s1_def]
  have p: "patterns s = r" and e: "sr_end s = length raw" and tok: "token_at s = length raw"
    using inv sr_end_window [of raw s] by (auto simp: stream_inv_def)
  have lits: "window_ok raw (scan_literals True s1)" "flags_ok X raw (scan_literals True s1)"
    "literal_at s2 = length raw"
    using scan_literals_ok [of raw s1 X True] cut by (auto simp: s2_def scan_def window_ok_def)
  have toks: "window_ok raw s2" "flags_ok X raw s2" "token_at s2 = length raw"
    using scan_tokens_ok [OF lits(1,2)] cut inv by (auto simp: s2_def scan_def stream_inv_def scan_ok_def)
  have frame: "base s2 = base s" "patterns s2 = r" "in_mask s2 = in_mask s"
    using cut p by (simp_all add: s2_def scan_def)
  have emit: "c = fst (emit_until (length raw) s2)" "s' = stream (patterns s2)"
    using eq by (simp_all add: finish_def Let_def case_prod_beta e flip: s1_def s2_def)
  then show "s' = stream r" "consumed c = length raw - base s"
    by (simp_all add: frame)
  have b: "base s2 \<le> length raw" "base s \<le> cut_from (literals r) raw"
    using toks(1) cut_from_state(2) [OF inv] by (simp_all add: window_ok_def)
  then have same: "render ?F raw (base s2) = render (masked_at (literals r) raw) raw (base s)"
    using render_cong [of "base s" raw ?F "masked_at (literals r) raw" "[]"]
    by (auto simp: finally_masked_def frame)
  have "covered s2 ! (q - base s2) = ?F q" if "base s2 \<le> q" "q < length raw" for q
    using flags_exact [OF toks(2) that(1)] that lits(3) toks(3) frame(2)
    by (auto simp: finally_masked_def masked_at_def X_def)
  moreover have "in_mask s2 = snd (snd (render ?F raw (base s2)))"
    using inv by (simp add: same frame(3) stream_inv_def)
  ultimately show "render ?F raw (length raw) =
      (fst (render (masked_at (literals r) raw) raw (base s)) @ recorded c,
       fst (snd (render (masked_at (literals r) raw) raw (base s))) + redactions c,
       snd (snd (render ?F raw (length raw))))"
    using emit_until_render [OF toks(1) b(1), of ?F] by (simp add: emit same)
qed

section \<open>A whole stream\<close>

lemma stream_inv_start: "stream_inv r [] (stream r)"
  by (simp add: stream_inv_def stream_def window_ok_def flags_ok_def scan_ok_def token_hold_def render_def)

lemma push_all_step:
  assumes "stream_inv r raw s" and "push_all ps s = (cs, s')"
  shows "stream_inv r (raw @ concat ps) s' \<and> base s + sum_list (map consumed cs) = base s' \<and>
    fst (render (masked_at (literals r) (raw @ concat ps)) (raw @ concat ps) (base s')) =
      fst (render (masked_at (literals r) raw) raw (base s)) @ concat (map recorded cs) \<and>
    fst (snd (render (masked_at (literals r) (raw @ concat ps)) (raw @ concat ps) (base s'))) =
      fst (snd (render (masked_at (literals r) raw) raw (base s))) + sum_list (map redactions cs)"
  using assms
proof (induction ps arbitrary: raw s cs)
  case Nil
  then show ?case by simp
next
  case (Cons p ps)
  obtain c s1 where push: "push p s = (c, s1)"
    by fastforce
  moreover obtain cs' where rest: "push_all ps s1 = (cs', s')" and cs: "cs = c # cs'"
    using Cons.prems(2) push by (auto split: prod.splits)
  ultimately show ?case
    using push_step [OF Cons.prems(1) push] Cons.IH [of "raw @ p" s1 cs'] by simp
qed

lemma run_stream_bytes:
  "fst (render (finally_masked (literals r) (concat pieces) reason) (concat pieces) (length (concat pieces))) =
     concat (map recorded (run_stream r pieces reason))"
  and run_stream_redactions:
  "fst (snd (render (finally_masked (literals r) (concat pieces) reason) (concat pieces)
      (length (concat pieces)))) = sum_list (map redactions (run_stream r pieces reason))"
  and run_stream_consumed: "sum_list (map consumed (run_stream r pieces reason)) = length (concat pieces)"
proof -
  obtain cs s where all: "push_all pieces (stream r) = (cs, s)"
    by fastforce
  obtain c s' where fin: "finish reason s = (c, s')"
    by fastforce
  have run: "run_stream r pieces reason = cs @ [c]"
    by (simp add: run_stream_def all fin)
  have steps: "stream_inv r (concat pieces) s" "sum_list (map consumed cs) = base s"
    "fst (render (masked_at (literals r) (concat pieces)) (concat pieces) (base s)) = concat (map recorded cs)"
    "fst (snd (render (masked_at (literals r) (concat pieces)) (concat pieces) (base s))) =
       sum_list (map redactions cs)"
    using push_all_step [OF stream_inv_start all] by (simp_all add: stream_def render_def)
  moreover have "base s \<le> length (concat pieces)"
    using steps(1) by (simp add: stream_inv_def window_ok_def)
  ultimately show "sum_list (map consumed (run_stream r pieces reason)) = length (concat pieces)"
    using finish_step(2) [OF steps(1) fin] by (simp add: run)
  note fin = finish_step(3) [OF steps(1) fin]
  show "fst (render (finally_masked (literals r) (concat pieces) reason) (concat pieces)
      (length (concat pieces))) = concat (map recorded (run_stream r pieces reason))"
    by (subst fin) (simp add: run steps(3))
  show "fst (snd (render (finally_masked (literals r) (concat pieces) reason) (concat pieces)
      (length (concat pieces)))) = sum_list (map redactions (run_stream r pieces reason))"
    by (subst fin) (simp add: run steps(4))
qed

end
