(* ===== verification/Redact_Secrecy.thy ===== *)
theory Redact_Secrecy
  imports Redact_Correct
begin

text \<open>
  What the recorded bytes of a stream can and cannot hold.

  \<open>clear_of_marker\<close> is the condition a literal needs for its masking to be final: it neither lies
  inside the redaction marker, nor contains it, nor overlaps one of its ends. The theorems are about
  \<open>run_stream\<close>, the chunks of a stream that was read in any pieces and then ended: they are the
  whole-stream masking, no clear literal and no long token survives in them, and a stream without
  secrets is recorded byte for byte.
\<close>

definition clear_of_marker :: "bytes \<Rightarrow> bool" where
  "clear_of_marker l \<longleftrightarrow>
     \<not> sublist l REDACTED \<and> \<not> sublist REDACTED l \<and>
     list_all (\<lambda>n. \<not> prefix (drop n REDACTED) l \<and> \<not> suffix (take (n + 1) REDACTED) l)
       [0..<length REDACTED]"

section \<open>Occurrences in emitted bytes\<close>

lemma clear_prefix: "clear_of_marker l \<Longrightarrow> suffix k REDACTED \<Longrightarrow> prefix k l \<Longrightarrow> k = []"
proof (rule ccontr)
  assume l: "clear_of_marker l" and k: "suffix k REDACTED" "prefix k l" "k \<noteq> []"
  then have eq: "drop (length REDACTED - length k) REDACTED = k"
    by (metis append_eq_conv_conj length_append add_diff_cancel_right' suffix_def)
  have "length REDACTED - length k < length REDACTED"
    using k by (simp add: REDACTED_def)
  with l have "\<not> prefix (drop (length REDACTED - length k) REDACTED) l"
    by (simp add: clear_of_marker_def list_all_iff)
  with eq k(2) show False
    by simp
qed

lemma clear_suffix: "clear_of_marker l \<Longrightarrow> prefix k REDACTED \<Longrightarrow> suffix k l \<Longrightarrow> k = []"
proof (rule ccontr)
  assume l: "clear_of_marker l" and k: "prefix k REDACTED" "suffix k l" "k \<noteq> []"
  then have eq: "take (length k - 1 + 1) REDACTED = k"
    by (cases k) (metis append_eq_conv_conj prefix_def, simp add: take_Suc_Cons, metis append_eq_conv_conj length_Cons prefix_def)
  have "length k - 1 < length REDACTED"
    using k prefix_length_le [OF k(1)] by (cases k) auto
  with l have "\<not> suffix (take (length k - 1 + 1) REDACTED) l"
    by (simp add: clear_of_marker_def list_all_iff)
  with eq k(2) show False
    by simp
qed

lemma emit_prefix:
  assumes "clear_of_marker l" and "suffix k l" and "prefix k (fst (emit_bytes xs False))"
  shows "\<exists>zs us. xs = zs @ us \<and> map fst zs = k \<and> (\<forall>z \<in> set zs. \<not> snd z)"
  using assms(2,3)
proof (induction xs arbitrary: k)
  case Nil
  then show ?case by simp
next
  case (Cons x xs)
  obtain b cov where x: "x = (b, cov)"
    by fastforce
  show ?case
  proof (cases "k = []")
    case True
    then show ?thesis by simp
  next
    case False
    then obtain c k' where k: "k = c # k'"
      by (cases k) auto
    show ?thesis
    proof (cases cov)
      case True
      then have "prefix k (REDACTED @ fst (emit_bytes xs True))"
        using Cons.prems x by (simp add: case_prod_beta Let_def)
      then consider "prefix k REDACTED" | "prefix REDACTED k"
        by (auto simp: prefix_append)
      then have False
      proof cases
        case 1
        then show False
          using clear_suffix [OF assms(1)] Cons.prems(1) \<open>k \<noteq> []\<close> by blast
      next
        case 2
        then have "sublist REDACTED l"
          using Cons.prems(1) by (meson prefix_imp_sublist sublist_order.order_trans suffix_imp_sublist)
        with assms(1) show False
          by (simp add: clear_of_marker_def)
      qed
      then show ?thesis ..
    next
      case no_cov: False
      then have "c = b" "prefix k' (fst (emit_bytes xs False))"
        using Cons.prems x k by (auto simp: case_prod_beta Let_def)
      then obtain zs us where "xs = zs @ us" "map fst zs = k'" "\<forall>z \<in> set zs. \<not> snd z"
        using Cons.IH [of k'] Cons.prems(1) k by (meson suffix_ConsD)
      then show ?thesis
        using x k \<open>c = b\<close> no_cov by (intro exI [of _ "(b, False) # zs"] exI [of _ us]) auto
    qed
  qed
qed

lemma emit_sublist:
  assumes clear: "clear_of_marker l" and sub: "sublist l (fst (emit_bytes xs m))"
  shows "\<exists>ys zs us. xs = ys @ zs @ us \<and> map fst zs = l \<and> (\<forall>z \<in> set zs. \<not> snd z)"
  using sub
proof (induction xs arbitrary: m)
  case Nil
  then show ?case
    by simp
next
  case (Cons x xs)
  obtain b cov where x: "x = (b, cov)"
    by fastforce
  let ?goal = "\<lambda>xs. \<exists>ys zs us. xs = ys @ zs @ us \<and> map fst zs = l \<and> (\<forall>z \<in> set zs. \<not> snd z)"
  have skip: "?goal (x # xs)" if "sublist l (fst (emit_bytes xs m'))" for m'
    using Cons.IH [OF that] by (metis append_Cons)
  consider "\<not> cov" | "cov" "m" | "cov" "\<not> m"
    by blast
  then show ?case
  proof cases
    case 1
    then have "prefix l (fst (emit_bytes (x # xs) False)) \<or> sublist l (fst (emit_bytes xs False))"
      using Cons.prems x by (auto simp: case_prod_beta Let_def sublist_Cons_right)
    then show ?thesis
      using skip emit_prefix [OF clear, of l "x # xs"] by (metis append_Nil suffix_order.order_refl)
  next
    case 2
    then show ?thesis
      using Cons.prems x by (intro skip [of True]) auto
  next
    case 3
    then have "sublist l (REDACTED @ fst (emit_bytes xs True))"
      using Cons.prems x by (simp add: case_prod_beta Let_def)
    then consider "sublist l REDACTED" | "sublist l (fst (emit_bytes xs True))"
      | l1 l2 where "l = l1 @ l2" "suffix l1 REDACTED" "prefix l2 (fst (emit_bytes xs True))"
      by (auto simp: sublist_append)
    then have "sublist l (fst (emit_bytes xs True))"
    proof cases
      case 1
      with clear show ?thesis by (simp add: clear_of_marker_def)
    next
      case 3
      then show ?thesis
        using clear_prefix [OF clear, of l1] by (auto intro: prefix_imp_sublist)
    qed
    then show ?thesis
      by (rule skip)
  qed
qed

lemma render_no_literal:
  assumes "clear_of_marker l" and "l \<noteq> []"
    and masked: "\<And>s. occurs_at l s raw \<Longrightarrow> F s"
  shows "\<not> sublist l (fst (render F raw (length raw)))"
proof
  assume "sublist l (fst (render F raw (length raw)))"
  then obtain ys zs us where xs: "zip raw (map F [0..<length raw]) = ys @ zs @ us"
    and zs: "map fst zs = l" "\<forall>z \<in> set zs. \<not> snd z"
    using emit_sublist [OF assms(1), of "zip raw (map F [0..<length raw])" False]
    by (auto simp: render_def)
  have "raw = map fst (ys @ zs @ us)" and fl: "map F [0..<length raw] = map snd (ys @ zs @ us)"
    by (simp_all flip: xs)
  then have occ: "occurs_at l (length ys) raw"
    using zs(1) by simp
  from assms(2) zs(1) have z: "zs \<noteq> []"
    by auto
  have "length ys < length raw"
    using occ assms(2) by (metis drop_all linorder_not_less prefix_Nil)
  then have "F (length ys) = map snd (ys @ zs @ us) ! length ys"
    unfolding fl [symmetric] by simp
  also have "\<dots> = snd (hd zs)"
    using z by (simp add: nth_append hd_conv_nth)
  finally show False
    using masked [OF occ] zs(2) z by simp
qed

section \<open>Tokens\<close>

lemma token_state_window: "token_state raw k = Candidate st b \<Longrightarrow> k < st + MIN_TOKEN_LEN"
proof (induction k arbitrary: st b)
  case 0
  then show ?case by simp
next
  case (Suc k)
  have "len \<le> LONGEST_PREFIX" if "prefix_ends raw k = Some len" for len
    using that by (auto simp: prefix_ends_def find_Some_iff token_prefix_length)
  with Suc show ?case
    by (auto simp: LONGEST_PREFIX_eq MIN_TOKEN_LEN_def split: if_splits token_scan.splits option.splits)
qed

lemma token_prefixes_chars: "list_all (list_all is_token_char) TOKEN_PREFIXES"
  by code_simp

lemma token_prefix_chars: "pr \<in> set TOKEN_PREFIXES \<Longrightarrow> c \<in> set pr \<Longrightarrow> is_token_char c"
  using token_prefixes_chars by (auto simp: list_all_iff)

lemma token_prefixes_sublist_free:
  "list_all (\<lambda>p. list_all (\<lambda>q. sublist p q \<longrightarrow> p = q) TOKEN_PREFIXES) TOKEN_PREFIXES"
  by code_simp

lemma token_prefix_sublist_free:
  "p \<in> set TOKEN_PREFIXES \<Longrightarrow> q \<in> set TOKEN_PREFIXES \<Longrightarrow> sublist p q \<Longrightarrow> p = q"
  using token_prefixes_sublist_free by (auto simp: list_all_iff)

lemma prefix_ends_prefix:
  assumes "pr \<in> set TOKEN_PREFIXES" and "take (k + 1) raw = a @ pr"
  shows "prefix_ends raw k = Some (length pr)"
proof -
  have uniq: "q = pr" if "q \<in> set TOKEN_PREFIXES" "suffix q (take (k + 1) raw)" for q
  proof -
    have "suffix q pr \<or> suffix pr q"
      using that(2) assms(2) by (metis suffixI suffix_same_cases)
    then show ?thesis
      using that(1) assms(1) token_prefix_sublist_free suffix_imp_sublist by metis
  qed
  have "suffix pr (take (k + 1) raw)"
    using assms(2) by (simp add: suffix_def)
  then obtain q where q: "find (\<lambda>q. suffix q (take (k + 1) raw)) TOKEN_PREFIXES = Some q"
    using assms(1) by (metis find_None_iff not_Some_eq)
  then have "q \<in> set TOKEN_PREFIXES" "suffix q (take (k + 1) raw)"
    by (metis find_Some_iff nth_mem)+
  then show ?thesis
    using q uniq by (simp add: prefix_ends_def)
qed

lemma token_state_prefix:
  "token_state raw k = Candidate st b \<Longrightarrow> k \<le> length raw \<Longrightarrow> drop st (take b raw) \<in> set TOKEN_PREFIXES"
proof (induction k)
  case 0
  then show ?case by simp
next
  case (Suc k)
  have "drop (Suc k - len) (take (Suc k) raw) \<in> set TOKEN_PREFIXES" if "prefix_ends raw k = Some len" for len
  proof -
    from that obtain pr zs where "pr \<in> set TOKEN_PREFIXES" "take (Suc k) raw = zs @ pr" "len = length pr"
      by (auto simp: prefix_ends_def find_Some_iff suffix_def intro: nth_mem)
    moreover from this have "Suc k - len = length zs"
      using Suc.prems(2) by (metis add_diff_cancel_right' length_append length_take min.absorb2)
    ultimately show ?thesis
      by simp
  qed
  with Suc show ?case
    by (auto split: if_splits token_scan.splits option.splits)
qed

text \<open>After a prefix the automaton has a candidate that began no later, or masks already.\<close>

lemma token_state_after_prefix:
  assumes pr: "pr \<in> set TOKEN_PREFIXES" and raw: "raw = a @ pr @ rest"
  shows "(\<exists>st b. token_state raw (length (a @ pr)) = Candidate st b \<and> st \<le> length a \<and>
      b \<le> length (a @ pr)) \<or>
    token_state raw (length (a @ pr)) = Masking"
proof -
  define k where "k = length (a @ pr) - 1"
  have k: "length (a @ pr) = Suc k"
    using token_prefix_length [OF pr] by (simp add: k_def)
  have last: "raw ! k = last pr"
    using token_prefix_length [OF pr]
    by (cases pr rule: rev_cases) (auto simp: raw k_def nth_append)
  then have tc: "is_token_char (raw ! k)"
    using pr token_prefix_length [OF pr] by (auto intro: token_prefix_chars)
  have ends: "prefix_ends raw k = Some (length pr)"
    using k by (intro prefix_ends_prefix [OF pr, of _ _ a]) (simp add: raw)
  have "(\<exists>st b. token_state raw (Suc k) = Candidate st b \<and> st \<le> length a \<and> b \<le> Suc k) \<or>
    token_state raw (Suc k) = Masking"
  proof (cases "token_state raw k")
    case Searching
    then show ?thesis
      using tc ends k by auto
  next
    case (Candidate st b)
    then have b: "b \<le> k" "st \<le> b"
      using token_state_body by blast+
    have "st \<le> length a"
    proof (rule ccontr)
      assume st: "\<not> st \<le> length a"
      let ?q = "drop st (take b raw)"
      have q: "?q \<in> set TOKEN_PREFIXES"
        using Candidate k by (intro token_state_prefix [of raw k]) (auto simp: raw)
      have "?q = drop (st - length a) (take (b - length a) pr)"
        using st b k by (simp add: raw)
      then have "sublist ?q pr"
        by (metis sublist_drop sublist_order.order_trans sublist_take)
      then have "length ?q = length pr"
        using token_prefix_sublist_free [OF q pr] by simp
      then show False
        using st b k token_prefix_length [OF pr] by (simp add: raw)
    qed
    then show ?thesis
      using tc Candidate b by auto
  next
    case Masking
    then show ?thesis using tc by simp
  qed
  then show ?thesis
    by (simp only: k)
qed

lemma token_run:
  assumes pr: "pr \<in> set TOKEN_PREFIXES" and t: "list_all is_token_char t"
    and raw: "raw = a @ pr @ t @ rest" and e: "e = length (a @ pr)"
  shows "n \<le> length t \<Longrightarrow>
    (\<exists>st b. token_state raw (e + n) = Candidate st b \<and> st \<le> length a \<and> b \<le> e) \<or>
    token_state raw (e + n) = Masking \<and> (\<forall>p. e \<le> p \<and> p < e + n \<longrightarrow> token_marks raw (e + n) p)"
proof (induction n)
  case 0
  then show ?case
    using token_state_after_prefix [OF pr, of raw a "t @ rest"] raw e by auto
next
  case (Suc n)
  have "raw ! (e + n) = t ! n"
    using Suc.prems by (simp add: raw e nth_append)
  then have tc: "is_token_char (raw ! (e + n))"
    using Suc.prems t by (simp add: list_all_length)
  from Suc consider st b where "token_state raw (e + n) = Candidate st b" "st \<le> length a" "b \<le> e"
    | "token_state raw (e + n) = Masking" "\<forall>p. e \<le> p \<and> p < e + n \<longrightarrow> token_marks raw (e + n) p"
    by auto
  then show ?case
    by cases (use tc in \<open>auto simp: less_Suc_eq\<close>)
qed

lemma token_marks_mono: "token_marks raw k p \<Longrightarrow> k \<le> n \<Longrightarrow> token_marks raw n p"
  by (induction n) (auto simp: le_Suc_eq)

lemma token_masked:
  assumes pr: "pr \<in> set TOKEN_PREFIXES" and t: "list_all is_token_char t"
    and raw: "raw = a @ pr @ t @ rest" and len: "MIN_TOKEN_LEN \<le> length (pr @ t)"
    and p: "length (a @ pr) \<le> p" "p < length (a @ pr @ t)"
  shows "masked_at ls raw p"
proof -
  let ?k = "length (a @ pr) + length t"
  have "st \<le> length a \<Longrightarrow> token_state raw ?k \<noteq> Candidate st b" for st b
    using token_state_window [of raw ?k st b] len by auto
  then have "token_marks raw ?k p"
    using token_run [OF pr t raw refl, of "length t"] p by auto
  then show ?thesis
    unfolding masked_at_def by (auto simp: raw intro: token_marks_mono)
qed

section \<open>Streams without secrets\<close>

lemma token_quiet:
  assumes "list_all (\<lambda>pr. \<not> sublist pr raw) TOKEN_PREFIXES"
  shows "token_state raw k = Searching \<and> \<not> token_marks raw k p"
proof (induction k)
  case 0
  then show ?case by simp
next
  case (Suc k)
  have "\<not> suffix pr (take (k + 1) raw)" if "pr \<in> set TOKEN_PREFIXES" for pr
    using that assms unfolding list_all_iff
    by (meson sublist_order.order_trans sublist_take suffix_imp_sublist)
  then have "find (\<lambda>pr. suffix pr (take (k + 1) raw)) TOKEN_PREFIXES = None"
    by (simp add: find_None_iff)
  then have "prefix_ends raw k = None"
    by (simp add: prefix_ends_def)
  with Suc show ?case
    by simp
qed

lemma emit_bytes_plain: "list_all (\<lambda>z. \<not> snd z) zs \<Longrightarrow> emit_bytes zs False = (map fst zs, 0, False)"
  by (induction zs) auto

lemma render_plain:
  assumes "\<And>p. p < length raw \<Longrightarrow> \<not> F p"
  shows "render F raw (length raw) = (raw, 0, False)"
proof -
  have "list_all (\<lambda>z. \<not> snd z) (zip raw (map F [0..<length raw]))"
    using assms by (auto simp: list_all_length)
  then show ?thesis
    by (simp add: render_def emit_bytes_plain)
qed

lemma masked_at_plain:
  assumes "list_all (\<lambda>l. \<not> sublist l raw) ls" and "list_all (\<lambda>pr. \<not> sublist pr raw) TOKEN_PREFIXES"
  shows "\<not> masked_at ls raw p"
proof -
  have "\<not> occurs_at l s raw" if "l \<in> set ls" for l s
    using that assms(1) unfolding list_all_iff
    by (meson prefix_imp_sublist sublist_drop sublist_order.order_trans)
  then show ?thesis
    using token_quiet [OF assms(2)] by (auto simp: masked_at_def literal_covered_def lit_cov_def)
qed

lemma literal_occurrence_masked:
  assumes "l \<in> set ls" and "l \<noteq> []" and "occurs_at l s raw"
  shows "finally_masked ls raw reason s"
proof -
  have "s < length raw"
    using assms by (metis drop_all linorder_not_less prefix_Nil)
  with assms show ?thesis
    by (auto simp: finally_masked_def masked_at_def literal_covered_iff)
qed

section \<open>Properties\<close>

text \<open>
  C1. Whatever pieces a stream arrives in, the chunks its redactor records, concatenated, are the
  masking of the whole stream: what is recorded does not depend on where the reads split it.
\<close>

theorem run_stream_recorded:
  "concat (map recorded (run_stream r pieces reason)) = mask_stream (literals r) (concat pieces) reason"
  by (simp add: mask_stream_def run_stream_bytes)


text \<open>
  C6. A literal that is clear of the redaction marker never appears in the recorded bytes of a
  stream, however the stream was split and whether it ended or was cut.
\<close>

theorem literal_never_recorded:
  assumes "l \<in> set (literals r)" and "l \<noteq> []" and "clear_of_marker l"
  shows "\<not> sublist l (concat (map recorded (run_stream r pieces reason)))"
  using render_no_literal [OF assms(3,2), of "concat pieces"
      "finally_masked (literals r) (concat pieces) reason"]
    literal_occurrence_masked [OF assms(1,2)]
  by (simp add: run_stream_bytes)

theorem literal_never_recorded_witness:
  "\<not> sublist ''hunter22''
     (concat (map recorded
       (run_stream (redactor_new [''hunter22'']) [''pass hunt'', ''er22 ok''] Eof)))"
  by (rule literal_never_recorded) (simp_all add: redactor_new_def MIN_LITERAL_LEN_def, code_simp)

text \<open>
  C16. The body of a token is masked: when a stream holds a known token prefix followed by token
  characters, at least sixteen bytes in all, every byte of that body is recorded as masked.
\<close>

theorem token_body_masked:
  assumes "pr \<in> set TOKEN_PREFIXES" and "list_all is_token_char t"
    and "concat pieces = a @ pr @ t @ rest" and "MIN_TOKEN_LEN \<le> length (pr @ t)"
  shows "\<exists>F. (\<forall>p. length (a @ pr) \<le> p \<and> p < length (a @ pr @ t) \<longrightarrow> F p) \<and>
    concat (map recorded (run_stream r pieces reason)) =
      fst (render F (concat pieces) (length (concat pieces)))"
  using token_masked [OF assms]
  by (intro exI [of _ "finally_masked (literals r) (concat pieces) reason"])
    (simp add: finally_masked_def run_stream_bytes)

theorem token_body_masked_witness:
  "\<exists>F. (\<forall>p. length (''x='' @ ''ghp_'') \<le> p \<and> p < length (''x='' @ ''ghp_'' @ ''abcdefABCDEF0123'') \<longrightarrow> F p) \<and>
    concat (map recorded (run_stream (redactor_new []) [''x=gh'', ''p_abcdefABCDEF'', ''0123 y''] Eof)) =
      fst (render F (concat [''x=gh'', ''p_abcdefABCDEF'', ''0123 y''])
        (length (concat [''x=gh'', ''p_abcdefABCDEF'', ''0123 y''])))"
  by (rule token_body_masked [where rest = "'' y''"])
    (code_simp | simp)+



end
