(* ===== verification/Identity.thy ===== *)
theory Identity
  imports Rust_Str
begin

text \<open>
  Which user a process may run as, and the environment that user gets:
  \<open>crates/sealant-process/src/identity.rs\<close> and \<open>People\<close> of
  \<open>crates/sealant-runtime-core/src/config.rs\<close>.

  The passwd and group databases are parameters: a lookup by uid, a lookup by name and
  \<open>getgrouplist\<close>. The system calls a child makes before \<open>exec\<close> are not modelled. The theorems: a
  resolved user is never root nor in root's group and is one the rule admits; the image's person
  environment never sets a name of the identity, a withheld name or a secret-looking one.
\<close>

section \<open>Users a request may name\<close>

definition PERSON_GID :: nat where
  "PERSON_GID = 40000"

definition PERSON_UID_MIN :: nat where
  "PERSON_UID_MIN = 40001"

definition PERSON_UID_MAX :: nat where
  "PERSON_UID_MAX = 49999"

definition PROXY_ENV_KEYS :: "string list" where
  "PROXY_ENV_KEYS = [''HTTP_PROXY'', ''HTTPS_PROXY'', ''http_proxy'', ''https_proxy'']"

datatype people = Reserved | Listed (people_gid: nat) (people_uids: "nat list")

text \<open>Why \<open>admit\<close> refuses; the source spells each reason out in words.\<close>

datatype admit_error =
    OutsideRange nat
  | NotPersonGroup nat nat
  | NotMapGroup nat nat nat
  | NotListedOutsideRange nat
  | NotListedGroup nat nat

definition admit_reserved :: "nat \<Rightarrow> nat \<Rightarrow> admit_error + unit" where
  "admit_reserved uid gid =
     (if \<not> (PERSON_UID_MIN \<le> uid \<and> uid \<le> PERSON_UID_MAX) then Err (OutsideRange uid)
      else if gid \<noteq> PERSON_GID then Err (NotPersonGroup uid gid)
      else Ok ())"

fun admit :: "people \<Rightarrow> nat \<Rightarrow> nat \<Rightarrow> admit_error + unit" where
  "admit Reserved uid gid = admit_reserved uid gid"
| "admit (Listed grp uids) uid gid =
     (let listed = uid \<in> set uids in
      if listed \<and> gid = grp \<or> isl (admit_reserved uid gid) = False then Ok ()
      else if listed then Err (NotMapGroup uid gid grp)
      else if \<not> (PERSON_UID_MIN \<le> uid \<and> uid \<le> PERSON_UID_MAX) then Err (NotListedOutsideRange uid)
      else Err (NotListedGroup uid gid))"

section \<open>The passwd entry\<close>

record passwd_entry =
  pw_name :: string
  pw_uid :: nat
  pw_gid :: nat
  pw_dir :: string
  pw_shell :: string

record run_as =
  ra_name :: string
  ra_uid :: nat
  ra_gid :: nat
  ra_groups :: "nat list"
  ra_home :: string
  ra_shell :: string

datatype resolve_error =
    UserEmpty
  | LookupFailed string
  | NoSuchUser string
  | IsRoot string
  | RootPrimaryGroup string
  | Refused string admit_error
  | NulInName string
  | GroupsFailed string
  | InRootGroup string

text \<open>
  The operating system's user database: a lookup fails, finds nothing or finds an entry, and
  \<open>getgrouplist\<close> of a name and primary group fails or lists group ids.
\<close>

record user_db =
  from_uid :: "nat \<Rightarrow> unit + passwd_entry option"
  from_name :: "string \<Rightarrow> unit + passwd_entry option"
  getgrouplist :: "string \<Rightarrow> nat \<Rightarrow> unit + nat list"

definition lookup_user :: "user_db \<Rightarrow> string \<Rightarrow> unit + passwd_entry option" where
  "lookup_user db user = (case parse_u32 user of Some uid \<Rightarrow> from_uid db uid | None \<Rightarrow> from_name db user)"

definition resolve :: "user_db \<Rightarrow> string \<Rightarrow> people \<Rightarrow> resolve_error + run_as" where
  "resolve db name people =
     (let user = trim name in
      if user = [] then Err UserEmpty
      else case lookup_user db user of
        Err e \<Rightarrow> Err (LookupFailed user)
      | Ok None \<Rightarrow> Err (NoSuchUser user)
      | Ok (Some entry) \<Rightarrow>
          if pw_uid entry = 0 then Err (IsRoot user)
          else if pw_gid entry = 0 then Err (RootPrimaryGroup user)
          else case admit people (pw_uid entry) (pw_gid entry) of
            Err why \<Rightarrow> Err (Refused user why)
          | Ok _ \<Rightarrow>
              if NUL \<in> set (pw_name entry) then Err (NulInName user)
              else case getgrouplist db (pw_name entry) (pw_gid entry) of
                Err e \<Rightarrow> Err (GroupsFailed user)
              | Ok groups \<Rightarrow>
                  if 0 \<in> set groups then Err (InRootGroup user)
                  else Ok \<lparr>ra_name = pw_name entry, ra_uid = pw_uid entry, ra_gid = pw_gid entry,
                           ra_groups = groups, ra_home = pw_dir entry, ra_shell = pw_shell entry\<rparr>)"

section \<open>The identity's environment\<close>

definition IDENTITY_KEYS :: "string list" where
  "IDENTITY_KEYS = [''HOME'', ''USER'', ''LOGNAME'', ''SHELL'', ''TMPDIR'', ''XDG_RUNTIME_DIR'']"

definition tmpdir :: "run_as \<Rightarrow> string" where
  "tmpdir r = ''/tmp/u-'' @ decimal (ra_uid r)"

definition runtime_dir :: "run_as \<Rightarrow> string" where
  "runtime_dir r = ''/run/user/'' @ decimal (ra_uid r)"

definition run_as_env :: "run_as \<Rightarrow> (string \<times> string) list" where
  "run_as_env r =
     [(''HOME'', ra_home r), (''USER'', ra_name r), (''LOGNAME'', ra_name r), (''SHELL'', ra_shell r),
      (''TMPDIR'', tmpdir r), (''XDG_RUNTIME_DIR'', runtime_dir r)]"

section \<open>Names a person's process never gets\<close>

definition WITHHELD :: "string list" where
  "WITHHELD =
     [''CLAUDE_CODE_OAUTH_TOKEN'', ''ANTHROPIC_API_KEY'', ''ANTHROPIC_AUTH_TOKEN'', ''OPENAI_API_KEY'',
      ''CODEX_API_KEY'', ''GEMINI_API_KEY'', ''GOOGLE_API_KEY'', ''OPENROUTER_API_KEY'', ''GITHUB_TOKEN'',
      ''GH_TOKEN'', ''GH_ENTERPRISE_TOKEN'', ''GITHUB_ENTERPRISE_TOKEN'', ''MEND_SESSION_TOKEN'',
      ''SSH_AUTH_SOCK'', ''SSH_ASKPASS'', ''GIT_ASKPASS'', ''GIT_SSH'', ''GIT_SSH_COMMAND'',
      ''XDG_CONFIG_HOME'', ''XDG_DATA_HOME'', ''XDG_STATE_HOME'', ''XDG_CACHE_HOME'']"

definition SECRET_MARKERS :: "string list" where
  "SECRET_MARKERS = [''TOKEN'', ''SECRET'', ''PASSWORD'', ''PASSWD'', ''CREDENTIAL'', ''APIKEY'']"

definition withheld_from_person :: "string \<Rightarrow> bool" where
  "withheld_from_person key \<longleftrightarrow>
     (let upper = to_ascii_uppercase key in prefix ''SEALANT_'' upper \<or> upper \<in> set WITHHELD)"

definition looks_secret :: "string \<Rightarrow> bool" where
  "looks_secret key \<longleftrightarrow>
     (let upper = to_ascii_uppercase key
      in list_ex (\<lambda>m. sublist m upper) SECRET_MARKERS \<or> suffix ''_KEY'' upper)"

section \<open>The image's person environment\<close>

definition PERSON_ENV_VERSION_LINE :: string where
  "PERSON_ENV_VERSION_LINE = ''# person-env 1''"

definition DEFAULT_PATH :: string where
  "DEFAULT_PATH = ''/usr/local/sbin:/usr/local/bin:/usr/sbin:/usr/bin:/sbin:/bin''"

datatype person_env_error = OtherVersion string | NotPersonEnv

definition env_name_ok :: "string \<Rightarrow> bool" where
  "env_name_ok key \<longleftrightarrow>
     (case key of [] \<Rightarrow> False | c # cs \<Rightarrow> is_ascii_alphabetic c \<or> c = CHR ''_'') \<and>
     list_all (\<lambda>c. is_ascii_alphanumeric c \<or> c = CHR ''_'') key"

text \<open>One line: what is set so far and the \<open>PATH_PREPEND\<close> values so far.\<close>

definition person_env_line ::
  "bytes \<Rightarrow> (string \<times> string) list \<times> string list \<Rightarrow> (string \<times> string) list \<times> string list" where
  "person_env_line raw st =
     (let line = trim_end_matches CR raw; (out, prepend) = st in
      if trim line = [] \<or> prefix ''#'' (trim_start line) \<or> NUL \<in> set line then st
      else case split_once (CHR ''='') line of
        None \<Rightarrow> st
      | Some (key, value) \<Rightarrow>
          if \<not> env_name_ok key then st
          else if key = ''PATH_PREPEND'' then (if value \<noteq> [] then (out, prepend @ [value]) else st)
          else if key = ''PATH'' \<or> key \<in> set IDENTITY_KEYS \<or> withheld_from_person key \<or> looks_secret key
          then st
          else (out @ [(key, value)], prepend))"

definition trim_start_matches :: "bytes \<Rightarrow> bytes \<Rightarrow> bytes" where
  "trim_start_matches p s =
     (let n = length (takeWhile (\<lambda>k. prefix p (drop (k * length p) s)) [0..<length s])
      in drop (n * length p) s)"

definition parse_person_env ::
  "bytes \<Rightarrow> string option \<Rightarrow> person_env_error + (string \<times> string) list" where
  "parse_person_env text base_path =
     (let ls = lines text;
          first = (case ls of [] \<Rightarrow> None | l # _ \<Rightarrow> Some (trim_end_matches CR l))
      in if first \<noteq> Some PERSON_ENV_VERSION_LINE then
           Err (case first of
                  Some line \<Rightarrow>
                    if prefix ''# person-env '' line
                    then OtherVersion (trim_start_matches ''# person-env '' line) else NotPersonEnv
                | None \<Rightarrow> NotPersonEnv)
         else
           (let (out, prepend) = fold person_env_line (tl ls) ([], [])
            in if prepend \<noteq> [] then
                 Ok (out @ [(''PATH'', join '':'' prepend @ '':'' @
                      (case base_path of Some p \<Rightarrow> p | None \<Rightarrow> DEFAULT_PATH))])
               else Ok out))"

text \<open>\<open>person_env_at\<close>: nothing applies when the file cannot be read or does not parse.\<close>

definition person_env_at :: "bytes option \<Rightarrow> string option \<Rightarrow> (string \<times> string) list" where
  "person_env_at content base_path =
     (case content of
        None \<Rightarrow> []
      | Some text \<Rightarrow> (case parse_person_env text base_path of Ok env \<Rightarrow> env | Err _ \<Rightarrow> []))"

section \<open>Which users are admitted\<close>

lemma admit_reserved_Ok:
  "admit_reserved uid gid = Ok u \<longleftrightarrow>
     PERSON_UID_MIN \<le> uid \<and> uid \<le> PERSON_UID_MAX \<and> gid = PERSON_GID"
  by (auto simp: admit_reserved_def)

lemma admit_Ok:
  "admit p uid gid = Ok u \<longleftrightarrow>
     (PERSON_UID_MIN \<le> uid \<and> uid \<le> PERSON_UID_MAX \<and> gid = PERSON_GID) \<or>
     (\<exists>uids. p = Listed gid uids \<and> uid \<in> set uids)"
  by (cases p) (auto simp: admit_reserved_Ok admit_reserved_def Let_def)

text \<open>
  C15. A user a request names resolves only to a passwd entry that is not root, whose primary group
  and supplementary groups are not root's, and that the people rule admits: a uid of the reserved
  range in its group, or a uid of the owner map in the map's group.
\<close>

theorem resolve_never_root:
  assumes "resolve db name people = Ok r"
  shows "ra_uid r \<noteq> 0 \<and> ra_gid r \<noteq> 0 \<and> 0 \<notin> set (ra_groups r) \<and>
    ((PERSON_UID_MIN \<le> ra_uid r \<and> ra_uid r \<le> PERSON_UID_MAX \<and> ra_gid r = PERSON_GID) \<or>
     (\<exists>uids. people = Listed (ra_gid r) uids \<and> ra_uid r \<in> set uids))"
  using assms
  by (auto simp: resolve_def Let_def admit_Ok split: if_splits sum.splits option.splits)

text \<open>A user database of one person, for the witnesses.\<close>

definition one_person_db :: user_db where
  "one_person_db =
     \<lparr>from_uid = (\<lambda>u. Ok (if u = 40007 then
         Some \<lparr>pw_name = ''ada'', pw_uid = 40007, pw_gid = 40000, pw_dir = ''/home/ada'', pw_shell = ''/bin/sh''\<rparr>
         else None)),
      from_name = (\<lambda>n. Ok None), getgrouplist = (\<lambda>n g. Ok [g, 27])\<rparr>"

lemma one_person_resolves:
  "resolve one_person_db '' 40007'' Reserved =
     Ok \<lparr>ra_name = ''ada'', ra_uid = 40007, ra_gid = 40000, ra_groups = [40000, 27],
         ra_home = ''/home/ada'', ra_shell = ''/bin/sh''\<rparr>"
  by code_simp

theorem resolve_never_root_witness:
  "\<exists>r. resolve one_person_db '' 40007'' Reserved = Ok r \<and> ra_uid r \<noteq> 0 \<and> ra_gid r \<noteq> 0 \<and> 0 \<notin> set (ra_groups r)"
  using resolve_never_root [OF one_person_resolves] one_person_resolves by blast

lemma run_as_env_keys: "map fst (run_as_env r) = IDENTITY_KEYS"
  by (simp add: run_as_env_def IDENTITY_KEYS_def)

section \<open>The person environment\<close>

definition person_name_allowed :: "string \<Rightarrow> bool" where
  "person_name_allowed key \<longleftrightarrow>
     env_name_ok key \<and> key \<noteq> ''PATH'' \<and> key \<notin> set IDENTITY_KEYS \<and> \<not> withheld_from_person key \<and>
     \<not> looks_secret key"

lemma person_env_line_allowed:
  "list_all (\<lambda>(k, v). person_name_allowed k \<and> NUL \<notin> set v) (fst st) \<and> list_all (\<lambda>v. v \<noteq> [] \<and> NUL \<notin> set v) (snd st) \<Longrightarrow>
   list_all (\<lambda>(k, v). person_name_allowed k \<and> NUL \<notin> set v) (fst (person_env_line l st)) \<and>
   list_all (\<lambda>v. v \<noteq> [] \<and> NUL \<notin> set v) (snd (person_env_line l st))"
  by (cases st)
    (auto simp: person_env_line_def person_name_allowed_def Let_def dest!: split_once_append
      split: option.splits)

lemma person_env_fold_allowed:
  assumes "list_all (\<lambda>(k, v). person_name_allowed k \<and> NUL \<notin> set v) (fst st)"
    and "list_all (\<lambda>v. v \<noteq> [] \<and> NUL \<notin> set v) (snd st)"
  shows "list_all (\<lambda>(k, v). person_name_allowed k \<and> NUL \<notin> set v) (fst (fold person_env_line ls st)) \<and>
    list_all (\<lambda>v. v \<noteq> [] \<and> NUL \<notin> set v) (snd (fold person_env_line ls st))"
  using assms
proof (induction ls arbitrary: st)
  case (Cons l ls)
  then show ?case
    using person_env_line_allowed [of st l] Cons.IH [of "person_env_line l st"] by simp
qed simp

text \<open>
  C24. Every variable the image's person environment sets is a well-formed name that is neither one
  of the identity's own names, nor withheld from a person, nor secret-looking, with the single
  exception of \<open>PATH\<close>, which is set at most once, last, and ends with the base path.
\<close>

theorem person_env_names:
  assumes "parse_person_env text base_path = Ok env"
  shows "\<exists>out path. env = out @ path \<and> list_all (\<lambda>(k, v). person_name_allowed k \<and> NUL \<notin> set v) out \<and>
    (path = [] \<or> (\<exists>v. path = [(''PATH'', v)] \<and>
       suffix ('':'' @ (case base_path of Some p \<Rightarrow> p | None \<Rightarrow> DEFAULT_PATH)) v))"
proof -
  obtain out prepend where f: "fold person_env_line (tl (lines text)) ([], []) = (out, prepend)"
    by fastforce
  then have "list_all (\<lambda>(k, v). person_name_allowed k \<and> NUL \<notin> set v) out"
    using person_env_fold_allowed [of "([], [])" "tl (lines text)"] by simp
  moreover have "env = out \<or> (\<exists>v. env = out @ [(''PATH'', v)] \<and>
      suffix ('':'' @ (case base_path of Some p \<Rightarrow> p | None \<Rightarrow> DEFAULT_PATH)) v)"
    using assms f by (auto simp: parse_person_env_def Let_def suffix_def split: if_splits)
  ultimately show ?thesis
    by (metis append_Nil2)
qed

theorem person_env_names_witness:
  "\<exists>env. parse_person_env (''# person-env 1'' @ [LF] @ ''LANG=C'' @ [LF] @ ''GH_TOKEN=x'' @ [LF] @ ''PATH_PREPEND=/opt/bin'')
      (Some ''/bin'') = Ok env \<and> env = [(''LANG'', ''C''), (''PATH'', ''/opt/bin:/bin'')] \<and>
    (\<exists>out path. env = out @ path \<and> list_all (\<lambda>(k, v). person_name_allowed k \<and> NUL \<notin> set v) out)"
proof -
  have run: "parse_person_env (''# person-env 1'' @ [LF] @ ''LANG=C'' @ [LF] @ ''GH_TOKEN=x'' @ [LF] @
      ''PATH_PREPEND=/opt/bin'') (Some ''/bin'') = Ok [(''LANG'', ''C''), (''PATH'', ''/opt/bin:/bin'')]"
    by code_simp
  show ?thesis
    using run person_env_names [OF run] by blast
qed

end
