(* ===== verification/Framing.thy ===== *)
theory Framing
  imports Sealant_Prelude
begin

text \<open>
  The contract of a self-delimiting byte codec, which the event log, the PTY journal and the
  control protocol each provide.

  A decoder takes the bytes that are left and yields an item with what follows it, the clean end of
  the stream, or damage. \<open>decode_all\<close> is the loop every reader runs. The locale \<open>framing\<close> asks that
  decoding inverts encoding whatever follows; \<open>torn_framing\<close> adds that a strict prefix of an
  encoding is reported as torn. Their lemmas are what a reader of a log relies on: the items come
  back in order, an encoding is uniquely decodable, and a torn tail costs the torn item alone.
\<close>

datatype ('r, 'e) decoded = Item 'r bytes | Finished | Damaged 'e

text \<open>The items, how the loop ended (no damage, or the damage) and the bytes left at that point.\<close>

function decode_all :: "(bytes \<Rightarrow> ('r, 'e) decoded) \<Rightarrow> bytes \<Rightarrow> 'r list \<times> 'e option \<times> bytes" where
  "decode_all dec bs =
     (case dec bs of
        Item r rest \<Rightarrow>
          if length rest < length bs then
            (let (rs, e, left) = decode_all dec rest in (r # rs, e, left))
          else ([r], None, rest)
      | Finished \<Rightarrow> ([], None, bs)
      | Damaged e \<Rightarrow> ([], Some e, bs))"
  by pat_completeness auto
termination
  by (relation "measure (\<lambda>(dec, bs). length bs)") auto

declare decode_all.simps [simp del]

locale framing =
  fixes wf :: "'r \<Rightarrow> bool" and enc :: "'r \<Rightarrow> bytes" and dec :: "bytes \<Rightarrow> ('r, 'e) decoded"
  assumes dec_enc: "wf r \<Longrightarrow> dec (enc r @ rest) = Item r rest"
    and enc_nonempty: "enc r \<noteq> []"
    and dec_nil: "dec [] = Finished"
begin

lemma decode_all_append:
  assumes "list_all wf rs"
  shows "decode_all dec (concat (map enc rs) @ rest) =
    (let (qs, e, left) = decode_all dec rest in (rs @ qs, e, left))"
  using assms
proof (induction rs)
  case Nil
  then show ?case
    by (simp add: case_prod_beta)
next
  case (Cons r rs)
  then have "dec (enc r @ (concat (map enc rs) @ rest)) = Item r (concat (map enc rs) @ rest)"
    by (intro dec_enc) simp
  with Cons enc_nonempty [of r] show ?case
    by (subst decode_all.simps) (simp add: Let_def case_prod_beta)
qed

lemma decode_all_nil [simp]: "decode_all dec [] = ([], None, [])"
  by (subst decode_all.simps) (simp add: dec_nil)

lemma decode_all_concat:
  "list_all wf rs \<Longrightarrow> decode_all dec (concat (map enc rs)) = (rs, None, [])"
  using decode_all_append [of rs "[]"] by simp

lemma enc_prefix_free:
  assumes "wf a" and "wf b" and "enc a @ x = enc b @ y"
  shows "a = b \<and> x = y"
proof -
  have "Item a x = (Item b y :: ('r, 'e) decoded)"
    unfolding dec_enc [OF assms(1), of x, symmetric] dec_enc [OF assms(2), of y, symmetric] assms(3) ..
  then show ?thesis
    by simp
qed

lemma concat_enc_inj:
  assumes "list_all wf rs" and "list_all wf qs" and "concat (map enc rs) = concat (map enc qs)"
  shows "rs = qs"
proof -
  have "fst (decode_all dec (concat (map enc rs))) = fst (decode_all dec (concat (map enc qs)))"
    by (simp only: assms(3))
  then show ?thesis
    by (simp only: decode_all_concat [OF assms(1)] decode_all_concat [OF assms(2)] fst_conv)
qed

end

locale torn_framing = framing wf enc dec
  for wf :: "'r \<Rightarrow> bool" and enc :: "'r \<Rightarrow> bytes" and dec :: "bytes \<Rightarrow> ('r, 'e) decoded" +
  fixes torn :: "'e \<Rightarrow> bool"
  assumes dec_torn: "wf r \<Longrightarrow> 0 < k \<Longrightarrow> k < length (enc r) \<Longrightarrow> \<exists>e. torn e \<and> dec (take k (enc r)) = Damaged e"
begin

lemma decode_all_torn:
  assumes "list_all wf rs" and "wf r" and "0 < k" and "k < length (enc r)"
  shows "\<exists>e. torn e \<and> decode_all dec (concat (map enc rs) @ take k (enc r)) = (rs, Some e, take k (enc r))"
proof -
  obtain e where e: "torn e" "dec (take k (enc r)) = Damaged e"
    using dec_torn assms(2-4) by blast
  then have "decode_all dec (take k (enc r)) = ([], Some e, take k (enc r))"
    by (subst decode_all.simps) simp
  with e(1) show ?thesis
    using decode_all_append [OF assms(1), of "take k (enc r)"] by simp
qed

lemma decode_all_cut:
  assumes "list_all wf (rs @ [r])" and "k \<le> length (enc r)"
  shows "fst (decode_all dec (concat (map enc rs) @ take k (enc r))) = (if k = length (enc r) then rs @ [r] else rs)"
proof -
  consider "k = 0" | "k = length (enc r)" | "0 < k" "k < length (enc r)"
    using assms(2) by linarith
  then show ?thesis
  proof cases
    case 1
    then show ?thesis
      using decode_all_concat [of rs] assms(1) enc_nonempty [of r] by simp
  next
    case 2
    then show ?thesis
      using decode_all_concat [of "rs @ [r]"] assms(1) by simp
  next
    case 3
    then show ?thesis
      using decode_all_torn [of rs r k] assms(1) by auto
  qed
qed

end

end
