(* ===== verification/Record_Codec.thy ===== *)
theory Record_Codec
  imports Framing
begin

text \<open>
  The on-disk record codec of the event log: \<open>crates/sealant-eventlog/src/record.rs\<close>.

  The checksum \<open>crc32fast\<close> is the parameter \<open>crc\<close>, the function from bytes to a 32-bit value that
  \<open>crc32fast::hash\<close> and a \<open>Hasher\<close> fed the same bytes in pieces both compute. A reader is the bytes
  that are left and, for a failing device, the number of bytes after which a read returns an I/O
  error. The codec is an instance of \<open>torn_framing\<close> for every checksum.
\<close>

definition MAGIC :: bytes where
  "MAGIC = ''SLD1''"

definition FORMAT_VERSION :: byte where
  "FORMAT_VERSION = CHR 0x01"

definition HEADER_LEN :: nat where
  "HEADER_LEN = 4 + 1 + 1 + 8 + 8 + 4"

definition CRC_LEN :: nat where
  "CRC_LEN = 4"

record log_record =
  rc_sequence :: u64
  rc_timestamp_micros :: u64
  rc_payload :: bytes

definition encoded_len :: "nat \<Rightarrow> nat" where
  "encoded_len payload_len = HEADER_LEN + payload_len + CRC_LEN"

datatype record_error = Truncated | BadMagic | CorruptChecksum | Oversized u32 u32 | RecIo

text \<open>\<open>encode_into\<close> appends to a buffer; the checksum covers what it appended.\<close>

definition record_header :: "u64 \<Rightarrow> u64 \<Rightarrow> u32 \<Rightarrow> bytes" where
  "record_header sequence timestamp_micros len =
     MAGIC @ [FORMAT_VERSION] @ [CHR 0x00] @ u64_to_be sequence @ u64_to_be timestamp_micros @ u32_to_be len"

definition encode_into :: "(bytes \<Rightarrow> u32) \<Rightarrow> bytes \<Rightarrow> u64 \<Rightarrow> u64 \<Rightarrow> bytes \<Rightarrow> bytes" where
  "encode_into crc out sequence timestamp_micros payload =
     (let body = record_header sequence timestamp_micros (word_of_nat (length payload)) @ payload
      in out @ body @ u32_to_be (crc body))"

definition encode :: "(bytes \<Rightarrow> u32) \<Rightarrow> u64 \<Rightarrow> u64 \<Rightarrow> bytes \<Rightarrow> bytes" where
  "encode crc sequence timestamp_micros payload = encode_into crc [] sequence timestamp_micros payload"

record reader =
  rd_data :: bytes
  rd_fail :: "nat option"

definition read_full :: "nat \<Rightarrow> reader \<Rightarrow> (record_error + bytes) \<times> reader" where
  "read_full n rd =
     (let len = length (rd_data rd);
          rd' = \<lparr>rd_data = drop n (rd_data rd), rd_fail = map_option (\<lambda>k. k - min n len) (rd_fail rd)\<rparr>
      in case rd_fail rd of
           Some k \<Rightarrow>
             if k < n \<and> k \<le> len then (Err RecIo, \<lparr>rd_data = drop k (rd_data rd), rd_fail = Some 0\<rparr>)
             else (Ok (take n (rd_data rd)), rd')
         | None \<Rightarrow> (Ok (take n (rd_data rd)), rd'))"

text \<open>\<open>read_record\<close> in its three reads: the checksum, the payload, the header.\<close>

definition read_trailer ::
  "(bytes \<Rightarrow> u32) \<Rightarrow> bytes \<Rightarrow> bytes \<Rightarrow> reader \<Rightarrow> (record_error + log_record option) \<times> reader" where
  "read_trailer crc header payload rd =
     (case read_full CRC_LEN rd of
        (Err e, rd3) \<Rightarrow> (Err e, rd3)
      | (Ok crc_buf, rd3) \<Rightarrow>
          if length crc_buf < CRC_LEN then (Err Truncated, rd3)
          else if crc (header @ payload) \<noteq> u32_from_be crc_buf then (Err CorruptChecksum, rd3)
          else (Ok (Some \<lparr>rc_sequence = u64_from_be (take 8 (drop 6 header)),
                         rc_timestamp_micros = u64_from_be (take 8 (drop 14 header)),
                         rc_payload = payload\<rparr>), rd3))"

definition read_body ::
  "(bytes \<Rightarrow> u32) \<Rightarrow> u32 \<Rightarrow> bytes \<Rightarrow> reader \<Rightarrow> (record_error + log_record option) \<times> reader" where
  "read_body crc max_payload_bytes header rd =
     (let payload_len = u32_from_be (take 4 (drop 22 header))
      in if max_payload_bytes < payload_len then (Err (Oversized payload_len max_payload_bytes), rd)
         else case read_full (unat payload_len) rd of
           (Err e, rd2) \<Rightarrow> (Err e, rd2)
         | (Ok payload, rd2) \<Rightarrow>
             if length payload < unat payload_len then (Err Truncated, rd2)
             else read_trailer crc header payload rd2)"

definition read_record ::
  "(bytes \<Rightarrow> u32) \<Rightarrow> u32 \<Rightarrow> reader \<Rightarrow> (record_error + log_record option) \<times> reader" where
  "read_record crc max_payload_bytes rd =
     (case read_full HEADER_LEN rd of
        (Err e, rd1) \<Rightarrow> (Err e, rd1)
      | (Ok header, rd1) \<Rightarrow>
          if length header = 0 then (Ok None, rd1)
          else if length header < HEADER_LEN then (Err Truncated, rd1)
          else if take 4 header \<noteq> MAGIC then (Err BadMagic, rd1)
          else read_body crc max_payload_bytes header rd1)"

section \<open>The codec as a framing\<close>

definition rec_bytes :: "(bytes \<Rightarrow> u32) \<Rightarrow> log_record \<Rightarrow> bytes" where
  "rec_bytes crc r = encode crc (rc_sequence r) (rc_timestamp_micros r) (rc_payload r)"

text \<open>A record a spool with this bound stores: its length fits the length field and the bound.\<close>

definition rec_ok :: "u32 \<Rightarrow> log_record \<Rightarrow> bool" where
  "rec_ok max_payload_bytes r \<longleftrightarrow> length (rc_payload r) \<le> unat max_payload_bytes"

definition rec_decode :: "(bytes \<Rightarrow> u32) \<Rightarrow> u32 \<Rightarrow> bytes \<Rightarrow> (log_record, record_error) decoded" where
  "rec_decode crc max_payload_bytes bs =
     (case read_record crc max_payload_bytes \<lparr>rd_data = bs, rd_fail = None\<rparr> of
        (Ok (Some r), rd) \<Rightarrow> Item r (rd_data rd)
      | (Ok None, rd) \<Rightarrow> Finished
      | (Err e, rd) \<Rightarrow> Damaged e)"

lemma length_record_header [simp]: "length (record_header s t len) = HEADER_LEN"
  by (simp add: record_header_def MAGIC_def HEADER_LEN_def codec_simps)

lemma length_rec_bytes: "length (rec_bytes crc r) = encoded_len (length (rc_payload r))"
  by (simp add: rec_bytes_def encode_def encode_into_def encoded_len_def CRC_LEN_def Let_def codec_simps)

lemma record_header_fields:
  "take 4 (record_header s t len) = MAGIC" "u64_from_be (take 8 (drop 6 (record_header s t len))) = s"
  "u64_from_be (take 8 (drop 14 (record_header s t len))) = t"
  "u32_from_be (take 4 (drop 22 (record_header s t len))) = len"
  by (simp_all add: record_header_def MAGIC_def codec_simps)

lemma read_full_plain [simp]:
  "read_full n \<lparr>rd_data = bs, rd_fail = None\<rparr> = (Ok (take n bs), \<lparr>rd_data = drop n bs, rd_fail = None\<rparr>)"
  by (simp add: read_full_def Let_def)

lemma rec_ok_length:
  assumes "rec_ok mx r"
  shows "unat (word_of_nat (length (rc_payload r)) :: u32) = length (rc_payload r)"
    and "\<not> mx < word_of_nat (length (rc_payload r))"
proof -
  have le: "length (rc_payload r) \<le> unat mx"
    using assms by (simp add: rec_ok_def)
  then have "length (rc_payload r) < 2 ^ 32"
    using unsigned_less [of mx, where ?'a = nat] by simp
  then show u: "unat (word_of_nat (length (rc_payload r)) :: u32) = length (rc_payload r)"
    by (simp add: unsigned_of_nat take_bit_nat_eq_self)
  with le show "\<not> mx < word_of_nat (length (rc_payload r))"
    by (simp add: word_less_nat_alt)
qed

lemma rec_bytes_split:
  "rec_bytes crc r =
     (let h = record_header (rc_sequence r) (rc_timestamp_micros r) (word_of_nat (length (rc_payload r)))
      in h @ rc_payload r @ u32_to_be (crc (h @ rc_payload r)))"
  by (simp add: rec_bytes_def encode_def encode_into_def Let_def)

text \<open>What \<open>read_record\<close> does once it has the header of \<open>r\<close>: the payload, the checksum, the verdict.\<close>

lemma read_record_after_header:
  assumes ok: "rec_ok mx r"
    and h: "h = record_header (rc_sequence r) (rc_timestamp_micros r) (word_of_nat (length (rc_payload r)))"
  shows "read_record crc mx \<lparr>rd_data = h @ bs, rd_fail = None\<rparr> =
    (let p = take (length (rc_payload r)) bs;
         rest = drop (length (rc_payload r)) bs
     in if length p < length (rc_payload r) then (Err Truncated, \<lparr>rd_data = rest, rd_fail = None\<rparr>)
        else if length rest < CRC_LEN then (Err Truncated, \<lparr>rd_data = drop CRC_LEN rest, rd_fail = None\<rparr>)
        else if crc (h @ p) \<noteq> u32_from_be (take CRC_LEN rest)
        then (Err CorruptChecksum, \<lparr>rd_data = drop CRC_LEN rest, rd_fail = None\<rparr>)
        else (Ok (Some \<lparr>rc_sequence = rc_sequence r, rc_timestamp_micros = rc_timestamp_micros r,
                        rc_payload = p\<rparr>), \<lparr>rd_data = drop CRC_LEN rest, rd_fail = None\<rparr>))"
proof -
  have len: "length h = HEADER_LEN"
    by (simp add: h)
  then have hd: "take HEADER_LEN (h @ bs) = h" "drop HEADER_LEN (h @ bs) = bs"
    by simp_all
  have ne: "h \<noteq> []" "0 < HEADER_LEN"
    using len by (auto simp: HEADER_LEN_def)
  show ?thesis
    unfolding read_record_def read_body_def read_trailer_def read_full_plain hd Let_def prod.case sum.case
    using len ne by (simp add: h record_header_fields rec_ok_length [OF ok] CRC_LEN_def)
qed

lemma read_record_enc:
  assumes "rec_ok mx r"
  shows "read_record crc mx \<lparr>rd_data = rec_bytes crc r @ rest, rd_fail = None\<rparr> =
    (Ok (Some r), \<lparr>rd_data = rest, rd_fail = None\<rparr>)"
  unfolding rec_bytes_split Let_def append_assoc
  by (subst read_record_after_header [OF assms refl]) (simp add: CRC_LEN_def codec_simps)

lemma rec_decode_enc: "rec_ok mx r \<Longrightarrow> rec_decode crc mx (rec_bytes crc r @ rest) = Item r rest"
  by (simp add: rec_decode_def read_record_enc)

lemma read_record_short_header:
  assumes "0 < length bs" and "length bs < HEADER_LEN"
  shows "read_record crc mx \<lparr>rd_data = bs, rd_fail = None\<rparr> = (Err Truncated, \<lparr>rd_data = [], rd_fail = None\<rparr>)"
  using assms by (simp add: read_record_def)

lemma rec_decode_torn:
  assumes ok: "rec_ok mx r" and k: "0 < k" "k < length (rec_bytes crc r)"
  shows "rec_decode crc mx (take k (rec_bytes crc r)) = Damaged Truncated"
proof -
  define h where "h = record_header (rc_sequence r) (rc_timestamp_micros r) (word_of_nat (length (rc_payload r)))"
  define t where "t = rc_payload r @ u32_to_be (crc (h @ rc_payload r))"
  have bytes: "rec_bytes crc r = h @ t"
    by (simp add: rec_bytes_split h_def t_def Let_def)
  have len: "length h = HEADER_LEN" "length t = length (rc_payload r) + CRC_LEN"
    by (simp_all add: h_def t_def CRC_LEN_def codec_simps)
  show ?thesis
  proof (cases "k < HEADER_LEN")
    case True
    then have "take k (rec_bytes crc r) = take k h"
      by (simp add: bytes len)
    then show ?thesis
      using k True len read_record_short_header [of "take k h" crc mx] by (simp add: rec_decode_def)
  next
    case False
    then have "take k (rec_bytes crc r) = h @ take (k - HEADER_LEN) t"
      by (simp add: bytes len)
    moreover have "k - HEADER_LEN < length (rc_payload r) + CRC_LEN"
      using k False by (simp add: bytes len)
    ultimately show ?thesis
      unfolding rec_decode_def
      by (simp only: read_record_after_header [OF ok h_def]) (auto simp: len Let_def CRC_LEN_def)
  qed
qed

interpretation log_codec: torn_framing "rec_ok mx" "rec_bytes crc" "rec_decode crc mx" "\<lambda>e. e = Truncated"
  for crc :: "bytes \<Rightarrow> u32" and mx :: u32
proof unfold_locales
  show "rec_bytes crc r \<noteq> []" for r
    using length_rec_bytes [of crc r] by (auto simp: encoded_len_def CRC_LEN_def)
  show "rec_decode crc mx [] = Finished"
    by (simp add: rec_decode_def read_record_def)
qed (simp_all add: rec_decode_enc rec_decode_torn)

text \<open>
  A read that does not end in an I/O error is the read a device without failures does: the same
  result, the same bytes left.
\<close>

definition reads_like :: "(record_error + 'a) \<times> reader \<Rightarrow> (record_error + 'a) \<times> reader \<Rightarrow> bool" where
  "reads_like x y \<longleftrightarrow> fst x = Err RecIo \<or> fst x = fst y \<and> rd_data (snd x) = rd_data (snd y)"

lemma read_full_cases:
  obtains (failed) rd' where "read_full n rd = (Err RecIo, rd')"
  | (read) rd' where "read_full n rd = (Ok (take n (rd_data rd)), rd')" "rd_data rd' = drop n (rd_data rd)"
proof (cases "\<exists>k. rd_fail rd = Some k \<and> k < n \<and> k \<le> length (rd_data rd)")
  case True
  then obtain k where "rd_fail rd = Some k" "k < n" "k \<le> length (rd_data rd)"
    by blast
  then show ?thesis
    by (intro failed) (simp add: read_full_def Let_def)
next
  case False
  then show ?thesis
    by (intro read [of "snd (read_full n rd)"]) (auto simp: read_full_def Let_def split: option.splits)
qed

lemma read_trailer_like:
  "reads_like (read_trailer crc h p rd) (read_trailer crc h p \<lparr>rd_data = rd_data rd, rd_fail = None\<rparr>)"
  by (rule read_full_cases [of CRC_LEN rd]) (simp_all add: reads_like_def read_trailer_def)

lemma read_body_like:
  "reads_like (read_body crc mx h rd) (read_body crc mx h \<lparr>rd_data = rd_data rd, rd_fail = None\<rparr>)"
proof (rule read_full_cases [of "unat (u32_from_be (take 4 (drop 22 h)))" rd])
  fix rd'
  assume "read_full (unat (u32_from_be (take 4 (drop 22 h)))) rd = (Err RecIo, rd')"
  then show ?thesis
    by (simp add: reads_like_def read_body_def Let_def)
next
  fix rd'
  assume "read_full (unat (u32_from_be (take 4 (drop 22 h)))) rd =
      (Ok (take (unat (u32_from_be (take 4 (drop 22 h)))) (rd_data rd)), rd')"
    and "rd_data rd' = drop (unat (u32_from_be (take 4 (drop 22 h)))) (rd_data rd)"
  then show ?thesis
    using read_trailer_like [of crc h "take (unat (u32_from_be (take 4 (drop 22 h)))) (rd_data rd)" rd']
    by (simp add: read_body_def Let_def reads_like_def)
qed

lemma read_record_like:
  "reads_like (read_record crc mx rd) (read_record crc mx \<lparr>rd_data = rd_data rd, rd_fail = None\<rparr>)"
proof (rule read_full_cases [of HEADER_LEN rd])
  fix rd'
  assume "read_full HEADER_LEN rd = (Ok (take HEADER_LEN (rd_data rd)), rd')"
    and "rd_data rd' = drop HEADER_LEN (rd_data rd)"
  then show ?thesis
    using read_body_like [of crc mx "take HEADER_LEN (rd_data rd)" rd']
    by (simp add: read_record_def reads_like_def)
qed (simp add: reads_like_def read_record_def)

lemma read_body_suffix: "suffix (rd_data (snd (read_body crc mx h \<lparr>rd_data = bs, rd_fail = None\<rparr>))) bs"
  unfolding read_body_def read_trailer_def read_full_plain prod.case sum.case Let_def
  by (simp add: suffix_drop)

lemma read_record_shorter:
  assumes "read_record crc mx rd = (Ok (Some r), rd')"
  shows "length (rd_data rd') < length (rd_data rd)"
proof -
  let ?rd = "\<lparr>rd_data = rd_data rd, rd_fail = None\<rparr>" and ?h = "take HEADER_LEN (rd_data rd)"
  have rr: "fst (read_record crc mx ?rd) = Ok (Some r)" "rd_data (snd (read_record crc mx ?rd)) = rd_data rd'"
    using read_record_like [of crc mx rd] assms by (simp_all add: reads_like_def)
  then have "rd_data rd \<noteq> []"
    and "read_record crc mx ?rd = read_body crc mx ?h \<lparr>rd_data = drop HEADER_LEN (rd_data rd), rd_fail = None\<rparr>"
    by (auto simp: read_record_def split: if_splits)
  then show ?thesis
    using rr(2) suffix_length_le [OF read_body_suffix [of crc mx ?h "drop HEADER_LEN (rd_data rd)"]]
    by (cases "rd_data rd") (simp_all add: HEADER_LEN_def)
qed

lemma read_record_plain: "rd_fail rd = None \<Longrightarrow> rd_fail (snd (read_record crc mx rd)) = None"
proof -
  assume "rd_fail rd = None"
  then obtain bs where rd: "rd = \<lparr>rd_data = bs, rd_fail = None\<rparr>"
    by (cases rd) simp
  show ?thesis
    unfolding rd read_record_def read_body_def read_trailer_def read_full_plain prod.case sum.case Let_def
    by (simp only: if_distrib [of "\<lambda>p. rd_fail (snd p)"] snd_conv reader.simps if_cancel)
qed

section \<open>Properties\<close>

text \<open>
  C18. A record written by \<open>encode\<close> is read back whole by \<open>read_record\<close> whatever bytes follow it,
  which stay unread, for every checksum function and every payload within the reader's bound.
\<close>

theorem record_roundtrip:
  assumes "length payload \<le> unat max_payload_bytes"
  shows "read_record crc max_payload_bytes
      \<lparr>rd_data = encode crc sequence timestamp payload @ rest, rd_fail = None\<rparr> =
    (Ok (Some \<lparr>rc_sequence = sequence, rc_timestamp_micros = timestamp, rc_payload = payload\<rparr>),
     \<lparr>rd_data = rest, rd_fail = None\<rparr>)"
  using read_record_enc [of max_payload_bytes
      "\<lparr>rc_sequence = sequence, rc_timestamp_micros = timestamp, rc_payload = payload\<rparr>" crc rest] assms
  by (simp add: rec_ok_def rec_bytes_def)

theorem record_roundtrip_witness:
  "read_record (\<lambda>bs. word_of_nat (length bs)) 64
      \<lparr>rd_data = encode (\<lambda>bs. word_of_nat (length bs)) 7 9 ''hi'' @ ''rest'', rd_fail = None\<rparr> =
    (Ok (Some \<lparr>rc_sequence = 7, rc_timestamp_micros = 9, rc_payload = ''hi''\<rparr>),
     \<lparr>rd_data = ''rest'', rd_fail = None\<rparr>)"
  by (rule record_roundtrip) simp

text \<open>
  C19. A record cut short by a crash at any byte is read as truncated, never as a record and never as
  the end of the log; and the records before it are all read.
\<close>

theorem record_cut_short:
  assumes "list_all (rec_ok mx) rs" and "rec_ok mx r" and "0 < k" and "k < length (rec_bytes crc r)"
  shows "decode_all (rec_decode crc mx) (concat (map (rec_bytes crc) rs) @ take k (rec_bytes crc r)) =
    (rs, Some Truncated, take k (rec_bytes crc r))"
  using log_codec.decode_all_torn [OF assms] by auto

theorem record_cut_short_witness:
  "decode_all (rec_decode (\<lambda>bs. 0) 64)
      (concat (map (rec_bytes (\<lambda>bs. 0)) [\<lparr>rc_sequence = 1, rc_timestamp_micros = 2, rc_payload = ''a''\<rparr>]) @
       take 5 (rec_bytes (\<lambda>bs. 0) \<lparr>rc_sequence = 2, rc_timestamp_micros = 2, rc_payload = ''b''\<rparr>)) =
    ([\<lparr>rc_sequence = 1, rc_timestamp_micros = 2, rc_payload = ''a''\<rparr>], Some Truncated,
     take 5 (rec_bytes (\<lambda>bs. 0) \<lparr>rc_sequence = 2, rc_timestamp_micros = 2, rc_payload = ''b''\<rparr>))"
  by (rule record_cut_short)
    (simp_all add: rec_ok_def length_rec_bytes encoded_len_def HEADER_LEN_def)

end
