(* ===== verification/Disk_Model.thy ===== *)
theory Disk_Model
  imports Record_Codec "HOL-Library.AList"
begin

text \<open>
  One directory of a file system, as the event log, the PTY journal and the boot count use it: names
  point to inodes and inodes hold bytes, so that an open handle (an inode) keeps referring to its file
  when the name is renamed over or removed.

  Every call can fail. \<open>dk_faults\<close> holds the outcomes of the calls to come, consumed one per call:
  \<open>None\<close> is success, \<open>Some k\<close> an I/O error, after \<open>k\<close> bytes for a call that moves data; past its
  end every call succeeds. A theorem about all disks is therefore about every pattern of failures.
\<close>

datatype io_error = NotFound | AlreadyExists | InvalidData | Eio

record disk =
  dk_dir :: "(string \<times> nat) list"
  dk_data :: "nat \<Rightarrow> bytes"
  dk_next :: nat
  dk_faults :: "nat option list"

definition io_call :: "disk \<Rightarrow> nat option \<times> disk" where
  "io_call d = (case dk_faults d of [] \<Rightarrow> (None, d) | f # fs \<Rightarrow> (f, d\<lparr>dk_faults := fs\<rparr>))"

definition dk_lookup :: "disk \<Rightarrow> string \<Rightarrow> nat option" where
  "dk_lookup d name = map_of (dk_dir d) name"

text \<open>A call with no effect but its outcome: a sync, a stat, a \<open>dup\<close>, making a directory.\<close>

definition plain_call :: "disk \<Rightarrow> (io_error + unit) \<times> disk" where
  "plain_call d = (case io_call d of (Some _, d1) \<Rightarrow> (Err Eio, d1) | (None, d1) \<Rightarrow> (Ok (), d1))"

definition read_dir :: "disk \<Rightarrow> (io_error + string list) \<times> disk" where
  "read_dir d =
     (case io_call d of (Some _, d1) \<Rightarrow> (Err Eio, d1) | (None, d1) \<Rightarrow> (Ok (map fst (dk_dir d1)), d1))"

definition open_existing :: "string \<Rightarrow> disk \<Rightarrow> (io_error + nat) \<times> disk" where
  "open_existing name d =
     (case io_call d of
        (Some _, d1) \<Rightarrow> (Err Eio, d1)
      | (None, d1) \<Rightarrow>
          (case dk_lookup d1 name of None \<Rightarrow> (Err NotFound, d1) | Some ino \<Rightarrow> (Ok ino, d1)))"

definition fresh_file :: "string \<Rightarrow> disk \<Rightarrow> nat \<times> disk" where
  "fresh_file name d =
     (dk_next d,
      d\<lparr>dk_dir := AList.update name (dk_next d) (dk_dir d), dk_data := (dk_data d)(dk_next d := []),
        dk_next := Suc (dk_next d)\<rparr>)"

text \<open>\<open>create(true)\<close>: the file there, or a new one; \<open>create_new(true)\<close>: only a new one.\<close>

definition open_create :: "string \<Rightarrow> disk \<Rightarrow> (io_error + nat) \<times> disk" where
  "open_create name d =
     (case io_call d of
        (Some _, d1) \<Rightarrow> (Err Eio, d1)
      | (None, d1) \<Rightarrow>
          (case dk_lookup d1 name of
             Some ino \<Rightarrow> (Ok ino, d1)
           | None \<Rightarrow> (let (ino, d2) = fresh_file name d1 in (Ok ino, d2))))"

definition open_new :: "string \<Rightarrow> disk \<Rightarrow> (io_error + nat) \<times> disk" where
  "open_new name d =
     (case io_call d of
        (Some _, d1) \<Rightarrow> (Err Eio, d1)
      | (None, d1) \<Rightarrow>
          (case dk_lookup d1 name of
             Some ino \<Rightarrow> (Err AlreadyExists, d1)
           | None \<Rightarrow> (let (ino, d2) = fresh_file name d1 in (Ok ino, d2))))"

text \<open>\<open>create(true).truncate(true)\<close>: the file there, emptied, or a new one.\<close>

definition open_truncate :: "string \<Rightarrow> disk \<Rightarrow> (io_error + nat) \<times> disk" where
  "open_truncate name d =
     (case open_create name d of
        (Err e, d1) \<Rightarrow> (Err e, d1)
      | (Ok ino, d1) \<Rightarrow> (Ok ino, d1\<lparr>dk_data := (dk_data d1)(ino := [])\<rparr>))"

text \<open>A buffered reader over an open file, which fails after the bytes the next outcome allows.\<close>

definition file_reader :: "nat \<Rightarrow> disk \<Rightarrow> reader \<times> disk" where
  "file_reader ino d = (case io_call d of (f, d1) \<Rightarrow> (\<lparr>rd_data = dk_data d1 ino, rd_fail = f\<rparr>, d1))"

text \<open>\<open>write_all\<close> at the end of the file: a failure leaves the bytes written before it.\<close>

definition append_all :: "nat \<Rightarrow> bytes \<Rightarrow> disk \<Rightarrow> (io_error + unit) \<times> disk" where
  "append_all ino bs d =
     (case io_call d of
        (Some k, d1) \<Rightarrow> (Err Eio, d1\<lparr>dk_data := (dk_data d1)(ino := dk_data d1 ino @ take k bs)\<rparr>)
      | (None, d1) \<Rightarrow> (Ok (), d1\<lparr>dk_data := (dk_data d1)(ino := dk_data d1 ino @ bs)\<rparr>))"

definition set_len :: "nat \<Rightarrow> nat \<Rightarrow> disk \<Rightarrow> (io_error + unit) \<times> disk" where
  "set_len ino n d =
     (case io_call d of
        (Some _, d1) \<Rightarrow> (Err Eio, d1)
      | (None, d1) \<Rightarrow> (Ok (), d1\<lparr>dk_data := (dk_data d1)(ino := take n (dk_data d1 ino))\<rparr>))"

definition remove_file :: "string \<Rightarrow> disk \<Rightarrow> (io_error + unit) \<times> disk" where
  "remove_file name d =
     (case io_call d of
        (Some _, d1) \<Rightarrow> (Err Eio, d1)
      | (None, d1) \<Rightarrow>
          (case dk_lookup d1 name of
             None \<Rightarrow> (Err NotFound, d1)
           | Some _ \<Rightarrow> (Ok (), d1\<lparr>dk_dir := AList.delete name (dk_dir d1)\<rparr>)))"

definition rename_file :: "string \<Rightarrow> string \<Rightarrow> disk \<Rightarrow> (io_error + unit) \<times> disk" where
  "rename_file from to d =
     (case io_call d of
        (Some _, d1) \<Rightarrow> (Err Eio, d1)
      | (None, d1) \<Rightarrow>
          (case dk_lookup d1 from of
             None \<Rightarrow> (Err NotFound, d1)
           | Some ino \<Rightarrow> (Ok (), d1\<lparr>dk_dir := AList.update to ino (AList.delete from (dk_dir d1))\<rparr>)))"

text \<open>Every name has its own file, made before now: no hard links.\<close>

definition disk_ok :: "disk \<Rightarrow> bool" where
  "disk_ok d \<longleftrightarrow>
     distinct (map fst (dk_dir d)) \<and> distinct (map snd (dk_dir d)) \<and>
     (\<forall>ino \<in> snd ` set (dk_dir d). ino < dk_next d)"

lemmas disk_call_defs =
  plain_call_def read_dir_def open_existing_def open_create_def open_new_def fresh_file_def
  file_reader_def append_all_def set_len_def remove_file_def rename_file_def

lemma io_call_no_faults [simp]: "dk_faults d = [] \<Longrightarrow> io_call d = (None, d)"
  by (simp add: io_call_def)

lemma io_call_frame:
  "io_call d = (f, d1) \<Longrightarrow> dk_dir d1 = dk_dir d \<and> dk_data d1 = dk_data d \<and> dk_next d1 = dk_next d"
  by (auto simp: io_call_def split: list.splits)

lemma dk_lookup_inj:
  assumes "disk_ok d" and "dk_lookup d a = Some ino" and "dk_lookup d b = Some ino"
  shows "a = b"
proof -
  have "(a, ino) \<in> set (dk_dir d)" "(b, ino) \<in> set (dk_dir d)"
    using assms(2,3) by (auto simp: dk_lookup_def dest: map_of_SomeD)
  with assms(1) show ?thesis
    by (fastforce simp: disk_ok_def distinct_map inj_on_def)
qed

lemma dk_lookup_fresh: "disk_ok d \<Longrightarrow> dk_lookup d a = Some ino \<Longrightarrow> ino < dk_next d"
  by (force simp: disk_ok_def dk_lookup_def dest: map_of_SomeD)

lemma dk_lookup_frame [simp]:
  "dk_lookup (d\<lparr>dk_data := x\<rparr>) = dk_lookup d" "dk_lookup (d\<lparr>dk_faults := fs\<rparr>) = dk_lookup d"
  by (simp_all add: dk_lookup_def fun_eq_iff)

lemma disk_ok_frame [simp]:
  "disk_ok (d\<lparr>dk_data := x\<rparr>) = disk_ok d" "disk_ok (d\<lparr>dk_faults := fs\<rparr>) = disk_ok d"
  by (simp_all add: disk_ok_def)

lemma dk_lookup_delete [simp]:
  "dk_lookup (d\<lparr>dk_dir := AList.delete n (dk_dir d)\<rparr>) m = (if m = n then None else dk_lookup d m)"
  by (simp add: dk_lookup_def AList.delete_conv')

lemma disk_ok_delete: "disk_ok d \<Longrightarrow> disk_ok (d\<lparr>dk_dir := AList.delete n (dk_dir d)\<rparr>)"
  by (auto simp: disk_ok_def AList.distinct_delete AList.delete_eq distinct_map_filter dest!: subsetD)

lemma remove_file_ok:
  "dk_faults d = [] \<Longrightarrow> dk_lookup d n \<noteq> None \<Longrightarrow>
   remove_file n d = (Ok (), d\<lparr>dk_dir := AList.delete n (dk_dir d)\<rparr>)"
  by (auto simp: remove_file_def)

lemma snd_update: "snd ` set (AList.update k v xs) \<subseteq> insert v (snd ` set xs)"
  by (induction xs) auto

lemma distinct_snd_update:
  "distinct (map snd xs) \<Longrightarrow> v \<notin> snd ` set xs \<Longrightarrow> distinct (map snd (AList.update k v xs))"
proof (induction xs)
  case (Cons x xs)
  then show ?case
    using snd_update [of k v xs] by auto
qed simp

lemma disk_ok_update:
  assumes "disk_ok d" and "ino \<notin> snd ` set (dk_dir d)" and "ino < n" and "dk_next d \<le> n"
  shows "disk_ok (d\<lparr>dk_dir := AList.update name ino (dk_dir d), dk_data := data, dk_next := n\<rparr>)"
  using assms snd_update [of name ino "dk_dir d"]
  by (fastforce simp: disk_ok_def AList.distinct_update distinct_snd_update)

lemma fresh_not_used: "disk_ok d \<Longrightarrow> dk_next d \<notin> snd ` set (dk_dir d)"
  by (auto simp: disk_ok_def)

lemma open_create_new:
  assumes "disk_ok d" and "dk_faults d = []" and "dk_lookup d n = None"
  shows "\<exists>d'. open_create n d = (Ok (dk_next d), d') \<and> disk_ok d' \<and> dk_faults d' = [] \<and>
    dk_lookup d' = (dk_lookup d)(n \<mapsto> dk_next d) \<and> dk_data d' = (dk_data d)(dk_next d := [])"
  using assms disk_ok_update [OF assms(1) fresh_not_used [OF assms(1)], where n = "Suc (dk_next d)" and
      name = n and data = "(dk_data d)(dk_next d := [])"]
  by (auto simp: open_create_def fresh_file_def dk_lookup_def AList.update_conv')

lemma open_truncate_ok:
  assumes "disk_ok d" and "dk_faults d = []"
  shows "\<exists>ino d'. open_truncate n d = (Ok ino, d') \<and> disk_ok d' \<and> dk_faults d' = [] \<and>
    dk_lookup d' = (dk_lookup d)(n \<mapsto> ino) \<and> dk_data d' = (dk_data d)(ino := [])"
proof (cases "dk_lookup d n")
  case None
  with open_create_new [OF assms None] show ?thesis
    by (auto simp: open_truncate_def)
next
  case (Some ino)
  with assms show ?thesis
    by (auto simp: open_truncate_def open_create_def map_upd_triv)
qed

lemma rename_staged:
  assumes "disk_ok d" and "rename_file n m d = (Ok (), d')" and "dk_lookup d n = Some ino" and "n \<noteq> m"
  shows "disk_ok d'" and "dk_lookup d' = (dk_lookup d)(n := None, m := Some ino)" and "dk_data d' = dk_data d"
proof -
  obtain f d0 where io: "io_call d = (f, d0)"
    by fastforce
  note fr = io_call_frame [OF io]
  have f: "f = None"
    using assms(2) io by (auto simp: rename_file_def split: option.splits)
  have look: "dk_lookup d0 n = Some ino"
    using assms(3) fr by (simp add: dk_lookup_def)
  let ?del = "d0\<lparr>dk_dir := AList.delete n (dk_dir d0)\<rparr>"
  have d': "d' = d0\<lparr>dk_dir := AList.update m ino (AList.delete n (dk_dir d0))\<rparr>"
    using assms(2) io f look by (auto simp: rename_file_def)
  have ok0: "disk_ok d0"
    using assms(1) fr by (simp add: disk_ok_def)
  have "(n, ino) \<in> set (dk_dir d0)"
    using look by (auto simp: dk_lookup_def dest: map_of_SomeD)
  then have "ino \<notin> snd ` set (AList.delete n (dk_dir d0))" "ino < dk_next d0"
    using ok0 by (fastforce simp: disk_ok_def AList.delete_eq distinct_map inj_on_def)+
  then show "disk_ok d'"
    using disk_ok_update [OF disk_ok_delete [OF ok0, of n], where ino = ino and n = "dk_next d0" and name = m
        and data = "dk_data d0"]
    by (simp add: d')
  show "dk_lookup d' = (dk_lookup d)(n := None, m := Some ino)" "dk_data d' = dk_data d"
    using fr by (auto simp: d' dk_lookup_def AList.update_conv' AList.delete_conv' fun_eq_iff)
qed

end
