(* ===== verification/Spool.thy ===== *)
theory Spool
  imports Disk_Model Rust_Str
begin

text \<open>
  The durable spool of the event log: \<open>crates/sealant-eventlog/src/spool.rs\<close>, over the directory of
  theory \<open>Disk_Model\<close>. Each operation takes and returns the spool and the disk; an error returns the
  state the operation had reached.

  A segment's append handle is the inode it writes to, so that \<open>rewrite\<close>, which renames a new file
  over the segment, is modelled with what a stale handle would do.
\<close>

datatype fsync_policy = FsyncAlways | FsyncNever

record spool_config =
  sc_segment_bytes :: nat
  sc_disk_limit_bytes :: nat
  sc_max_payload_bytes :: u32
  sc_fsync :: fsync_policy

record replay_stats =
  rs_records :: nat
  rs_corrupt_segments :: nat
  rs_truncated_tail :: bool

datatype spool_error =
    PayloadTooLarge u32 u32
  | RecordExceedsDiskLimit nat nat
  | SpoolIo io_error

record segment =
  sg_index :: nat
  sg_path :: string
  sg_max_sequence :: u64
  sg_records :: nat
  sg_bytes :: nat

record spool =
  sp_config :: spool_config
  sp_segments :: "segment list"
  sp_active :: "nat option"
  sp_next_index :: nat
  sp_total_bytes :: nat
  sp_corrupt_segments :: nat
  sp_truncated_tail :: bool
  sp_dir_sync_pending :: bool

section \<open>Names\<close>

definition segment_name :: "nat \<Rightarrow> string" where
  "segment_name i = ''seg-'' @ padded_decimal 20 i @ ''.log''"

definition parse_segment_index :: "string \<Rightarrow> nat option" where
  "parse_segment_index name =
     (case strip_prefix ''seg-'' name of
        None \<Rightarrow> None
      | Some a \<Rightarrow> (case strip_suffix ''.log'' a of None \<Rightarrow> None | Some b \<Rightarrow> parse_u64 b))"

definition REWRITE_SUFFIX :: string where
  "REWRITE_SUFFIX = ''.rewrite''"

definition is_stale_rewrite :: "string \<Rightarrow> bool" where
  "is_stale_rewrite name \<longleftrightarrow>
     (case strip_suffix REWRITE_SUFFIX name of None \<Rightarrow> False | Some seg \<Rightarrow> parse_segment_index seg \<noteq> None)"

section \<open>Reading a segment\<close>

text \<open>The loop over \<open>read_record\<close>: the records, and the error it stopped at, if any.\<close>

function read_records :: "(bytes \<Rightarrow> u32) \<Rightarrow> u32 \<Rightarrow> reader \<Rightarrow> log_record list \<times> record_error option" where
  "read_records crc mx rd =
     (case read_record crc mx rd of
        (Ok (Some r), rd') \<Rightarrow> (let (rs, e) = read_records crc mx rd' in (r # rs, e))
      | (Ok None, rd') \<Rightarrow> ([], None)
      | (Err e, rd') \<Rightarrow> ([], Some e))"
  by pat_completeness auto
termination
  by (relation "measure (\<lambda>(crc, mx, rd). length (rd_data rd))") (auto dest!: read_record_shorter [OF sym])

declare read_records.simps [simp del]

definition read_segment :: "(bytes \<Rightarrow> u32) \<Rightarrow> u32 \<Rightarrow> reader \<Rightarrow> io_error + log_record list" where
  "read_segment crc mx rd =
     (case read_records crc mx rd of
        (rs, None) \<Rightarrow> Ok rs
      | (rs, Some RecIo) \<Rightarrow> Err Eio
      | (rs, Some damaged) \<Rightarrow> Err InvalidData)"

record scan_result =
  sr_max_sequence :: u64
  sr_records :: nat
  sr_valid_bytes :: nat
  sr_corrupt :: bool
  sr_truncated :: bool

definition rec_size :: "log_record \<Rightarrow> nat" where
  "rec_size r = encoded_len (length (rc_payload r))"

definition scan_of :: "log_record list \<Rightarrow> record_error option \<Rightarrow> scan_result" where
  "scan_of rs e =
     \<lparr>sr_max_sequence = fold (\<lambda>r m. max m (rc_sequence r)) rs 0, sr_records = length rs,
      sr_valid_bytes = sum_list (map rec_size rs),
      sr_corrupt = (e \<noteq> None \<and> e \<noteq> Some Truncated), sr_truncated = (e = Some Truncated)\<rparr>"

definition scan_and_heal ::
  "(bytes \<Rightarrow> u32) \<Rightarrow> string \<Rightarrow> u32 \<Rightarrow> disk \<Rightarrow> (io_error + scan_result) \<times> disk" where
  "scan_and_heal crc path mx d =
     (case open_existing path d of
        (Err e, d1) \<Rightarrow> (Err e, d1)
      | (Ok ino, d1) \<Rightarrow>
          (case plain_call d1 of
             (Err e, d2) \<Rightarrow> (Err e, d2)
           | (Ok _, d2) \<Rightarrow>
               (let (rd, d3) = file_reader ino d2;
                    (rs, e) = read_records crc mx rd;
                    result = scan_of rs e
                in case plain_call d3 of
                     (Err e', d4) \<Rightarrow> (Err e', d4)
                   | (Ok _, d4) \<Rightarrow>
                       if sr_valid_bytes result < length (dk_data d4 ino) then
                         (case set_len ino (sr_valid_bytes result) d4 of
                            (Err e', d5) \<Rightarrow> (Err e', d5)
                          | (Ok _, d5) \<Rightarrow> (Ok result, d5))
                       else (Ok result, d4))))"

section \<open>Opening\<close>

text \<open>The directory walk: segment indices in directory order; a stale rewrite is removed.\<close>

fun walk_entries :: "string list \<Rightarrow> nat list \<Rightarrow> disk \<Rightarrow> (io_error + nat list) \<times> disk" where
  "walk_entries [] indices d = (Ok indices, d)"
| "walk_entries (name # names) indices d =
     (case parse_segment_index name of
        Some i \<Rightarrow> walk_entries names (indices @ [i]) d
      | None \<Rightarrow>
          if is_stale_rewrite name then
            (case remove_file name d of
               (Err e, d1) \<Rightarrow> (Err e, d1)
             | (Ok _, d1) \<Rightarrow> walk_entries names indices d1)
          else walk_entries names indices d)"

fun open_segments :: "(bytes \<Rightarrow> u32) \<Rightarrow> nat list \<Rightarrow> spool \<Rightarrow> disk \<Rightarrow> (io_error + spool) \<times> disk" where
  "open_segments crc [] sp d = (Ok sp, d)"
| "open_segments crc (i # is) sp d =
     (case scan_and_heal crc (segment_name i) (sc_max_payload_bytes (sp_config sp)) d of
        (Err e, d1) \<Rightarrow> (Err e, d1)
      | (Ok scan, d1) \<Rightarrow>
          open_segments crc is
            (sp\<lparr>sp_corrupt_segments := sp_corrupt_segments sp + (if sr_corrupt scan then 1 else 0),
               sp_truncated_tail := sp_truncated_tail sp \<or> sr_truncated scan,
               sp_total_bytes := sp_total_bytes sp + sr_valid_bytes scan,
               sp_next_index := i + 1,
               sp_segments := sp_segments sp @
                 [\<lparr>sg_index = i, sg_path = segment_name i, sg_max_sequence = sr_max_sequence scan,
                   sg_records = sr_records scan, sg_bytes = sr_valid_bytes scan\<rparr>]\<rparr>) d1)"

definition spool_open :: "(bytes \<Rightarrow> u32) \<Rightarrow> spool_config \<Rightarrow> disk \<Rightarrow> (io_error + spool) \<times> disk" where
  "spool_open crc config d =
     (case plain_call d of
        (Err e, d1) \<Rightarrow> (Err e, d1)
      | (Ok _, d1) \<Rightarrow>
     (case read_dir d1 of
        (Err e, d2) \<Rightarrow> (Err e, d2)
      | (Ok names, d2) \<Rightarrow>
     (case walk_entries names [] d2 of
        (Err e, d3) \<Rightarrow> (Err e, d3)
      | (Ok indices, d3) \<Rightarrow>
     (case open_segments crc (sort indices)
             \<lparr>sp_config = config, sp_segments = [], sp_active = None, sp_next_index = 0,
              sp_total_bytes = 0, sp_corrupt_segments = 0, sp_truncated_tail = False,
              sp_dir_sync_pending = False\<rparr> d3 of
        (Err e, d4) \<Rightarrow> (Err e, d4)
      | (Ok sp, d4) \<Rightarrow>
          if sp_segments sp = [] then (Ok sp, d4)
          else case open_existing (sg_path (last (sp_segments sp))) d4 of
            (Err e, d5) \<Rightarrow> (Err e, d5)
          | (Ok ino, d5) \<Rightarrow> (Ok (sp\<lparr>sp_active := Some ino\<rparr>), d5)))))"

section \<open>Appending\<close>

text \<open>The eviction loop, over the remaining segments, the total and the count so far.\<close>

fun evict_loop ::
  "nat \<Rightarrow> nat \<Rightarrow> segment list \<Rightarrow> nat \<Rightarrow> nat \<Rightarrow> disk \<Rightarrow> (io_error + nat) \<times> segment list \<times> nat \<times> disk" where
  "evict_loop limit record_size (seg # seg' # segs) bytes evicted d =
     (if limit < bytes + record_size then
        (case remove_file (sg_path seg) d of
           (Err e, d1) \<Rightarrow> (Err e, seg' # segs, bytes, d1)
         | (Ok _, d1) \<Rightarrow>
             evict_loop limit record_size (seg' # segs) (bytes - sg_bytes seg) (evicted + sg_records seg) d1)
      else (Ok evicted, seg # seg' # segs, bytes, d))"
| "evict_loop limit record_size segs bytes evicted d = (Ok evicted, segs, bytes, d)"

definition evict_for :: "nat \<Rightarrow> spool \<Rightarrow> disk \<Rightarrow> (io_error + nat) \<times> spool \<times> disk" where
  "evict_for record_size sp d =
     (case evict_loop (sc_disk_limit_bytes (sp_config sp)) record_size (sp_segments sp)
             (sp_total_bytes sp) 0 d of
        (res, segs, bytes, d1) \<Rightarrow> (res, sp\<lparr>sp_segments := segs, sp_total_bytes := bytes\<rparr>, d1))"

definition ensure_active_with_room :: "nat \<Rightarrow> spool \<Rightarrow> disk \<Rightarrow> (io_error + unit) \<times> spool \<times> disk" where
  "ensure_active_with_room record_size sp d =
     (let need_new =
            (if sp_segments sp = [] then True
             else let l = last (sp_segments sp)
                  in 0 < sg_bytes l \<and> sc_segment_bytes (sp_config sp) < sg_bytes l + record_size)
      in if need_new then
           (let i = sp_next_index sp; sp1 = sp\<lparr>sp_next_index := i + 1\<rparr>
            in case open_create (segment_name i) d of
                 (Err e, d1) \<Rightarrow> (Err e, sp1, d1)
               | (Ok ino, d1) \<Rightarrow>
                   (Ok (), sp1\<lparr>sp_active := Some ino,
                     sp_segments := sp_segments sp @
                       [\<lparr>sg_index = i, sg_path = segment_name i, sg_max_sequence = 0, sg_records = 0,
                         sg_bytes = 0\<rparr>]\<rparr>, d1))
         else (Ok (), sp, d))"

text \<open>The write of an encoded record to the active handle, synced when the policy says so.\<close>

definition write_active :: "bytes \<Rightarrow> spool \<Rightarrow> disk \<Rightarrow> (io_error + unit) \<times> disk" where
  "write_active encoded sp d =
     (case sp_active sp of
        None \<Rightarrow> (Ok (), d)
      | Some ino \<Rightarrow>
          (case append_all ino encoded d of
             (Err e, d1) \<Rightarrow> (Err e, d1)
           | (Ok _, d1) \<Rightarrow>
               if sc_fsync (sp_config sp) = FsyncAlways then plain_call d1 else (Ok (), d1)))"

definition note_append :: "nat \<Rightarrow> u64 \<Rightarrow> spool \<Rightarrow> spool" where
  "note_append record_size sequence sp =
     (let segs = (if sp_segments sp = [] then []
                  else butlast (sp_segments sp) @
                    [let l = last (sp_segments sp)
                     in l\<lparr>sg_bytes := sg_bytes l + record_size, sg_records := sg_records l + 1,
                          sg_max_sequence := max (sg_max_sequence l) sequence\<rparr>])
      in sp\<lparr>sp_segments := segs, sp_total_bytes := sp_total_bytes sp + record_size\<rparr>)"

definition spool_append ::
  "(bytes \<Rightarrow> u32) \<Rightarrow> u64 \<Rightarrow> u64 \<Rightarrow> bytes \<Rightarrow> spool \<Rightarrow> disk \<Rightarrow> (spool_error + nat) \<times> spool \<times> disk" where
  "spool_append crc sequence timestamp_micros payload sp d =
     (let payload_len = u32_saturate (length payload);
          mx = sc_max_payload_bytes (sp_config sp);
          record_size = encoded_len (length payload);
          limit = sc_disk_limit_bytes (sp_config sp)
      in if mx < payload_len then (Err (PayloadTooLarge payload_len mx), sp, d)
         else if limit < record_size then (Err (RecordExceedsDiskLimit record_size limit), sp, d)
         else case evict_for record_size sp d of
           (Err e, sp1, d1) \<Rightarrow> (Err (SpoolIo e), sp1, d1)
         | (Ok evicted, sp1, d1) \<Rightarrow>
             (case ensure_active_with_room record_size sp1 d1 of
                (Err e, sp2, d2) \<Rightarrow> (Err (SpoolIo e), sp2, d2)
              | (Ok _, sp2, d2) \<Rightarrow>
                  (case write_active (encode crc sequence timestamp_micros payload) sp2 d2 of
                     (Err e, d3) \<Rightarrow> (Err (SpoolIo e), sp2, d3)
                   | (Ok _, d3) \<Rightarrow> (Ok evicted, note_append record_size sequence sp2, d3))))"

section \<open>Replaying\<close>

text \<open>The records handed to the visitor, in order, and the outcome.\<close>

fun replay_segments ::
  "(bytes \<Rightarrow> u32) \<Rightarrow> u32 \<Rightarrow> segment list \<Rightarrow> disk \<Rightarrow> log_record list \<times> (io_error + unit) \<times> disk" where
  "replay_segments crc mx [] d = ([], Ok (), d)"
| "replay_segments crc mx (seg # segs) d =
     (case open_existing (sg_path seg) d of
        (Err e, d1) \<Rightarrow> ([], Err e, d1)
      | (Ok ino, d1) \<Rightarrow>
          (let (rd, d2) = file_reader ino d1;
               rs = fst (read_records crc mx rd);
               (rest, res, d3) = replay_segments crc mx segs d2
           in (rs @ rest, res, d3)))"

definition replay ::
  "(bytes \<Rightarrow> u32) \<Rightarrow> spool \<Rightarrow> disk \<Rightarrow> log_record list \<times> (io_error + replay_stats) \<times> disk" where
  "replay crc sp d =
     (case replay_segments crc (sc_max_payload_bytes (sp_config sp)) (sp_segments sp) d of
        (rs, Err e, d1) \<Rightarrow> (rs, Err e, d1)
      | (rs, Ok _, d1) \<Rightarrow>
          (rs, Ok \<lparr>rs_records = length rs, rs_corrupt_segments = sp_corrupt_segments sp,
                   rs_truncated_tail = sp_truncated_tail sp\<rparr>, d1))"

section \<open>Rewriting\<close>

text \<open>The new content of a segment and how many records changed; a replacement can be too large.\<close>

fun rewrite_records ::
  "(bytes \<Rightarrow> u32) \<Rightarrow> u32 \<Rightarrow> (log_record \<Rightarrow> bytes option) \<Rightarrow> log_record list \<Rightarrow> bytes \<Rightarrow> nat \<Rightarrow>
   io_error + bytes \<times> nat" where
  "rewrite_records crc mx f [] out changed = Ok (out, changed)"
| "rewrite_records crc mx f (r # rs) out changed =
     (case f r of
        Some payload \<Rightarrow>
          if mx < u32_saturate (length payload) then Err InvalidData
          else rewrite_records crc mx f rs
            (encode_into crc out (rc_sequence r) (rc_timestamp_micros r) payload) (changed + 1)
      | None \<Rightarrow>
          rewrite_records crc mx f rs
            (encode_into crc out (rc_sequence r) (rc_timestamp_micros r) (rc_payload r)) changed)"

definition stage :: "string \<Rightarrow> bytes \<Rightarrow> disk \<Rightarrow> (io_error + nat) \<times> disk" where
  "stage staged bs d =
     (case remove_file staged d of
        (Err Eio, d1) \<Rightarrow> (Err Eio, d1)
      | (_, d1) \<Rightarrow>
          (case open_new staged d1 of
             (Err e, d2) \<Rightarrow> (Err e, d2)
           | (Ok ino, d2) \<Rightarrow>
               (case append_all ino bs d2 of
                  (Err e, d3) \<Rightarrow> (Err e, d3)
                | (Ok _, d3) \<Rightarrow>
                    (case plain_call d3 of (Err e, d4) \<Rightarrow> (Err e, d4) | (Ok _, d4) \<Rightarrow> (Ok ino, d4)))))"

definition sync_dir :: "spool \<Rightarrow> disk \<Rightarrow> (io_error + unit) \<times> spool \<times> disk" where
  "sync_dir sp d =
     (case plain_call d of
        (Err e, d1) \<Rightarrow> (Err e, sp, d1)
      | (Ok _, d1) \<Rightarrow>
          (case plain_call d1 of
             (Err e, d2) \<Rightarrow> (Err e, sp, d2)
           | (Ok _, d2) \<Rightarrow> (Ok (), sp\<lparr>sp_dir_sync_pending := False\<rparr>, d2)))"

text \<open>The new content staged, renamed over the segment and accounted for: the commit of the loop body.\<close>

definition replace_segment :: "bytes \<Rightarrow> nat \<Rightarrow> nat \<Rightarrow> spool \<Rightarrow> disk \<Rightarrow> (io_error + nat) \<times> spool \<times> disk" where
  "replace_segment out changed position sp d =
     (let path = sg_path (sp_segments sp ! position);
          staged = path @ REWRITE_SUFFIX
      in case stage staged out d of
           (Err e, d3) \<Rightarrow> (Err e, sp, snd (remove_file staged d3))
         | (Ok new, d3) \<Rightarrow>
             (case rename_file staged path d3 of
                (Err e, d4) \<Rightarrow> (Err e, sp, snd (remove_file staged d4))
              | (Ok _, d4) \<Rightarrow>
                  (let seg = sp_segments sp ! position;
                       sp1 = sp\<lparr>sp_total_bytes := sp_total_bytes sp - sg_bytes seg + length out,
                                sp_segments := (sp_segments sp)[position := seg\<lparr>sg_bytes := length out\<rparr>],
                                sp_active := (if position = length (sp_segments sp) - 1
                                              then Some new else sp_active sp),
                                sp_dir_sync_pending := True\<rparr>
                   in case sync_dir sp1 d4 of
                        (Err e, sp2, d5) \<Rightarrow> (Err e, sp2, d5)
                      | (Ok _, sp2, d5) \<Rightarrow> (Ok changed, sp2, d5))))"

text \<open>One segment of the loop, at \<open>position\<close>: how many records were replaced.\<close>

definition rewrite_segment ::
  "(bytes \<Rightarrow> u32) \<Rightarrow> (log_record \<Rightarrow> bytes option) \<Rightarrow> nat \<Rightarrow> spool \<Rightarrow> disk \<Rightarrow> (io_error + nat) \<times> spool \<times> disk" where
  "rewrite_segment crc f position sp d =
     (let path = sg_path (sp_segments sp ! position);
          mx = sc_max_payload_bytes (sp_config sp)
      in case open_existing path d of
           (Err e, d1) \<Rightarrow> (Err e, sp, d1)
         | (Ok ino, d1) \<Rightarrow>
             (case file_reader ino d1 of
                (rd, d2) \<Rightarrow>
                  (case read_segment crc mx rd of
                     Err e \<Rightarrow> (Err e, sp, d2)
                   | Ok rs \<Rightarrow>
                       (case rewrite_records crc mx f rs [] 0 of
                          Err e \<Rightarrow> (Err e, sp, d2)
                        | Ok (out, changed) \<Rightarrow>
                            if changed = 0 then (Ok 0, sp, d2)
                            else replace_segment out changed position sp d2))))"

fun rewrite_from ::
  "(bytes \<Rightarrow> u32) \<Rightarrow> (log_record \<Rightarrow> bytes option) \<Rightarrow> nat list \<Rightarrow> nat \<Rightarrow> spool \<Rightarrow> disk \<Rightarrow>
   (io_error + nat) \<times> spool \<times> disk" where
  "rewrite_from crc f [] replaced sp d = (Ok replaced, sp, d)"
| "rewrite_from crc f (position # ps) replaced sp d =
     (case rewrite_segment crc f position sp d of
        (Err e, sp1, d1) \<Rightarrow> (Err e, sp1, d1)
      | (Ok changed, sp1, d1) \<Rightarrow> rewrite_from crc f ps (replaced + changed) sp1 d1)"

definition spool_rewrite ::
  "(bytes \<Rightarrow> u32) \<Rightarrow> (log_record \<Rightarrow> bytes option) \<Rightarrow> spool \<Rightarrow> disk \<Rightarrow> (io_error + nat) \<times> spool \<times> disk" where
  "spool_rewrite crc f sp d = rewrite_from crc f [0..<length (sp_segments sp)] 0 sp d"

section \<open>Acknowledging and flushing\<close>

fun ack_loop ::
  "u64 \<Rightarrow> segment list \<Rightarrow> nat \<Rightarrow> nat \<Rightarrow> disk \<Rightarrow> (io_error + nat) \<times> segment list \<times> nat \<times> disk" where
  "ack_loop up_to (seg # seg' # segs) bytes freed d =
     (if sg_max_sequence seg \<le> up_to then
        (case remove_file (sg_path seg) d of
           (Err e, d1) \<Rightarrow> (Err e, seg' # segs, bytes, d1)
         | (Ok _, d1) \<Rightarrow> ack_loop up_to (seg' # segs) (bytes - sg_bytes seg) (freed + sg_records seg) d1)
      else (Ok freed, seg # seg' # segs, bytes, d))"
| "ack_loop up_to segs bytes freed d = (Ok freed, segs, bytes, d)"

definition spool_ack :: "u64 \<Rightarrow> spool \<Rightarrow> disk \<Rightarrow> (io_error + nat) \<times> spool \<times> disk" where
  "spool_ack up_to sp d =
     (case ack_loop up_to (sp_segments sp) (sp_total_bytes sp) 0 d of
        (res, segs, bytes, d1) \<Rightarrow> (res, sp\<lparr>sp_segments := segs, sp_total_bytes := bytes\<rparr>, d1))"

definition spool_flush :: "spool \<Rightarrow> disk \<Rightarrow> (io_error + unit) \<times> spool \<times> disk" where
  "spool_flush sp d =
     (case (if sp_dir_sync_pending sp then sync_dir sp d else (Ok (), sp, d)) of
        (Err e, sp1, d1) \<Rightarrow> (Err e, sp1, d1)
      | (Ok _, sp1, d1) \<Rightarrow>
          (case sp_active sp1 of
             None \<Rightarrow> (Ok (), sp1, d1)
           | Some ino \<Rightarrow> (case plain_call d1 of (res, d2) \<Rightarrow> (res, sp1, d2))))"

definition segment_count :: "spool \<Rightarrow> nat" where
  "segment_count sp = length (sp_segments sp)"

definition record_count :: "spool \<Rightarrow> nat" where
  "record_count sp = sum_list (map sg_records (sp_segments sp))"

end
