(* ===== verification/Spool_Correct.thy ===== *)
theory Spool_Correct
  imports Spool
begin

text \<open>
  Correctness of the spool.

  \<open>spool_inv\<close> relates a spool and its disk to the records of each segment, in order: every segment
  file holds exactly its encoded records and is counted right, the active handle is the last
  segment's file, and the directory holds no other segment. On a disk whose calls succeed, append,
  acknowledge and rewrite refine operations on that list of record lists; opening a disk left by a
  crash gives a spool of the whole records. Rewriting keeps the invariant under every pattern of
  failures; what a failed write or removal breaks is stated by the closing theorems.
\<close>

definition max_seq :: "log_record list \<Rightarrow> u64" where
  "max_seq rs = fold (\<lambda>r m. max m (rc_sequence r)) rs 0"

definition seg_ok :: "(bytes \<Rightarrow> u32) \<Rightarrow> u32 \<Rightarrow> disk \<Rightarrow> segment \<Rightarrow> log_record list \<Rightarrow> bool" where
  "seg_ok crc mx d seg rs \<longleftrightarrow>
     sg_path seg = segment_name (sg_index seg) \<and> list_all (rec_ok mx) rs \<and>
     (\<exists>ino. dk_lookup d (sg_path seg) = Some ino \<and> dk_data d ino = concat (map (rec_bytes crc) rs)) \<and>
     sg_records seg = length rs \<and> sg_bytes seg = sum_list (map rec_size rs) \<and>
     sg_max_sequence seg = max_seq rs"

definition segs_inv ::
  "(bytes \<Rightarrow> u32) \<Rightarrow> u32 \<Rightarrow> segment list \<Rightarrow> nat \<Rightarrow> disk \<Rightarrow> log_record list list \<Rightarrow> bool" where
  "segs_inv crc mx segs bytes d rss \<longleftrightarrow>
     disk_ok d \<and> list_all2 (seg_ok crc mx d) segs rss \<and> sorted_wrt (<) (map sg_index segs) \<and>
     (\<forall>i. dk_lookup d (segment_name i) \<noteq> None \<longrightarrow> i \<in> sg_index ` set segs) \<and>
     bytes = sum_list (map sg_bytes segs)"

definition active_ok :: "segment list \<Rightarrow> nat option \<Rightarrow> disk \<Rightarrow> bool" where
  "active_ok segs active d \<longleftrightarrow>
     active = (if segs = [] then None else dk_lookup d (sg_path (last segs)))"

definition spool_inv :: "(bytes \<Rightarrow> u32) \<Rightarrow> spool \<Rightarrow> disk \<Rightarrow> log_record list list \<Rightarrow> bool" where
  "spool_inv crc sp d rss \<longleftrightarrow>
     segs_inv crc (sc_max_payload_bytes (sp_config sp)) (sp_segments sp) (sp_total_bytes sp) d rss \<and>
     (\<forall>seg \<in> set (sp_segments sp). sg_index seg < sp_next_index sp) \<and>
     active_ok (sp_segments sp) (sp_active sp) d"

text \<open>A spool of one segment with one record, on a disk with the given outcomes to come.\<close>

definition example_rec :: log_record where
  "example_rec = \<lparr>rc_sequence = 5, rc_timestamp_micros = 9, rc_payload = ''a''\<rparr>"

definition example_config :: spool_config where
  "example_config = \<lparr>sc_segment_bytes = 40, sc_disk_limit_bytes = 64, sc_max_payload_bytes = 100, sc_fsync = FsyncNever\<rparr>"

definition example_disk :: "nat option list \<Rightarrow> disk" where
  "example_disk fs =
     \<lparr>dk_dir = [(segment_name 0, 0)], dk_data = (\<lambda>_. [])(0 := rec_bytes (\<lambda>_. 0) example_rec), dk_next = 1,
      dk_faults = fs\<rparr>"

definition example_spool :: spool where
  "example_spool =
     \<lparr>sp_config = example_config,
      sp_segments = [\<lparr>sg_index = 0, sg_path = segment_name 0, sg_max_sequence = 5, sg_records = 1, sg_bytes = 31\<rparr>],
      sp_active = Some 0, sp_next_index = 1, sp_total_bytes = 31, sp_corrupt_segments = 0,
      sp_truncated_tail = False, sp_dir_sync_pending = False\<rparr>"

section \<open>Names\<close>

lemma segment_name_inj [simp]: "segment_name i = segment_name j \<longleftrightarrow> i = j"
  using padded_decimal_inj by (auto simp: segment_name_def)

lemma staged_not_segment [simp]: "segment_name i @ REWRITE_SUFFIX \<noteq> segment_name j"
proof
  assume "segment_name i @ REWRITE_SUFFIX = segment_name j"
  then have "last (segment_name i @ REWRITE_SUFFIX) = last (segment_name j)"
    by simp
  then show False
    by (simp add: segment_name_def REWRITE_SUFFIX_def)
qed

lemma parse_segment_name: "i < 2 ^ 64 \<Longrightarrow> parse_segment_index (segment_name i) = Some i"
proof -
  assume i: "i < 2 ^ 64"
  have "strip_prefix ''seg-'' (segment_name i) = Some (padded_decimal 20 i @ ''.log'')"
    unfolding segment_name_def by (rule strip_prefix_append)
  then show ?thesis
    using i parse_unsigned_padded [of i "2 ^ 64 - 1" 20]
    by (simp add: parse_segment_index_def parse_u64_def)
qed

section \<open>Records and their files\<close>

lemma rec_size_bytes: "length (rec_bytes crc r) = rec_size r"
  by (simp add: length_rec_bytes rec_size_def)

lemma length_concat_recs: "length (concat (map (rec_bytes crc) rs)) = sum_list (map rec_size rs)"
  by (induction rs) (simp_all add: rec_size_bytes)

lemma rec_size_pos [simp]: "0 < rec_size r"
  by (simp add: rec_size_def encoded_len_def CRC_LEN_def)

section \<open>Reading\<close>

lemma read_records_decode:
  "read_records crc mx \<lparr>rd_data = bs, rd_fail = None\<rparr> =
     (case decode_all (rec_decode crc mx) bs of (rs, e, left) \<Rightarrow> (rs, e))"
proof (induction "length bs" arbitrary: bs rule: less_induct)
  case less
  obtain res rd where rr: "read_record crc mx \<lparr>rd_data = bs, rd_fail = None\<rparr> = (res, rd)"
    by fastforce
  consider (rec) r where "res = Ok (Some r)" | (fin) "res = Ok None" | (err) e where "res = Err e"
    by (metis obj_sumE option.exhaust)
  then show ?case
  proof cases
    case rec
    then have sh: "length (rd_data rd) < length bs"
      using rr read_record_shorter by fastforce
    have "rd_fail rd = None"
      using read_record_plain [of "\<lparr>rd_data = bs, rd_fail = None\<rparr>" crc mx] rr by simp
    then have "rd = \<lparr>rd_data = rd_data rd, rd_fail = None\<rparr>"
      by (cases rd) simp
    then have ih: "read_records crc mx rd =
        (case decode_all (rec_decode crc mx) (rd_data rd) of (rs, e, left) \<Rightarrow> (rs, e))"
      using less [OF sh] by simp
    show ?thesis
      using rr rec sh ih
      by (subst read_records.simps, subst decode_all.simps)
        (simp add: rec_decode_def case_prod_beta Let_def)
  qed (use rr in \<open>subst read_records.simps, subst decode_all.simps, simp add: rec_decode_def\<close>)+
qed

lemma read_records_concat:
  "list_all (rec_ok mx) rs \<Longrightarrow>
   read_records crc mx \<lparr>rd_data = concat (map (rec_bytes crc) rs), rd_fail = None\<rparr> = (rs, None)"
  by (simp add: read_records_decode log_codec.decode_all_concat)

lemma read_records_torn:
  assumes "list_all (rec_ok mx) rs" and "rec_ok mx r" and "0 < k" and "k < length (rec_bytes crc r)"
  shows "read_records crc mx \<lparr>rd_data = concat (map (rec_bytes crc) rs) @ take k (rec_bytes crc r), rd_fail = None\<rparr> =
    (rs, Some Truncated)"
  using log_codec.decode_all_torn [OF assms] by (auto simp: read_records_decode)

section \<open>Replay\<close>

lemma replay_segments_ok:
  "list_all2 (seg_ok crc mx d) segs rss \<Longrightarrow> dk_faults d = [] \<Longrightarrow>
   replay_segments crc mx segs d = (concat rss, Ok (), d)"
proof (induction segs rss rule: list_all2_induct)
  case Nil
  then show ?case by simp
next
  case (Cons seg segs rs rss)
  then obtain ino where "dk_lookup d (sg_path seg) = Some ino"
    "dk_data d ino = concat (map (rec_bytes crc) rs)" "list_all (rec_ok mx) rs"
    by (auto simp: seg_ok_def)
  with Cons show ?case
    by (simp add: open_existing_def file_reader_def read_records_concat)
qed

lemma replay_ok:
  assumes "spool_inv crc sp d rss" and "dk_faults d = []"
  shows "replay crc sp d =
    (concat rss, Ok \<lparr>rs_records = length (concat rss), rs_corrupt_segments = sp_corrupt_segments sp,
                     rs_truncated_tail = sp_truncated_tail sp\<rparr>, d)"
  using replay_segments_ok [of crc "sc_max_payload_bytes (sp_config sp)" d "sp_segments sp" rss] assms
  by (simp add: replay_def spool_inv_def segs_inv_def)

section \<open>Dropping the oldest segment\<close>

lemma seg_ok_cong:
  assumes "dk_lookup d' (sg_path seg) = dk_lookup d (sg_path seg)"
    and "\<And>ino. dk_lookup d (sg_path seg) = Some ino \<Longrightarrow> dk_data d' ino = dk_data d ino"
  shows "seg_ok crc mx d' seg rs = seg_ok crc mx d seg rs"
  using assms by (auto simp: seg_ok_def)

lemma list_all2_seg_ok_cong:
  assumes "\<And>seg. seg \<in> set segs \<Longrightarrow> dk_lookup d' (sg_path seg) = dk_lookup d (sg_path seg)"
    and "\<And>seg ino. seg \<in> set segs \<Longrightarrow> dk_lookup d (sg_path seg) = Some ino \<Longrightarrow> dk_data d' ino = dk_data d ino"
    and "list_all2 (seg_ok crc mx d) segs rss"
  shows "list_all2 (seg_ok crc mx d') segs rss"
proof (rule list.rel_mono_strong [OF assms(3)])
  fix seg rs
  assume "seg \<in> set segs" and "seg_ok crc mx d seg rs"
  then show "seg_ok crc mx d' seg rs"
    by (subst seg_ok_cong [of d' seg d]) (simp_all add: assms(1,2))
qed

lemma segs_paths:
  "segs_inv crc mx segs bytes d rss \<Longrightarrow> seg \<in> set segs \<Longrightarrow> sg_path seg = segment_name (sg_index seg)"
  by (auto simp: segs_inv_def seg_ok_def list_all2_conv_all_nth in_set_conv_nth)

lemma segs_inv_drop:
  assumes inv: "segs_inv crc mx (seg # segs) bytes d (rs # rss)"
  defines "d' \<equiv> d\<lparr>dk_dir := AList.delete (sg_path seg) (dk_dir d)\<rparr>"
  shows "segs_inv crc mx segs (bytes - sg_bytes seg) d' rss"
    and "segs \<noteq> [] \<Longrightarrow> dk_lookup d' (sg_path (last segs)) = dk_lookup d (sg_path (last segs))"
    and "sg_records seg = length rs" and "dk_lookup d (sg_path seg) \<noteq> None"
    and "sg_max_sequence seg = max_seq rs"
proof -
  have path: "sg_path s = segment_name (sg_index s)" if "s \<in> set (seg # segs)" for s
    using inv that by (rule segs_paths)
  have other: "sg_index s \<noteq> sg_index seg" if "s \<in> set segs" for s
    using inv that by (auto simp: segs_inv_def)
  have same: "dk_lookup d' (sg_path s) = dk_lookup d (sg_path s)" if "s \<in> set segs" for s
    using that other [of s] path [of s] path [of seg] by (auto simp: d'_def)
  have "list_all2 (seg_ok crc mx d') segs rss"
    using inv same by (intro list_all2_seg_ok_cong [of segs d' d]) (auto simp: segs_inv_def d'_def)
  moreover have "\<forall>i. dk_lookup d' (segment_name i) \<noteq> None \<longrightarrow> i \<in> sg_index ` set segs"
    using inv path [of seg] by (auto simp: segs_inv_def d'_def split: if_splits)
  moreover have "disk_ok d'"
    using inv by (auto simp: segs_inv_def d'_def intro: disk_ok_delete)
  ultimately show "segs_inv crc mx segs (bytes - sg_bytes seg) d' rss"
    using inv by (simp add: segs_inv_def)
  show "segs \<noteq> [] \<Longrightarrow> dk_lookup d' (sg_path (last segs)) = dk_lookup d (sg_path (last segs))"
    by (simp add: same)
  show "sg_records seg = length rs" "dk_lookup d (sg_path seg) \<noteq> None" "sg_max_sequence seg = max_seq rs"
    using inv by (auto simp: segs_inv_def seg_ok_def)
qed

text \<open>
  Both loops that drop segments from the front leave a suffix of the segments, at least one if there
  was one, with the invariant kept, and count the records they dropped.
\<close>

definition dropped ::
  "(bytes \<Rightarrow> u32) \<Rightarrow> u32 \<Rightarrow> segment list \<Rightarrow> log_record list list \<Rightarrow> disk \<Rightarrow> nat \<Rightarrow> nat \<Rightarrow>
   (io_error + nat) \<times> segment list \<times> nat \<times> disk \<Rightarrow> bool" where
  "dropped crc mx segs rss d ev k out \<longleftrightarrow>
     (case out of (res, segs', bytes', d') \<Rightarrow>
        res = Ok (ev + length (concat (take k rss))) \<and> segs' = drop k segs \<and>
        segs_inv crc mx segs' bytes' d' (drop k rss) \<and> dk_faults d' = [] \<and> (segs \<noteq> [] \<longrightarrow> k < length segs) \<and>
        (segs \<noteq> [] \<longrightarrow> dk_lookup d' (sg_path (last segs)) = dk_lookup d (sg_path (last segs))))"

lemma dropped_none:
  "segs_inv crc mx segs bytes d rss \<Longrightarrow> dk_faults d = [] \<Longrightarrow>
   dropped crc mx segs rss d ev 0 (Ok ev, segs, bytes, d)"
  by (auto simp: dropped_def)

lemma dropped_step:
  assumes inv: "segs_inv crc mx (seg # seg' # segs) bytes d (rs # rss)"
    and step: "dropped crc mx (seg' # segs) rss (d\<lparr>dk_dir := AList.delete (sg_path seg) (dk_dir d)\<rparr>)
      (ev + sg_records seg) k out"
  shows "dropped crc mx (seg # seg' # segs) (rs # rss) d ev (Suc k) out"
  using step segs_inv_drop(2,3) [OF inv] by (auto simp: dropped_def simp del: dk_lookup_delete)

lemma evict_loop_dropped:
  assumes "segs_inv crc mx segs bytes d rss" and "dk_faults d = []"
  shows "\<exists>k. dropped crc mx segs rss d ev k (evict_loop limit sz segs bytes ev d) \<and>
    (fst (snd (snd (evict_loop limit sz segs bytes ev d))) + sz \<le> limit \<or> length segs \<le> Suc k)"
  using assms
proof (induction limit sz segs bytes ev d arbitrary: rss rule: evict_loop.induct)
  case (1 limit sz seg seg' segs bytes ev d)
  show ?case
  proof (cases "limit < bytes + sz")
    case True
    obtain rs rss' where rss: "rss = rs # rss'"
      using "1.prems"(1) by (cases rss) (auto simp: segs_inv_def)
    note inv = "1.prems"(1) [unfolded rss]
    let ?d = "d\<lparr>dk_dir := AList.delete (sg_path seg) (dk_dir d)\<rparr>"
    have rm: "remove_file (sg_path seg) d = (Ok (), ?d)"
      using segs_inv_drop(4) [OF inv] "1.prems"(2) by (intro remove_file_ok)
    obtain k where "dropped crc mx (seg' # segs) rss' ?d (ev + sg_records seg) k
        (evict_loop limit sz (seg' # segs) (bytes - sg_bytes seg) (ev + sg_records seg) ?d)"
      "fst (snd (snd (evict_loop limit sz (seg' # segs) (bytes - sg_bytes seg) (ev + sg_records seg) ?d))) + sz
         \<le> limit \<or> length (seg' # segs) \<le> Suc k"
      using "1.IH" [OF True rm [symmetric] refl segs_inv_drop(1) [OF inv]] "1.prems"(2) by auto
    then show ?thesis
      using True rm dropped_step [OF inv] by (intro exI [of _ "Suc k"]) (auto simp: rss)
  next
    case False
    then show ?thesis
      using dropped_none [OF "1.prems"] by (intro exI [of _ 0]) auto
  qed
qed (auto intro!: exI [of _ 0] dropped_none)

lemma ack_loop_dropped:
  assumes "segs_inv crc mx segs bytes d rss" and "dk_faults d = []"
  shows "\<exists>k. dropped crc mx segs rss d ev k (ack_loop up_to segs bytes ev d) \<and>
    (\<forall>i < k. max_seq (rss ! i) \<le> up_to) \<and> (Suc k < length segs \<longrightarrow> up_to < max_seq (rss ! k))"
  using assms
proof (induction up_to segs bytes ev d arbitrary: rss rule: ack_loop.induct)
  case (1 up_to seg seg' segs bytes ev d)
  obtain rs rss' where rss: "rss = rs # rss'"
    using "1.prems"(1) by (cases rss) (auto simp: segs_inv_def)
  note inv = "1.prems"(1) [unfolded rss]
  show ?case
  proof (cases "sg_max_sequence seg \<le> up_to")
    case True
    let ?d = "d\<lparr>dk_dir := AList.delete (sg_path seg) (dk_dir d)\<rparr>"
    have rm: "remove_file (sg_path seg) d = (Ok (), ?d)"
      using segs_inv_drop(4) [OF inv] "1.prems"(2) by (intro remove_file_ok)
    obtain k where "dropped crc mx (seg' # segs) rss' ?d (ev + sg_records seg) k
        (ack_loop up_to (seg' # segs) (bytes - sg_bytes seg) (ev + sg_records seg) ?d)"
      "\<forall>i < k. max_seq (rss' ! i) \<le> up_to" "Suc k < length (seg' # segs) \<longrightarrow> up_to < max_seq (rss' ! k)"
      using "1.IH" [OF True rm [symmetric] refl segs_inv_drop(1) [OF inv]] "1.prems"(2) by auto
    then show ?thesis
      using True rm dropped_step [OF inv] segs_inv_drop(5) [OF inv]
      by (intro exI [of _ "Suc k"]) (auto simp: rss nth_Cons split: nat.splits)
  next
    case False
    then show ?thesis
      using dropped_none [OF "1.prems"] segs_inv_drop(5) [OF inv]
      by (intro exI [of _ 0]) (auto simp: rss)
  qed
qed (auto intro!: exI [of _ 0] dropped_none)

section \<open>Appending\<close>

lemma ensure_active_ok:
  assumes inv: "spool_inv crc sp d rss" and nf: "dk_faults d = []"
  shows "\<exists>sp' d' rss'. ensure_active_with_room sz sp d = (Ok (), sp', d') \<and> spool_inv crc sp' d' rss' \<and>
    dk_faults d' = [] \<and> rss' \<noteq> [] \<and> concat rss' = concat rss \<and> sp_config sp' = sp_config sp \<and>
    sp_total_bytes sp' = sp_total_bytes sp \<and>
    (sg_bytes (last (sp_segments sp')) = 0 \<or>
     sg_bytes (last (sp_segments sp')) + sz \<le> sc_segment_bytes (sp_config sp))"
proof -
  let ?new = "sp_segments sp = [] \<or> 0 < sg_bytes (last (sp_segments sp)) \<and>
    sc_segment_bytes (sp_config sp) < sg_bytes (last (sp_segments sp)) + sz"
  note I = inv [unfolded spool_inv_def segs_inv_def]
  show ?thesis
  proof (cases ?new)
    case False
    then have "ensure_active_with_room sz sp d = (Ok (), sp, d)"
      by (auto simp: ensure_active_with_room_def Let_def)
    moreover have "rss \<noteq> []"
      using False I by auto
    ultimately show ?thesis
      using inv nf False by auto
  next
    case True
    let ?i = "sp_next_index sp"
    have free: "dk_lookup d (segment_name ?i) = None"
      using I by fastforce
    then obtain d' where op: "open_create (segment_name ?i) d = (Ok (dk_next d), d')"
      and d': "disk_ok d'" "dk_faults d' = []" "dk_lookup d' = (dk_lookup d)(segment_name ?i \<mapsto> dk_next d)"
        "dk_data d' = (dk_data d)(dk_next d := [])"
      using open_create_new [of d] I nf by blast
    let ?seg = "\<lparr>sg_index = ?i, sg_path = segment_name ?i, sg_max_sequence = 0, sg_records = 0, sg_bytes = 0\<rparr>"
    let ?sp = "sp\<lparr>sp_next_index := ?i + 1, sp_active := Some (dk_next d), sp_segments := sp_segments sp @ [?seg]\<rparr>"
    have "ensure_active_with_room sz sp d = (Ok (), ?sp, d')"
      using True by (auto simp: ensure_active_with_room_def Let_def op)
    moreover have paths: "sg_path s \<noteq> segment_name ?i" if "s \<in> set (sp_segments sp)" for s
      using that segs_paths [of crc _ _ _ d rss s] I inv by (fastforce simp: spool_inv_def)
    have "dk_data d' ino = dk_data d ino" if "dk_lookup d a = Some ino" for a ino
      using dk_lookup_fresh [of d a ino] I that by (simp add: d')
    then have "list_all2 (seg_ok crc (sc_max_payload_bytes (sp_config sp)) d') (sp_segments sp) rss"
      using I paths by (intro list_all2_seg_ok_cong [of _ d' d]) (auto simp: d')
    moreover have "seg_ok crc (sc_max_payload_bytes (sp_config sp)) d' ?seg []"
      by (simp add: seg_ok_def d' max_seq_def)
    ultimately have "spool_inv crc ?sp d' (rss @ [[]])"
      using I d' by (auto simp: spool_inv_def segs_inv_def active_ok_def sorted_wrt_append list_all2_appendI less_Suc_eq split: if_splits)
    then show ?thesis
      using \<open>ensure_active_with_room sz sp d = (Ok (), ?sp, d')\<close> d'(2)
      by (intro exI [of _ ?sp] exI [of _ d'] exI [of _ "rss @ [[]]"]) simp
  qed
qed

lemma max_seq_append: "max_seq (rs @ [r]) = max (max_seq rs) (rc_sequence r)"
  by (simp add: max_seq_def)

lemma write_active_ok:
  assumes inv: "spool_inv crc sp d (rss @ [rs])" and nf: "dk_faults d = []"
    and r: "rec_ok (sc_max_payload_bytes (sp_config sp)) r"
  shows "\<exists>d'. write_active (rec_bytes crc r) sp d = (Ok (), d') \<and> dk_faults d' = [] \<and>
    spool_inv crc (note_append (rec_size r) (rc_sequence r) sp) d' (rss @ [rs @ [r]])"
proof -
  note I = inv [unfolded spool_inv_def segs_inv_def]
  obtain segs l where segs: "sp_segments sp = segs @ [l]"
    using I by (auto simp: list_all2_append2 list_all2_Cons2)
  then have ok: "list_all2 (seg_ok crc (sc_max_payload_bytes (sp_config sp)) d) segs rss"
      "seg_ok crc (sc_max_payload_bytes (sp_config sp)) d l rs"
    using I by (auto simp: list_all2_append2 list_all2_Cons2)
  obtain ino where ino: "sp_active sp = Some ino" "dk_lookup d (sg_path l) = Some ino"
    "dk_data d ino = concat (map (rec_bytes crc) rs)"
    using I segs ok(2) by (auto simp: active_ok_def seg_ok_def)
  let ?d = "d\<lparr>dk_data := (dk_data d)(ino := dk_data d ino @ rec_bytes crc r)\<rparr>"
  let ?l = "l\<lparr>sg_bytes := sg_bytes l + rec_size r, sg_records := sg_records l + 1,
              sg_max_sequence := max (sg_max_sequence l) (rc_sequence r)\<rparr>"
  have "write_active (rec_bytes crc r) sp d = (Ok (), ?d)"
    using nf by (simp add: write_active_def ino append_all_def plain_call_def)
  moreover have look: "dk_lookup ?d = dk_lookup d" "disk_ok ?d"
    using I by (auto simp: dk_lookup_def disk_ok_def)
  moreover have "list_all2 (seg_ok crc (sc_max_payload_bytes (sp_config sp)) ?d) segs rss"
  proof (rule list_all2_seg_ok_cong [OF _ _ ok(1)])
    show "dk_data ?d i = dk_data d i" if s: "s \<in> set segs" and i: "dk_lookup d (sg_path s) = Some i" for s i
    proof -
      have "sg_index s \<noteq> sg_index l"
        using I s by (auto simp: segs sorted_wrt_append)
      then have "sg_path s \<noteq> sg_path l"
        using segs_paths [of crc _ "segs @ [l]" _ d "rss @ [rs]"] inv s by (auto simp: spool_inv_def segs)
      then have "i \<noteq> ino"
        using dk_lookup_inj [of d "sg_path s" i "sg_path l"] I i ino by auto
      then show ?thesis by simp
    qed
  qed (simp add: look)
  moreover have "seg_ok crc (sc_max_payload_bytes (sp_config sp)) ?d ?l (rs @ [r])"
    using ok(2) ino r by (auto simp: seg_ok_def look max_seq_append)
  moreover have "note_append (rec_size r) (rc_sequence r) sp =
      sp\<lparr>sp_segments := segs @ [?l], sp_total_bytes := sp_total_bytes sp + rec_size r\<rparr>"
    by (simp add: note_append_def segs Let_def)
  ultimately show ?thesis
    using I nf by (auto simp: spool_inv_def segs_inv_def active_ok_def segs sorted_wrt_append list_all2_appendI)
qed

lemma u32_saturate_fits:
  assumes "n \<le> unat mx"
  shows "\<not> mx < u32_saturate n"
proof -
  have "n < 2 ^ 32"
    using assms unsigned_less [of mx, where ?'a = nat] by simp
  with assms show ?thesis
    by (simp add: u32_saturate_small word_less_nat_alt unsigned_of_nat take_bit_nat_eq_self)
qed

lemma saturate_fits: "k < 2 ^ 32 \<Longrightarrow> \<not> mx < u32_saturate k \<Longrightarrow> k \<le> unat mx"
  by (simp add: u32_saturate_small word_less_nat_alt unsigned_of_nat take_bit_nat_eq_self)

lemma spool_append_ok:
  assumes inv: "spool_inv crc sp d rss" and nf: "dk_faults d = []"
    and fits: "length payload \<le> unat (sc_max_payload_bytes (sp_config sp))"
      "encoded_len (length payload) \<le> sc_disk_limit_bytes (sp_config sp)"
  shows "\<exists>k sp' d' rss'.
    spool_append crc sequence ts payload sp d = (Ok (length (concat (take k rss))), sp', d') \<and>
    spool_inv crc sp' d' rss' \<and> dk_faults d' = [] \<and> sp_config sp' = sp_config sp \<and>
    concat rss' = concat (drop k rss) @ [\<lparr>rc_sequence = sequence, rc_timestamp_micros = ts, rc_payload = payload\<rparr>] \<and>
    (rss \<noteq> [] \<longrightarrow> k < length rss) \<and>
    (sp_total_bytes sp' \<le> sc_disk_limit_bytes (sp_config sp) \<or> length rss \<le> Suc k)"
proof -
  let ?sz = "encoded_len (length payload)" and ?mx = "sc_max_payload_bytes (sp_config sp)"
  let ?r = "\<lparr>rc_sequence = sequence, rc_timestamp_micros = ts, rc_payload = payload\<rparr>"
  have lens: "length (sp_segments sp) = length rss"
    using inv by (auto simp: spool_inv_def segs_inv_def dest: list_all2_lengthD)
  have segs: "segs_inv crc ?mx (sp_segments sp) (sp_total_bytes sp) d rss"
    using inv by (simp add: spool_inv_def)
  obtain res segs' bytes' d1 where ev: "evict_loop (sc_disk_limit_bytes (sp_config sp)) ?sz (sp_segments sp)
      (sp_total_bytes sp) 0 d = (res, segs', bytes', d1)"
    by (metis prod.exhaust)
  then obtain k where k: "res = Ok (length (concat (take k rss)))" "segs' = drop k (sp_segments sp)"
      "segs_inv crc ?mx segs' bytes' d1 (drop k rss)" "dk_faults d1 = []" "sp_segments sp \<noteq> [] \<longrightarrow> k < length (sp_segments sp)"
      "sp_segments sp \<noteq> [] \<longrightarrow> dk_lookup d1 (sg_path (last (sp_segments sp))) = dk_lookup d (sg_path (last (sp_segments sp)))"
      "bytes' + ?sz \<le> sc_disk_limit_bytes (sp_config sp) \<or> length (sp_segments sp) \<le> Suc k"
    using evict_loop_dropped [OF segs nf, of 0 "sc_disk_limit_bytes (sp_config sp)" ?sz]
    by (auto simp: dropped_def)
  let ?sp1 = "sp\<lparr>sp_segments := segs', sp_total_bytes := bytes'\<rparr>"
  have "spool_inv crc ?sp1 d1 (drop k rss)"
    using inv k by (auto simp: spool_inv_def active_ok_def last_drop dest: in_set_dropD)
  from ensure_active_ok [OF this k(4), of ?sz] obtain sp2 d2 rss2 where
    en: "ensure_active_with_room ?sz ?sp1 d1 = (Ok (), sp2, d2)" "spool_inv crc sp2 d2 rss2" "dk_faults d2 = []"
      "rss2 \<noteq> []" "concat rss2 = concat (drop k rss)" "sp_config sp2 = sp_config sp" "sp_total_bytes sp2 = bytes'"
    by auto
  have "spool_inv crc sp2 d2 (butlast rss2 @ [last rss2])"
    using en by simp
  from write_active_ok [OF this en(3), of ?r] obtain d3 where
    wr: "write_active (rec_bytes crc ?r) sp2 d2 = (Ok (), d3)" "dk_faults d3 = []"
      "spool_inv crc (note_append (rec_size ?r) sequence sp2) d3 (butlast rss2 @ [last rss2 @ [?r]])"
    using fits en(6) by (auto simp: rec_ok_def)
  have "concat (butlast rss2 @ [last rss2 @ [?r]]) = concat rss2 @ [?r]"
    using en(4) by (metis append_assoc append_butlast_last_id concat.simps concat_append append_Nil2)
  moreover have "spool_append crc sequence ts payload sp d =
      (Ok (length (concat (take k rss))), note_append ?sz sequence sp2, d3)"
    using fits u32_saturate_fits [OF fits(1)] ev k(1) en(1) wr(1)
    by (simp add: spool_append_def Let_def evict_for_def rec_bytes_def rec_size_def)
  moreover have "sp_total_bytes (note_append ?sz sequence sp2) = bytes' + ?sz"
    using en(7) by (simp add: note_append_def)
  ultimately show ?thesis
    using wr en k lens
    by (intro exI [of _ k] exI [of _ "note_append ?sz sequence sp2"] exI [of _ d3]
        exI [of _ "butlast rss2 @ [last rss2 @ [?r]]"])
      (auto simp: rec_size_def note_append_def Let_def)
qed

lemma example_inv: "spool_inv (\<lambda>_. 0) example_spool (example_disk fs) [[example_rec]]"
  by (simp add: spool_inv_def segs_inv_def active_ok_def seg_ok_def disk_ok_def dk_lookup_def example_spool_def
      example_disk_def example_config_def example_rec_def rec_ok_def rec_size_def encoded_len_def HEADER_LEN_def
      CRC_LEN_def max_seq_def)

section \<open>Properties\<close>

lemma seq_le_max: "r \<in> set rs \<Longrightarrow> rc_sequence r \<le> max_seq rs"
proof (induction rs rule: rev_induct)
  case (snoc x xs)
  then show ?case
    by (auto simp: max_seq_append le_max_iff_disj)
qed simp

lemma inv_total: "spool_inv crc sp d rss \<Longrightarrow> sp_total_bytes sp = sum_list (map rec_size (concat rss))"
proof -
  assume "spool_inv crc sp d rss"
  then have "list_all2 (seg_ok crc (sc_max_payload_bytes (sp_config sp)) d) (sp_segments sp) rss"
    and tot: "sp_total_bytes sp = sum_list (map sg_bytes (sp_segments sp))"
    by (auto simp: spool_inv_def segs_inv_def)
  from this(1) have "sum_list (map sg_bytes (sp_segments sp)) = sum_list (map rec_size (concat rss))"
    by (induction rule: list_all2_induct) (auto simp: seg_ok_def)
  with tot show ?thesis
    by simp
qed

text \<open>
  C3. Appending refines appending to a list: a record that fits is stored last and replayed last, the
  records before it are the old ones less some oldest segments, and the count the call returns is
  the number of records evicted. The newest segment is never evicted.
\<close>

theorem append_refines:
  assumes "spool_inv crc sp d rss" and "dk_faults d = []"
    and "length payload \<le> unat (sc_max_payload_bytes (sp_config sp))"
    and "encoded_len (length payload) \<le> sc_disk_limit_bytes (sp_config sp)"
  shows "\<exists>k sp' d' rss'.
    spool_append crc sequence ts payload sp d = (Ok (length (concat (take k rss))), sp', d') \<and>
    spool_inv crc sp' d' rss' \<and> (rss \<noteq> [] \<longrightarrow> k < length rss) \<and>
    fst (replay crc sp' d') =
      concat (drop k rss) @ [\<lparr>rc_sequence = sequence, rc_timestamp_micros = ts, rc_payload = payload\<rparr>]"
proof -
  from spool_append_ok [OF assms, of sequence ts] obtain k sp' d' rss' where
    run: "spool_append crc sequence ts payload sp d = (Ok (length (concat (take k rss))), sp', d')"
    and inv: "spool_inv crc sp' d' rss'" and nf: "dk_faults d' = []"
    and recs: "concat rss' = concat (drop k rss) @
        [\<lparr>rc_sequence = sequence, rc_timestamp_micros = ts, rc_payload = payload\<rparr>]"
    and k: "rss \<noteq> [] \<longrightarrow> k < length rss"
    by blast
  have "fst (replay crc sp' d') = concat rss'"
    using replay_ok [OF inv nf] by simp
  with run inv recs k show ?thesis
    by (intro exI [of _ k] exI [of _ sp'] exI [of _ d'] exI [of _ rss']) simp
qed

theorem append_refines_witness:
  "\<exists>k sp' d' rss'. spool_append (\<lambda>_. 0) 6 1 ''b'' example_spool (example_disk []) =
      (Ok (length (concat (take k [[example_rec]]))), sp', d') \<and> spool_inv (\<lambda>_. 0) sp' d' rss'"
proof -
  have fits: "length ''b'' \<le> unat (sc_max_payload_bytes (sp_config example_spool))"
    "encoded_len (length ''b'') \<le> sc_disk_limit_bytes (sp_config example_spool)"
    "dk_faults (example_disk []) = []"
    by (simp_all add: example_disk_def example_spool_def example_config_def encoded_len_def HEADER_LEN_def CRC_LEN_def)
  show ?thesis
    using append_refines [OF example_inv fits(3,1,2), of 6 1] by blast
qed

text \<open>
  C20. The disk bound: after an append the spool holds at most the configured limit, unless a single
  segment was left to append to, which is never evicted; then it holds at most that segment and the
  record.
\<close>

theorem append_disk_bound:
  assumes "spool_inv crc sp d rss" and "dk_faults d = []"
    and "spool_append crc sequence ts payload sp d = (Ok n, sp', d')"
    and "length payload < 2 ^ 32"
  shows "sp_total_bytes sp' \<le>
    max (sc_disk_limit_bytes (sp_config sp))
      ((if rss = [] then 0 else sum_list (map rec_size (last rss))) + encoded_len (length payload))"
proof -
  let ?r = "\<lparr>rc_sequence = sequence, rc_timestamp_micros = ts, rc_payload = payload\<rparr>"
  have "\<not> sc_max_payload_bytes (sp_config sp) < u32_saturate (length payload)"
    "\<not> sc_disk_limit_bytes (sp_config sp) < encoded_len (length payload)"
    using assms(3) by (auto simp: spool_append_def Let_def split: if_splits)
  then have fits: "length payload \<le> unat (sc_max_payload_bytes (sp_config sp))"
    "encoded_len (length payload) \<le> sc_disk_limit_bytes (sp_config sp)"
    using saturate_fits [OF assms(4)] by simp_all
  obtain k rss' where k: "spool_inv crc sp' d' rss'" "concat rss' = concat (drop k rss) @ [?r]"
    "rss \<noteq> [] \<longrightarrow> k < length rss"
    "sp_total_bytes sp' \<le> sc_disk_limit_bytes (sp_config sp) \<or> length rss \<le> Suc k"
    using spool_append_ok [OF assms(1,2) fits, of sequence ts] assms(3) by auto
  have "drop k rss = [last rss]" if "rss \<noteq> []" "length rss \<le> Suc k"
    using k(3) that by (metis Suc_leI append_Nil append_butlast_last_id append_eq_conv_conj diff_Suc_1 le_antisym length_butlast)
  then have "sp_total_bytes sp' = (if rss = [] then 0 else sum_list (map rec_size (last rss))) + encoded_len (length payload)"
    if "length rss \<le> Suc k"
    using that inv_total [OF k(1)] k(2) by (auto simp: rec_size_def)
  then show ?thesis
    using k(4) by auto
qed

theorem append_disk_bound_witness:
  "\<exists>n sp' d'. spool_append (\<lambda>_. 0) 6 1 ''b'' example_spool (example_disk []) = (Ok n, sp', d') \<and>
    sp_total_bytes sp' \<le> max 64 (sum_list (map rec_size [example_rec]) + encoded_len 1)"
proof -
  have fits: "length ''b'' \<le> unat (sc_max_payload_bytes (sp_config example_spool))"
    "encoded_len (length ''b'') \<le> sc_disk_limit_bytes (sp_config example_spool)" "dk_faults (example_disk []) = []"
    by (simp_all add: example_spool_def example_config_def example_disk_def encoded_len_def HEADER_LEN_def CRC_LEN_def)
  from spool_append_ok [OF example_inv fits(3,1,2), of 6 1] obtain n sp' d' where
    run: "spool_append (\<lambda>_. 0) 6 1 ''b'' example_spool (example_disk []) = (Ok n, sp', d')"
    by blast
  show ?thesis
    using append_disk_bound [OF example_inv fits(3) run] run
    by (auto simp: example_spool_def example_config_def)
qed



end
