(* ===== verification/Spool_Rewrite.thy ===== *)
theory Spool_Rewrite
  imports Spool_Correct
begin

text \<open>
  \<open>Spool::rewrite\<close> under every pattern of I/O failures: whatever call fails, the spool and its disk
  still agree, each segment is either as it was or wholly rewritten, the segments rewritten form a
  prefix, and the active handle is the file the last segment's name points to.
\<close>

definition rewr :: "(log_record \<Rightarrow> bytes option) \<Rightarrow> log_record \<Rightarrow> log_record" where
  "rewr f r = (case f r of Some p \<Rightarrow> r\<lparr>rc_payload := p\<rparr> | None \<Rightarrow> r)"

definition changes :: "(log_record \<Rightarrow> bytes option) \<Rightarrow> log_record list \<Rightarrow> nat" where
  "changes f rs = length (filter (\<lambda>r. f r \<noteq> None) rs)"

text \<open>\<open>d'\<close> keeps what \<open>d\<close> has under every segment name; it may have new files elsewhere.\<close>

definition same_segs :: "disk \<Rightarrow> disk \<Rightarrow> bool" where
  "same_segs d d' \<longleftrightarrow>
     disk_ok d' \<and> dk_next d \<le> dk_next d' \<and>
     (\<forall>i. dk_lookup d' (segment_name i) = dk_lookup d (segment_name i)) \<and>
     (\<forall>ino < dk_next d. dk_data d' ino = dk_data d ino)"

section \<open>Calls that keep the segments\<close>

lemma same_segs_refl: "disk_ok d \<Longrightarrow> same_segs d d"
  by (simp add: same_segs_def)

lemma same_segs_trans: "same_segs a b \<Longrightarrow> same_segs b c \<Longrightarrow> same_segs a c"
  by (simp add: same_segs_def)

lemma same_segs_disk_ok: "same_segs d d' \<Longrightarrow> disk_ok d'"
  by (simp add: same_segs_def)

lemma io_call_same: "disk_ok d \<Longrightarrow> io_call d = (f, d1) \<Longrightarrow> same_segs d d1"
  by (auto simp: io_call_def same_segs_def split: list.splits)

lemma plain_call_same: "disk_ok d \<Longrightarrow> plain_call d = (res, d1) \<Longrightarrow> same_segs d d1"
  by (auto simp: plain_call_def split: prod.splits option.splits intro: io_call_same)

lemma open_existing_same:
  "disk_ok d \<Longrightarrow> open_existing n d = (res, d1) \<Longrightarrow>
   same_segs d d1 \<and> dk_dir d1 = dk_dir d \<and> dk_data d1 = dk_data d \<and> (\<forall>ino. res = Ok ino \<longrightarrow> dk_lookup d1 n = Some ino)"
  by (auto simp: open_existing_def split: prod.splits option.splits dest: io_call_same io_call_frame)

lemma file_reader_same:
  "disk_ok d \<Longrightarrow> file_reader ino d = (rd, d1) \<Longrightarrow>
   same_segs d d1 \<and> dk_dir d1 = dk_dir d \<and> dk_data d1 = dk_data d \<and> rd_data rd = dk_data d ino"
  by (auto simp: file_reader_def split: prod.splits dest: io_call_same io_call_frame)

lemma remove_staged_same:
  assumes "disk_ok d" and "\<And>i. n \<noteq> segment_name i" and "remove_file n d = (res, d1)"
  shows "same_segs d d1" and "res = Ok () \<or> res = Err NotFound \<Longrightarrow> dk_lookup d1 n = None"
proof -
  obtain f d0 where io: "io_call d = (f, d0)"
    by fastforce
  note fr = io_call_frame [OF io] and s = io_call_same [OF assms(1) io]
  have "same_segs d0 (d0\<lparr>dk_dir := AList.delete n (dk_dir d0)\<rparr>)"
    using same_segs_disk_ok [OF s] assms(2) by (auto simp: same_segs_def disk_ok_delete)
  with s show "same_segs d d1"
    using assms(3) io by (auto simp: remove_file_def split: option.splits intro: same_segs_trans)
  show "res = Ok () \<or> res = Err NotFound \<Longrightarrow> dk_lookup d1 n = None"
    using assms(3) io by (auto simp: remove_file_def split: option.splits)
qed

lemma open_new_same:
  assumes "disk_ok d" and "\<And>i. n \<noteq> segment_name i" and "open_new n d = (res, d1)"
  shows "same_segs d d1 \<and>
    (\<forall>ino. res = Ok ino \<longrightarrow> dk_lookup d1 n = Some ino \<and> dk_data d1 ino = [] \<and> dk_next d \<le> ino)"
proof -
  obtain f d0 where io: "io_call d = (f, d0)"
    by fastforce
  note fr = io_call_frame [OF io] and s = io_call_same [OF assms(1) io]
  note ok = same_segs_disk_ok [OF s]
  let ?d = "d0\<lparr>dk_dir := AList.update n (dk_next d0) (dk_dir d0), dk_data := (dk_data d0)(dk_next d0 := []),
              dk_next := Suc (dk_next d0)\<rparr>"
  have "same_segs d0 ?d"
    using disk_ok_update [OF ok fresh_not_used [OF ok], where n = "Suc (dk_next d0)" and name = n] assms(2)
    by (auto simp: same_segs_def dk_lookup_def AList.update_conv')
  with s show ?thesis
    using assms(3) io fr
    by (auto simp: open_new_def fresh_file_def dk_lookup_def AList.update_conv' split: option.splits
        intro: same_segs_trans)
qed

lemma append_fresh_same:
  assumes "disk_ok d" and "append_all ino bs d = (res, d1)" and "same_segs d0 d" and "dk_next d0 \<le> ino"
  shows "same_segs d0 d1 \<and> dk_dir d1 = dk_dir d \<and> (res = Ok () \<longrightarrow> dk_data d1 ino = dk_data d ino @ bs)"
proof -
  obtain f d2 where io: "io_call d = (f, d2)"
    by fastforce
  note fr = io_call_frame [OF io] and s = io_call_same [OF assms(1) io]
  have "same_segs d0 (d2\<lparr>dk_data := (dk_data d2)(ino := x)\<rparr>)" for x
    using same_segs_trans [OF assms(3) s] assms(4) by (auto simp: same_segs_def)
  then show ?thesis
    using assms(2) io fr by (auto simp: append_all_def split: option.splits)
qed

lemma stage_same:
  assumes "disk_ok d" and n: "\<And>i. n \<noteq> segment_name i" and st: "stage n bs d = (res, d')"
  shows "same_segs d d' \<and> (\<forall>ino. res = Ok ino \<longrightarrow> dk_lookup d' n = Some ino \<and> dk_data d' ino = bs)"
proof -
  obtain r1 d1 where rm: "remove_file n d = (r1, d1)" by fastforce
  note s1 = remove_staged_same(1) [OF assms(1) n rm]
  obtain r2 d2 where op: "open_new n d1 = (r2, d2)" by fastforce
  note s2 = open_new_same [OF same_segs_disk_ok [OF s1] n op]
  have s12: "same_segs d d2"
    using s1 s2 same_segs_trans by blast
  show ?thesis
  proof (cases "r1 = Err Eio \<or> (\<exists>e. r2 = Err e)")
    case True
    then show ?thesis
      using st rm op s1 s12 by (auto simp: stage_def split: io_error.splits sum.splits)
  next
    case False
    then obtain ino where ino: "r2 = Ok ino"
      by (cases r2) auto
    obtain r3 d3 where ap: "append_all ino bs d2 = (r3, d3)" by fastforce
    have new: "dk_next d \<le> ino" "dk_data d2 ino = []" "dk_lookup d2 n = Some ino"
      using s1 s2 ino by (auto simp: same_segs_def)
    note s3 = append_fresh_same [OF same_segs_disk_ok [OF s12] ap s12 new(1)]
    obtain r4 d4 where pl: "plain_call d3 = (r4, d4)" by fastforce
    have s4: "same_segs d3 d4" and fr: "dk_dir d4 = dk_dir d3" "dk_data d4 = dk_data d3"
      using plain_call_same [OF _ pl] s3 same_segs_disk_ok pl io_call_frame
      by (fastforce simp: plain_call_def split: prod.splits option.splits)+
    then have s34: "same_segs d d4"
      using s3 same_segs_trans by blast
    show ?thesis
    proof (cases r3)
      case (Inl e)
      with False ino st rm op ap s3 show ?thesis
        by (auto simp: stage_def split: io_error.splits sum.splits)
    next
      case (Inr u)
      with False ino st rm op ap pl s3 s34 fr new show ?thesis
        by (auto simp: stage_def dk_lookup_def split: io_error.splits sum.splits)
    qed
  qed
qed

lemma spool_inv_same:
  assumes inv: "spool_inv crc sp d rss" and s: "same_segs d d'"
  shows "spool_inv crc sp d' rss"
proof -
  note I = inv [unfolded spool_inv_def]
  have path: "sg_path seg = segment_name (sg_index seg)" if "seg \<in> set (sp_segments sp)" for seg
    using I that segs_paths by blast
  have "list_all2 (seg_ok crc (sc_max_payload_bytes (sp_config sp)) d') (sp_segments sp) rss"
  proof (rule list_all2_seg_ok_cong [of _ d' d])
    show "dk_data d' ino = dk_data d ino" if "dk_lookup d (sg_path seg) = Some ino" for seg ino
      using dk_lookup_fresh [of d "sg_path seg" ino] I s that by (simp add: segs_inv_def same_segs_def)
  qed (use I s path in \<open>auto simp: segs_inv_def same_segs_def\<close>)
  then show ?thesis
    using I s path by (auto simp: spool_inv_def segs_inv_def same_segs_def active_ok_def)
qed

section \<open>A complete read\<close>

lemma read_records_complete:
  "read_records crc mx rd = (rs, None) \<Longrightarrow>
   read_records crc mx \<lparr>rd_data = rd_data rd, rd_fail = None\<rparr> = (rs, None)"
proof (induction "length (rd_data rd)" arbitrary: rd rs rule: less_induct)
  case less
  let ?rd = "\<lparr>rd_data = rd_data rd, rd_fail = None\<rparr>"
  obtain res rd' where rr: "read_record crc mx rd = (res, rd')" by fastforce
  obtain res0 rd0 where rr0: "read_record crc mx ?rd = (res0, rd0)" by fastforce
  have ne: "res \<noteq> Err e" for e
    using less.prems rr by (subst (asm) read_records.simps) auto
  then have eq: "res = res0" "rd_data rd' = rd_data rd0"
    using read_record_like [of crc mx rd] rr rr0 by (auto simp: reads_like_def)
  have rd0: "rd0 = \<lparr>rd_data = rd_data rd', rd_fail = None\<rparr>"
    using read_record_plain [of ?rd crc mx] rr0 eq by (cases rd0) simp
  show ?case
  proof (cases res)
    case (Inr o')
    show ?thesis
    proof (cases o')
      case None
      then show ?thesis
        using less.prems rr rr0 Inr eq by (subst (asm) read_records.simps, subst read_records.simps) simp
    next
      case (Some r)
      then obtain rs' where rs: "read_records crc mx rd' = (rs', None)" "rs = r # rs'"
        using less.prems rr Inr by (subst (asm) read_records.simps) (auto split: prod.splits)
      then have "read_records crc mx rd0 = (rs', None)"
        using less.hyps [of rd' rs'] read_record_shorter [of crc mx rd r rd'] rr Some Inr by (simp add: rd0)
      moreover have "res0 = Ok (Some r)"
        using eq Some Inr by simp
      ultimately show ?thesis
        using rr0 rs by (subst read_records.simps) simp
    qed
  qed (use ne in blast)
qed

lemma read_segment_Ok:
  "read_segment crc mx rd = Ok rs \<Longrightarrow> read_records crc mx \<lparr>rd_data = rd_data rd, rd_fail = None\<rparr> = (rs, None)"
  by (rule read_records_complete)
    (auto simp: read_segment_def split: prod.splits option.splits record_error.splits)

section \<open>The new content\<close>

lemma rewrite_records_ok:
  assumes "rewrite_records crc mx f rs out n = Ok (out', n')" and "list_all (rec_ok mx) rs"
    and small: "\<And>r p. f r = Some p \<Longrightarrow> length p < 2 ^ 32"
  shows "out' = out @ concat (map (rec_bytes crc) (map (rewr f) rs)) \<and> n' = n + changes f rs \<and>
    list_all (rec_ok mx) (map (rewr f) rs)"
  using assms(1,2)
proof (induction rs arbitrary: out n)
  case Nil
  then show ?case by (simp add: changes_def)
next
  case (Cons r rs)
  have enc: "encode_into crc out (rc_sequence r) (rc_timestamp_micros r) p = out @ rec_bytes crc (r\<lparr>rc_payload := p\<rparr>)"
    for p out
    by (simp add: rec_bytes_def encode_def encode_into_def Let_def)
  show ?case
  proof (cases "f r")
    case None
    then show ?thesis
      using Cons.IH [of "out @ rec_bytes crc r" n] Cons.prems enc [of out "rc_payload r"]
      by (simp add: rewr_def changes_def)
  next
    case (Some p)
    then have "\<not> mx < u32_saturate (length p)"
      using Cons.prems by (auto split: if_splits)
    moreover have "rec_ok mx (r\<lparr>rc_payload := p\<rparr>)"
      using calculation saturate_fits [OF small [OF Some]] by (simp add: rec_ok_def)
    ultimately show ?thesis
      using Cons.IH [of "out @ rec_bytes crc (r\<lparr>rc_payload := p\<rparr>)" "n + 1"] Cons.prems Some enc [of out p]
      by (simp add: rewr_def changes_def)
  qed
qed

lemma max_seq_rewr: "max_seq (map (rewr f) rs) = max_seq rs"
proof -
  have "rc_sequence (rewr f r) = rc_sequence r" for r
    by (simp add: rewr_def split: option.split)
  then show ?thesis
    by (simp add: max_seq_def fold_map comp_def)
qed

lemma rewr_unchanged: "changes f rs = 0 \<Longrightarrow> map (rewr f) rs = rs"
  by (induction rs) (auto simp: changes_def rewr_def split: if_splits option.splits)

section \<open>The commit point\<close>

text \<open>Renaming a staged file of good records over a segment replaces that segment's records.\<close>

lemma commit_inv:
  fixes b :: bool
  assumes inv: "spool_inv crc sp d rss" and pos: "p < length rss"
    and ren: "rename_file n (sg_path (sp_segments sp ! p)) d = (Ok (), d')"
    and new: "dk_lookup d n = Some ino" "dk_data d ino = concat (map (rec_bytes crc) (map (rewr f) (rss ! p)))"
    and n: "\<And>i. n \<noteq> segment_name i"
    and ok: "list_all (rec_ok (sc_max_payload_bytes (sp_config sp))) (map (rewr f) (rss ! p))"
    and len: "len = length (concat (map (rec_bytes crc) (map (rewr f) (rss ! p))))"
  defines "sp' \<equiv> sp\<lparr>sp_total_bytes := sp_total_bytes sp - sg_bytes (sp_segments sp ! p) + len,
      sp_segments := (sp_segments sp)[p := (sp_segments sp ! p)\<lparr>sg_bytes := len\<rparr>],
      sp_active := (if p = length (sp_segments sp) - 1 then Some ino else sp_active sp),
      sp_dir_sync_pending := b\<rparr>"
  shows "spool_inv crc sp' d' (rss[p := map (rewr f) (rss ! p)])"
proof -
  let ?segs = "sp_segments sp" and ?mx = "sc_max_payload_bytes (sp_config sp)"
  let ?seg = "?segs ! p" and ?segs' = "(sp_segments sp)[p := (sp_segments sp ! p)\<lparr>sg_bytes := len\<rparr>]"
  have okd: "disk_ok d" and all: "list_all2 (seg_ok crc ?mx d) ?segs rss"
    and srt: "sorted_wrt (<) (map sg_index ?segs)"
    and exact: "\<And>i. dk_lookup d (segment_name i) \<noteq> None \<Longrightarrow> i \<in> sg_index ` set ?segs"
    and tot: "sp_total_bytes sp = sum_list (map sg_bytes ?segs)"
    and idxb: "\<And>s. s \<in> set ?segs \<Longrightarrow> sg_index s < sp_next_index sp" and act: "active_ok ?segs (sp_active sp) d"
    using inv by (auto simp: spool_inv_def segs_inv_def)
  have lens: "length ?segs = length rss" and p: "p < length ?segs"
    using all pos by (auto dest: list_all2_lengthD)
  have path: "sg_path s = segment_name (sg_index s)" if "s \<in> set ?segs" for s
    using inv that segs_paths by (auto simp: spool_inv_def)
  have pathp: "sg_path ?seg = segment_name (sg_index ?seg)"
    using path p by simp
  have idx: "map sg_index ?segs' = map sg_index ?segs"
    using p by (simp add: map_update list_update_same_conv)
  then have img: "sg_index ` set ?segs' = sg_index ` set ?segs"
    by (metis list.set_map)
  have dist: "i = j" if "i < length ?segs" "j < length ?segs" "sg_index (?segs ! i) = sg_index (?segs ! j)" for i j
    using that srt by (metis length_map nth_eq_iff_index_eq nth_map strict_sorted_iff)
  have r: "disk_ok d'" "dk_lookup d' = (dk_lookup d)(n := None, sg_path ?seg := Some ino)" "dk_data d' = dk_data d"
    using rename_staged [OF okd ren new(1)] n [of "sg_index ?seg"] by (simp_all add: pathp)
  have segs': "list_all2 (seg_ok crc ?mx d') ?segs' (rss[p := map (rewr f) (rss ! p)])"
  proof (rule list_all2_all_nthI)
    fix i
    assume "i < length ?segs'"
    then have i: "i < length ?segs" by simp
    have old: "seg_ok crc ?mx d (?segs ! i) (rss ! i)"
      using all i by (simp add: list_all2_nthD)
    show "seg_ok crc ?mx d' (?segs' ! i) (rss[p := map (rewr f) (rss ! p)] ! i)"
    proof (cases "i = p")
      case True
      then show ?thesis
        using old ok new len p pos r
        by (simp add: seg_ok_def max_seq_rewr length_concat_recs pathp del: map_map)
    next
      case False
      then have "sg_path (?segs ! i) \<noteq> sg_path ?seg" "sg_path (?segs ! i) \<noteq> n"
        using dist [OF i p] path [of "?segs ! i"] i n [of "sg_index (?segs ! i)"] by (auto simp: pathp)
      then show ?thesis
        using old False r by (subst seg_ok_cong [of d' _ d]) simp_all
    qed
  qed (use lens in simp)
  have exact': "i \<in> sg_index ` set ?segs'" if i: "dk_lookup d' (segment_name i) \<noteq> None" for i
  proof (cases "i = sg_index ?seg")
    case False
    then show ?thesis
      using i r(2) n [of i] exact [of i] unfolding img pathp by (auto split: if_splits)
  qed (use p in \<open>simp add: img\<close>)
  have tot': "sp_total_bytes sp - sg_bytes ?seg + len = sum_list (map sg_bytes ?segs')"
    using tot p sum_list_update [of p "map sg_bytes ?segs" len] member_le_sum_list [of "sg_bytes ?seg" "map sg_bytes ?segs"]
    by (simp add: map_update)
  have act': "active_ok ?segs' (sp_active sp') d'"
  proof -
    have "?segs \<noteq> []"
      using p by auto
    then have l: "last ?segs = ?segs ! (length ?segs - 1)" "last ?segs' = ?segs' ! (length ?segs - 1)" "?segs \<noteq> []"
      by (simp_all add: last_conv_nth)
    have "sg_path (last ?segs) \<noteq> sg_path ?seg" if "p \<noteq> length ?segs - 1"
      using dist [of "length ?segs - 1" p] that p path [of "last ?segs"] l by (auto simp: pathp)
    moreover have "sg_path (last ?segs) \<noteq> n"
      using n path [of "last ?segs"] l(3) by (metis last_in_set)
    ultimately show ?thesis
      using act r(2) l p by (simp add: active_ok_def sp'_def)
  qed
  have "\<forall>s \<in> set ?segs'. sg_index s < sp_next_index sp"
    using idxb img by (metis imageE imageI)
  then show ?thesis
    using r(1) segs' exact' tot' act' srt idx by (simp add: spool_inv_def segs_inv_def sp'_def)
qed

section \<open>Whole rewrites\<close>

lemma sync_dir_same:
  assumes "spool_inv crc sp d rss" and "sync_dir sp d = (res, sp', d')"
  shows "spool_inv crc sp' d' rss \<and> sp_config sp' = sp_config sp"
proof -
  have ok: "disk_ok d"
    using assms(1) by (simp add: spool_inv_def segs_inv_def)
  obtain r1 d1 where 1: "plain_call d = (r1, d1)" by fastforce
  obtain r2 d2 where 2: "plain_call d1 = (r2, d2)" by fastforce
  note s1 = plain_call_same [OF ok 1]
  note s2 = same_segs_trans [OF s1 plain_call_same [OF same_segs_disk_ok [OF s1] 2]]
  have "spool_inv crc (sp\<lparr>sp_dir_sync_pending := False\<rparr>) d2 rss"
    using spool_inv_same [OF assms(1) s2] by (simp add: spool_inv_def)
  then show ?thesis
    using assms(2) 1 2 spool_inv_same [OF assms(1) s1] spool_inv_same [OF assms(1) s2]
    by (auto simp: sync_dir_def split: sum.splits)
qed

lemma rename_failed_same: "disk_ok d \<Longrightarrow> rename_file a b d = (Err e, d') \<Longrightarrow> same_segs d d'"
  by (auto simp: rename_file_def split: prod.splits option.splits intro: io_call_same)

lemma replace_segment_any:
  assumes inv: "spool_inv crc sp d rss" and p: "p < length rss"
    and out: "out = concat (map (rec_bytes crc) (map (rewr f) (rss ! p)))"
    and good: "list_all (rec_ok (sc_max_payload_bytes (sp_config sp))) (map (rewr f) (rss ! p))"
    and run: "replace_segment out ch p sp d = (res, sp', d')"
  shows "sp_config sp' = sp_config sp \<and>
    (spool_inv crc sp' d' (rss[p := map (rewr f) (rss ! p)]) \<or> isl res \<and> spool_inv crc sp' d' rss) \<and>
    (\<forall>n. res = Ok n \<longrightarrow> n = ch)"
proof -
  let ?path = "sg_path (sp_segments sp ! p)"
  let ?n = "?path @ REWRITE_SUFFIX"
  have ok: "disk_ok d" and n: "?n \<noteq> segment_name i" for i
    using inv p by (auto simp: spool_inv_def segs_inv_def seg_ok_def list_all2_conv_all_nth)
  obtain r3 d3 where 3: "stage ?n out d = (r3, d3)" by fastforce
  note s3 = stage_same [OF ok n 3]
  note i3 = spool_inv_same [OF inv conjunct1 [OF s3]] and ok3 = same_segs_disk_ok [OF conjunct1 [OF s3]]
  have clean: "spool_inv crc sp (snd (remove_file ?n x)) rss" if "spool_inv crc sp x rss" for x
  proof -
    obtain r y where rm: "remove_file ?n x = (r, y)" by fastforce
    have "disk_ok x"
      using that by (simp add: spool_inv_def segs_inv_def)
    from spool_inv_same [OF that remove_staged_same(1) [OF this n rm]] rm show ?thesis
      by simp
  qed
  show ?thesis
  proof (cases r3)
    case (Inl e)
    then show ?thesis
      using run 3 clean [OF i3] by (auto simp: replace_segment_def Let_def)
  next
    case staged: (Inr new)
    obtain r4 d4 where 4: "rename_file ?n ?path d3 = (r4, d4)" by fastforce
    show ?thesis
    proof (cases r4)
      case (Inl e)
      then show ?thesis
        using run 3 4 staged clean [OF spool_inv_same [OF i3 rename_failed_same [OF ok3]]]
        by (auto simp: replace_segment_def Let_def)
    next
      case (Inr u)
      let ?sp = "sp\<lparr>sp_total_bytes := sp_total_bytes sp - sg_bytes (sp_segments sp ! p) + length out,
        sp_segments := (sp_segments sp)[p := (sp_segments sp ! p)\<lparr>sg_bytes := length out\<rparr>],
        sp_active := (if p = length (sp_segments sp) - 1 then Some new else sp_active sp),
        sp_dir_sync_pending := True\<rparr>"
      have rn: "rename_file ?n ?path d3 = (Ok (), d4)"
        using 4 Inr by simp
      have "dk_lookup d3 ?n = Some new" "dk_data d3 new = out"
        using s3 staged by auto
      then have c: "spool_inv crc ?sp d4 (rss[p := map (rewr f) (rss ! p)])"
        using rn n good by (intro commit_inv [OF i3 p]) (simp_all only: out)
      obtain r5 sp5 d5 where 5: "sync_dir ?sp d4 = (r5, sp5, d5)"
        by (metis prod.exhaust)
      have "(res, sp', d') = (case r5 of Err e \<Rightarrow> (Err e, sp5, d5) | Ok _ \<Rightarrow> (Ok ch, sp5, d5))"
        using run 3 4 5 staged Inr by (simp add: replace_segment_def Let_def split: sum.splits)
      then show ?thesis
        using sync_dir_same [OF c 5] by (cases r5) auto
    qed
  qed
qed

lemma rewrite_segment_any:
  assumes inv: "spool_inv crc sp d rss" and p: "p < length rss"
    and small: "\<And>r p. f r = Some p \<Longrightarrow> length p < 2 ^ 32"
    and run: "rewrite_segment crc f p sp d = (res, sp', d')"
  shows "sp_config sp' = sp_config sp \<and>
    (spool_inv crc sp' d' (rss[p := map (rewr f) (rss ! p)]) \<or> isl res \<and> spool_inv crc sp' d' rss) \<and>
    (\<forall>n. res = Ok n \<longrightarrow> n = changes f (rss ! p))"
proof -
  let ?path = "sg_path (sp_segments sp ! p)" and ?mx = "sc_max_payload_bytes (sp_config sp)"
  have ok: "disk_ok d" and seg: "seg_ok crc ?mx d (sp_segments sp ! p) (rss ! p)"
    using inv p by (auto simp: spool_inv_def segs_inv_def list_all2_conv_all_nth)
  obtain r1 d1 where 1: "open_existing ?path d = (r1, d1)" by fastforce
  note s1 = open_existing_same [OF ok 1]
  show ?thesis
  proof (cases r1)
    case (Inl e)
    then show ?thesis
      using run 1 s1 spool_inv_same [OF inv] by (auto simp: rewrite_segment_def Let_def)
  next
    case (Inr ino)
    obtain rd d2 where 2: "file_reader ino d1 = (rd, d2)" by fastforce
    note s2 = file_reader_same [OF same_segs_disk_ok 2]
    have s12: "same_segs d d2" and data: "rd_data rd = concat (map (rec_bytes crc) (rss ! p))"
      using s1 s2 Inr seg by (auto intro: same_segs_trans simp: seg_ok_def dk_lookup_def)
    note i2 = spool_inv_same [OF inv s12]
    have rs: "read_segment crc ?mx rd = Ok (rss ! p)" if "read_segment crc ?mx rd = Ok rs" for rs
      using read_segment_Ok [OF that] data seg that by (simp add: read_records_concat seg_ok_def)
    have good: "out = concat (map (rec_bytes crc) (map (rewr f) (rss ! p))) \<and> ch = changes f (rss ! p) \<and>
        list_all (rec_ok ?mx) (map (rewr f) (rss ! p))"
      if "rewrite_records crc ?mx f (rss ! p) [] 0 = Ok (out, ch)" for out ch
      using rewrite_records_ok [OF that _ small] seg by (auto simp: seg_ok_def)
    consider (bad) e where "read_segment crc ?mx rd = Err e"
      | (large) e where "read_segment crc ?mx rd = Ok (rss ! p)" "rewrite_records crc ?mx f (rss ! p) [] 0 = Err e"
      | (new) out ch where "read_segment crc ?mx rd = Ok (rss ! p)" "rewrite_records crc ?mx f (rss ! p) [] 0 = Ok (out, ch)"
      using rs by (metis obj_sumE prod.exhaust)
    then show ?thesis
    proof cases
      case new
      show ?thesis
      proof (cases "ch = 0")
        case True
        then show ?thesis
          using run 1 2 Inr i2 new good [OF new(2)] rewr_unchanged [of f "rss ! p"]
          by (auto simp: rewrite_segment_def Let_def)
      next
        case False
        then have "replace_segment out ch p sp d2 = (res, sp', d')"
          using run 1 2 Inr new by (simp add: rewrite_segment_def Let_def)
        then show ?thesis
          using replace_segment_any [OF i2 p, of out f ch res sp' d'] good [OF new(2)] by simp
      qed
    qed (use run 1 2 Inr i2 in \<open>auto simp: rewrite_segment_def Let_def\<close>)
  qed
qed

text \<open>The records after the first \<open>k\<close> segments have been rewritten.\<close>

definition rewritten :: "(log_record \<Rightarrow> bytes option) \<Rightarrow> nat \<Rightarrow> log_record list list \<Rightarrow> log_record list list" where
  "rewritten f k rss = map (map (rewr f)) (take k rss) @ drop k rss"

lemma rewritten_step:
  "k < length rss \<Longrightarrow>
   rewritten f k rss ! k = rss ! k \<and> (rewritten f k rss)[k := map (rewr f) (rss ! k)] = rewritten f (Suc k) rss"
  by (auto simp: rewritten_def nth_append list_update_append take_Suc_conv_app_nth
      simp flip: Cons_nth_drop_Suc)

lemma rewrite_from_any:
  assumes "spool_inv crc sp d (rewritten f p rss)" and "p \<le> length rss"
    and small: "\<And>r q. f r = Some q \<Longrightarrow> length q < 2 ^ 32"
    and "rewrite_from crc f [p..<length rss] n sp d = (res, sp', d')"
  shows "\<exists>k \<le> length rss. spool_inv crc sp' d' (rewritten f k rss) \<and> p \<le> k \<and> sp_config sp' = sp_config sp \<and>
    (\<forall>m. res = Ok m \<longrightarrow> k = length rss \<and> m = n + changes f (concat (drop p rss)))"
  using assms(1,2,4)
proof (induction "length rss - p" arbitrary: p n sp d)
  case 0
  then show ?case
    by (auto simp: changes_def)
next
  case (Suc j)
  then have p: "p < length rss" and upt: "[p..<length rss] = p # [Suc p..<length rss]"
    by (simp_all add: upt_conv_Cons)
  obtain r1 sp1 d1 where 1: "rewrite_segment crc f p sp d = (r1, sp1, d1)"
    by (metis prod.exhaust)
  have "p < length (rewritten f p rss)"
    using p by (simp add: rewritten_def)
  from rewrite_segment_any [OF Suc.prems(1) this small 1]
  have s: "sp_config sp1 = sp_config sp" "\<And>m. r1 = Ok m \<Longrightarrow> m = changes f (rss ! p)"
    and i: "spool_inv crc sp1 d1 (rewritten f (Suc p) rss) \<or> isl r1 \<and> spool_inv crc sp1 d1 (rewritten f p rss)"
    using rewritten_step [OF p] by auto
  show ?case
  proof (cases r1)
    case (Inl e)
    then have "res = Err e \<and> sp' = sp1 \<and> d' = d1"
      using Suc.prems(3) 1 by (simp add: upt)
    moreover obtain k where "k \<le> length rss" "p \<le> k" "spool_inv crc sp1 d1 (rewritten f k rss)"
    proof (cases "spool_inv crc sp1 d1 (rewritten f (Suc p) rss)")
      case True
      then show ?thesis using that [of "Suc p"] p by simp
    next
      case False
      then show ?thesis using that [of p] i p by simp
    qed
    ultimately show ?thesis
      using s(1) by (intro exI [of _ k]) simp
  next
    case (Inr m)
    then have run: "rewrite_from crc f [Suc p..<length rss] (n + m) sp1 d1 = (res, sp', d')"
      using Suc.prems(3) 1 by (simp add: upt)
    have inv: "spool_inv crc sp1 d1 (rewritten f (Suc p) rss)"
      using i Inr by simp
    have "changes f (concat (drop p rss)) = m + changes f (concat (drop (Suc p) rss))"
      using s(2) [OF Inr] p by (simp add: changes_def flip: Cons_nth_drop_Suc)
    moreover have "j = length rss - Suc p" "Suc p \<le> length rss"
      using Suc.hyps(2) p by simp_all
    from Suc.hyps(1) [OF this(1) inv this(2) run] obtain k where
      "k \<le> length rss" "spool_inv crc sp' d' (rewritten f k rss)" "Suc p \<le> k" "sp_config sp' = sp_config sp1"
      "\<forall>m'. res = Ok m' \<longrightarrow> k = length rss \<and> m' = n + m + changes f (concat (drop (Suc p) rss))"
      by blast
    ultimately show ?thesis
      using s(1) by (intro exI [of _ k]) (simp add: add.assoc)
  qed
qed

section \<open>Properties\<close>

text \<open>
  C2. Whatever I/O call fails during a rewrite, the spool and its directory still agree, and there is
  a number of segments such that exactly those, the oldest, are wholly rewritten and every later one
  is as it was; the append handle is the last segment's file. A rewrite that reports success has
  rewritten every segment and counts the records it replaced.
\<close>

theorem rewrite_atomic:
  assumes "spool_inv crc sp d rss" and "\<forall>r q. f r = Some q \<longrightarrow> length q < 2 ^ 32"
    and "spool_rewrite crc f sp d = (res, sp', d')"
  shows "\<exists>k \<le> length rss. spool_inv crc sp' d' (rewritten f k rss) \<and>
    (\<forall>n. res = Ok n \<longrightarrow> k = length rss \<and> n = changes f (concat rss))"
proof -
  have "length (sp_segments sp) = length rss"
    using assms(1) by (auto simp: spool_inv_def segs_inv_def dest: list_all2_lengthD)
  then have "rewrite_from crc f [0..<length rss] 0 sp d = (res, sp', d')"
    using assms(3) by (simp add: spool_rewrite_def)
  moreover have "spool_inv crc sp d (rewritten f 0 rss)"
    using assms(1) by (simp add: rewritten_def)
  ultimately show ?thesis
    using rewrite_from_any [of crc sp d f 0 rss 0 res sp' d'] assms(2) by auto
qed

theorem rewrite_atomic_witness:
  "let run = spool_rewrite (\<lambda>_. 0) (\<lambda>r. Some ''xyz'') example_spool (example_disk [None, None, None, Some 2])
   in \<exists>k \<le> 1. spool_inv (\<lambda>_. 0) (fst (snd run)) (snd (snd run)) (rewritten (\<lambda>r. Some ''xyz'') k [[example_rec]])"
proof -
  obtain res sp' d' where run: "spool_rewrite (\<lambda>_. 0) (\<lambda>r. Some ''xyz'') example_spool
      (example_disk [None, None, None, Some 2]) = (res, sp', d')"
    by (metis prod.exhaust)
  have "\<forall>r q. Some ''xyz'' = Some q \<longrightarrow> length q < 2 ^ 32"
    by simp
  from rewrite_atomic [OF example_inv this run] show ?thesis
    unfolding run Let_def by auto
qed

end
