(* ===== verification/Spool_Recovery.thy ===== *)
theory Spool_Recovery
  imports Spool_Correct
begin

text \<open>
  Opening a spool on what a crash left.

  A segment file is whole records, possibly followed by a strict prefix of one more (\<open>torn\<close>). Opening
  a directory of such files, in any directory order and with stale rewrites about, heals every
  segment to its whole records and yields a spool that satisfies \<open>spool_inv\<close> for exactly those.
\<close>

definition torn :: "(bytes \<Rightarrow> u32) \<Rightarrow> u32 \<Rightarrow> bytes \<Rightarrow> log_record list \<Rightarrow> bool \<Rightarrow> bool" where
  "torn crc mx bs rs t \<longleftrightarrow>
     list_all (rec_ok mx) rs \<and>
     (if t then \<exists>r k. rec_ok mx r \<and> 0 < k \<and> k < length (rec_bytes crc r) \<and>
        bs = concat (map (rec_bytes crc) rs) @ take k (rec_bytes crc r)
      else bs = concat (map (rec_bytes crc) rs))"

definition recovered_segment :: "(nat \<Rightarrow> log_record list) \<Rightarrow> nat \<Rightarrow> segment" where
  "recovered_segment RS i =
     \<lparr>sg_index = i, sg_path = segment_name i, sg_max_sequence = max_seq (RS i), sg_records = length (RS i),
      sg_bytes = sum_list (map rec_size (RS i))\<rparr>"

definition segment_indices :: "disk \<Rightarrow> nat list" where
  "segment_indices d = sort (List.map_filter parse_segment_index (map fst (dk_dir d)))"

text \<open>No two names of the directory read as the same segment: every segment has the name it is given.\<close>

definition canonical_names :: "disk \<Rightarrow> bool" where
  "canonical_names d \<longleftrightarrow>
     list_all (\<lambda>n. case parse_segment_index n of Some i \<Rightarrow> n = segment_name i | None \<Rightarrow> True) (map fst (dk_dir d))"

text \<open>A directory a crash left: one segment with one whole record and five bytes of the next.\<close>

definition torn_disk :: disk where
  "torn_disk =
     (example_disk [])\<lparr>dk_data := (\<lambda>_. [])(0 := rec_bytes (\<lambda>_. 0) example_rec @ take 5 (rec_bytes (\<lambda>_. 0) example_rec))\<rparr>"

section \<open>One segment\<close>

lemma scan_and_heal_torn:
  assumes "dk_faults d = []" and "dk_lookup d n = Some ino" and "torn crc mx (dk_data d ino) rs t"
  shows "scan_and_heal crc n mx d =
    (Ok (scan_of rs (if t then Some Truncated else None)),
     d\<lparr>dk_data := (dk_data d)(ino := concat (map (rec_bytes crc) rs))\<rparr>)"
proof -
  have rr: "read_records crc mx \<lparr>rd_data = dk_data d ino, rd_fail = None\<rparr> = (rs, if t then Some Truncated else None)"
    using assms(3) read_records_concat read_records_torn by (auto simp: torn_def split: if_splits)
  have len: "sr_valid_bytes (scan_of rs e) = length (concat (map (rec_bytes crc) rs))" for e
    by (simp add: scan_of_def length_concat_recs)
  have pre: "take (length (concat (map (rec_bytes crc) rs))) (dk_data d ino) = concat (map (rec_bytes crc) rs)"
    using assms(3) by (auto simp: torn_def split: if_splits)
  show ?thesis
  proof (cases "length (concat (map (rec_bytes crc) rs)) < length (dk_data d ino)")
    case True
    then show ?thesis
      using assms(1,2) rr pre
      by (simp add: scan_and_heal_def open_existing_def plain_call_def file_reader_def set_len_def len)
  next
    case False
    then have "dk_data d ino = concat (map (rec_bytes crc) rs)"
      using pre by simp
    then have "d\<lparr>dk_data := (dk_data d)(ino := concat (map (rec_bytes crc) rs))\<rparr> = d"
      by (metis disk.surjective disk.update_convs(2) fun_upd_triv)
    with False show ?thesis
      using assms(1,2) rr
      by (simp add: scan_and_heal_def open_existing_def plain_call_def file_reader_def len)
  qed
qed

section \<open>Every segment\<close>

definition opened ::
  "(bytes \<Rightarrow> u32) \<Rightarrow> (nat \<Rightarrow> log_record list) \<Rightarrow> (nat \<Rightarrow> bool) \<Rightarrow> nat list \<Rightarrow> spool \<Rightarrow> disk \<Rightarrow> spool \<Rightarrow> disk \<Rightarrow> bool" where
  "opened crc RS T is sp d sp' d' \<longleftrightarrow>
     sp_segments sp' = sp_segments sp @ map (recovered_segment RS) is \<and>
     sp_total_bytes sp' = sp_total_bytes sp + sum_list (map (\<lambda>i. sum_list (map rec_size (RS i))) is) \<and>
     sp_next_index sp' = (if is = [] then sp_next_index sp else last is + 1) \<and>
     sp_truncated_tail sp' = (sp_truncated_tail sp \<or> list_ex T is) \<and>
     sp_corrupt_segments sp' = sp_corrupt_segments sp \<and> sp_config sp' = sp_config sp \<and>
     sp_active sp' = sp_active sp \<and> sp_dir_sync_pending sp' = sp_dir_sync_pending sp \<and>
     dk_dir d' = dk_dir d \<and> dk_next d' = dk_next d \<and> dk_faults d' = [] \<and>
     (\<forall>i \<in> set is. \<forall>ino. dk_lookup d (segment_name i) = Some ino \<longrightarrow>
        dk_data d' ino = concat (map (rec_bytes crc) (RS i))) \<and>
     (\<forall>ino. (\<forall>i \<in> set is. dk_lookup d (segment_name i) \<noteq> Some ino) \<longrightarrow> dk_data d' ino = dk_data d ino)"

lemma open_segments_torn:
  assumes "disk_ok d" and "dk_faults d = []" and "distinct is"
    and "\<And>i. i \<in> set is \<Longrightarrow> \<exists>ino. dk_lookup d (segment_name i) = Some ino \<and>
      torn crc (sc_max_payload_bytes (sp_config sp)) (dk_data d ino) (RS i) (T i)"
  shows "\<exists>sp' d'. open_segments crc is sp d = (Ok sp', d') \<and> opened crc RS T is sp d sp' d'"
  using assms
proof (induction "is" arbitrary: sp d)
  case Nil
  then show ?case
    by (auto simp: opened_def)
next
  case (Cons i "is")
  let ?mx = "sc_max_payload_bytes (sp_config sp)"
  obtain ino where ino: "dk_lookup d (segment_name i) = Some ino" "torn crc ?mx (dk_data d ino) (RS i) (T i)"
    using Cons.prems(4) by auto
  let ?scan = "scan_of (RS i) (if T i then Some Truncated else None)"
  let ?d = "d\<lparr>dk_data := (dk_data d)(ino := concat (map (rec_bytes crc) (RS i)))\<rparr>"
  let ?sp = "sp\<lparr>sp_corrupt_segments := sp_corrupt_segments sp + (if sr_corrupt ?scan then 1 else 0),
       sp_truncated_tail := sp_truncated_tail sp \<or> sr_truncated ?scan,
       sp_total_bytes := sp_total_bytes sp + sr_valid_bytes ?scan, sp_next_index := i + 1,
       sp_segments := sp_segments sp @
         [\<lparr>sg_index = i, sg_path = segment_name i, sg_max_sequence = sr_max_sequence ?scan,
           sg_records = sr_records ?scan, sg_bytes = sr_valid_bytes ?scan\<rparr>]\<rparr>"
  have step: "open_segments crc (i # is) sp d = open_segments crc is ?sp ?d"
    by (simp only: open_segments.simps scan_and_heal_torn [OF Cons.prems(2) ino] prod.case sum.case)
  have other: "dk_lookup d (segment_name j) \<noteq> Some ino" if "j \<in> set is" for j
    using dk_lookup_inj [OF Cons.prems(1) ino(1), of "segment_name j"] Cons.prems(3) that by auto
  have "\<exists>no. dk_lookup ?d (segment_name j) = Some no \<and> torn crc (sc_max_payload_bytes (sp_config ?sp)) (dk_data ?d no) (RS j) (T j)"
    if "j \<in> set is" for j
    using Cons.prems(4) [of j] other [of j] that by auto
  then obtain sp' d' where rest: "open_segments crc is ?sp ?d = (Ok sp', d')" "opened crc RS T is ?sp ?d sp' d'"
    using Cons.IH [of ?d ?sp] Cons.prems by auto
  have "sr_valid_bytes ?scan = sum_list (map rec_size (RS i))" "sr_max_sequence ?scan = max_seq (RS i)"
    "sr_records ?scan = length (RS i)" "\<not> sr_corrupt ?scan" "sr_truncated ?scan = T i"
    by (simp_all add: scan_of_def max_seq_def)
  then have "opened crc RS T (i # is) sp d sp' d'"
    using rest(2) ino(1) other by (auto simp: opened_def recovered_segment_def)
  then show ?case
    using step rest(1) by auto
qed

section \<open>The directory walk\<close>

lemma walk_entries_ok:
  assumes "dk_faults d = []" and "disk_ok d" and "distinct names" and "\<And>n. n \<in> set names \<Longrightarrow> dk_lookup d n \<noteq> None"
  shows "\<exists>d'. walk_entries names acc d = (Ok (acc @ List.map_filter parse_segment_index names), d') \<and>
    disk_ok d' \<and> dk_faults d' = [] \<and> dk_data d' = dk_data d \<and> dk_next d' = dk_next d \<and>
    (\<forall>n. parse_segment_index n \<noteq> None \<longrightarrow> dk_lookup d' n = dk_lookup d n) \<and>
    (\<forall>n. dk_lookup d' n \<noteq> None \<longrightarrow> dk_lookup d n \<noteq> None)"
  using assms
proof (induction names arbitrary: acc d)
  case Nil
  then show ?case by (simp add: List.map_filter_simps)
next
  case (Cons n names)
  show ?case
  proof (cases "parse_segment_index n")
    case (Some i)
    then show ?thesis
      using Cons.IH [of d "acc @ [i]"] Cons.prems by (auto simp: List.map_filter_simps)
  next
    case None
    show ?thesis
    proof (cases "is_stale_rewrite n")
      case False
      then show ?thesis
        using Cons.IH [of d acc] Cons.prems None by (auto simp: List.map_filter_simps)
    next
      case True
      let ?d = "d\<lparr>dk_dir := AList.delete n (dk_dir d)\<rparr>"
      have rm: "remove_file n d = (Ok (), ?d)"
        using Cons.prems by (intro remove_file_ok) auto
      have "disk_ok ?d" "\<And>m. m \<in> set names \<Longrightarrow> dk_lookup ?d m \<noteq> None"
        using Cons.prems disk_ok_delete by auto
      then obtain d' where d': "walk_entries names acc ?d = (Ok (acc @ List.map_filter parse_segment_index names), d')"
        "disk_ok d'" "dk_faults d' = []" "dk_data d' = dk_data d" "dk_next d' = dk_next d"
        "\<forall>m. parse_segment_index m \<noteq> None \<longrightarrow> dk_lookup d' m = dk_lookup ?d m"
        "\<forall>m. dk_lookup d' m \<noteq> None \<longrightarrow> dk_lookup ?d m \<noteq> None"
        using Cons.IH [of ?d acc] Cons.prems by auto
      moreover have "\<forall>m. parse_segment_index m \<noteq> None \<longrightarrow> dk_lookup d' m = dk_lookup d m"
        using d'(6) None by auto
      moreover have "\<forall>m. dk_lookup d' m \<noteq> None \<longrightarrow> dk_lookup d m \<noteq> None"
        using d'(7) by (metis dk_lookup_delete)
      ultimately show ?thesis
        using None True rm by (intro exI [of _ d']) (simp add: List.map_filter_simps)
    qed
  qed
qed

lemma distinct_map_filter_inj:
  "distinct xs \<Longrightarrow> (\<And>x y i. x \<in> set xs \<Longrightarrow> y \<in> set xs \<Longrightarrow> f x = Some i \<Longrightarrow> f y = Some i \<Longrightarrow> x = y) \<Longrightarrow>
   distinct (List.map_filter f xs)"
proof (induction xs)
  case (Cons x xs)
  then have "distinct (List.map_filter f xs)"
    by simp
  moreover have "f x = Some i \<Longrightarrow> i \<notin> set (List.map_filter f xs)" for i
    using Cons.prems by (fastforce simp: List.map_filter_def)
  ultimately show ?case
    by (auto simp: List.map_filter_simps split: option.splits)
qed (simp add: List.map_filter_simps)

lemma dk_lookup_names: "dk_lookup d n \<noteq> None \<longleftrightarrow> n \<in> set (map fst (dk_dir d))"
  by (simp add: dk_lookup_def map_of_eq_None_iff image_iff)

lemma canonical_name:
  assumes "canonical_names d" and "n \<in> set (map fst (dk_dir d))" and "parse_segment_index n = Some i"
  shows "n = segment_name i"
proof -
  have "case parse_segment_index n of Some i \<Rightarrow> n = segment_name i | None \<Rightarrow> True"
    using assms(1,2) unfolding canonical_names_def list_all_iff by (rule bspec)
  then show ?thesis
    unfolding assms(3) by simp
qed

lemma segment_indices_set:
  assumes "canonical_names d" and "\<And>i. dk_lookup d (segment_name i) \<noteq> None \<Longrightarrow> i < 2 ^ 64"
  shows "i \<in> set (segment_indices d) \<longleftrightarrow> dk_lookup d (segment_name i) \<noteq> None"
proof
  assume "i \<in> set (segment_indices d)"
  then obtain n where "n \<in> set (map fst (dk_dir d))" "parse_segment_index n = Some i"
    by (force simp: segment_indices_def List.map_filter_def)
  with assms(1) show "dk_lookup d (segment_name i) \<noteq> None"
    unfolding dk_lookup_names using canonical_name by metis
next
  assume i: "dk_lookup d (segment_name i) \<noteq> None"
  then have "parse_segment_index (segment_name i) = Some i"
    using assms(2) by (intro parse_segment_name) simp
  then show "i \<in> set (segment_indices d)"
    using i unfolding dk_lookup_names by (force simp: segment_indices_def List.map_filter_def)
qed

lemma segment_indices_sorted:
  assumes "disk_ok d" and "canonical_names d"
  shows "sorted_wrt (<) (segment_indices d)"
proof -
  have "distinct (List.map_filter parse_segment_index (map fst (dk_dir d)))"
    using assms canonical_name [OF assms(2)]
    by (intro distinct_map_filter_inj) (simp add: disk_ok_def, metis)
  then show ?thesis
    by (simp add: segment_indices_def strict_sorted_iff)
qed

lemma sorted_wrt_less_last: "sorted_wrt (<) (xs :: nat list) \<Longrightarrow> x \<in> set xs \<Longrightarrow> x \<le> last xs"
  by (induction xs) (auto dest: last_in_set less_imp_le)

lemma opened_inv:
  assumes op: "opened crc RS T is sp0 d sp d'" and sp0: "sp_segments sp0 = []" "sp_total_bytes sp0 = 0"
    and d: "disk_ok d" and srt: "sorted_wrt (<) is"
    and ex: "\<And>i. dk_lookup d (segment_name i) \<noteq> None \<longleftrightarrow> i \<in> set is"
    and ok: "\<And>i. i \<in> set is \<Longrightarrow> list_all (rec_ok (sc_max_payload_bytes (sp_config sp0))) (RS i)"
  shows "spool_inv crc (sp\<lparr>sp_active := (if is = [] then None else dk_lookup d (segment_name (last is)))\<rparr>) d' (map RS is)"
proof -
  have look: "dk_lookup d' = dk_lookup d" "disk_ok d'"
    using op d by (auto simp: opened_def dk_lookup_def disk_ok_def fun_eq_iff)
  have segs: "sp_segments sp = map (recovered_segment RS) is"
    and tot: "sp_total_bytes sp = sum_list (map (\<lambda>i. sum_list (map rec_size (RS i))) is)"
    and cfg: "sp_config sp = sp_config sp0" and nxt: "is \<noteq> [] \<Longrightarrow> sp_next_index sp = last is + 1"
    using op sp0 by (simp_all add: opened_def)
  have "seg_ok crc (sc_max_payload_bytes (sp_config sp)) d' (recovered_segment RS i) (RS i)" if i: "i \<in> set is" for i
  proof -
    obtain ino where ino: "dk_lookup d (segment_name i) = Some ino"
      using ex [of i] i by auto
    then have "dk_data d' ino = concat (map (rec_bytes crc) (RS i))"
      using op i by (simp add: opened_def)
    then show ?thesis
      using ino ok [OF i] by (simp add: seg_ok_def recovered_segment_def look cfg)
  qed
  then have "list_all2 (seg_ok crc (sc_max_payload_bytes (sp_config sp)) d') (sp_segments sp) (map RS is)"
    by (simp add: segs list_all2_conv_all_nth)
  moreover have "i < sp_next_index sp" if "i \<in> set is" for i
    using sorted_wrt_less_last that srt nxt by (metis empty_iff less_Suc_eq_le list.set(1) Suc_eq_plus1)
  ultimately show ?thesis
    using look srt ex tot
    by (auto simp: spool_inv_def segs_inv_def active_ok_def segs recovered_segment_def comp_def last_map image_image)
qed

section \<open>Properties\<close>





end
