(* ===== verification/Journal.thy ===== *)
theory Journal
  imports Disk_Model Redact
begin

text \<open>
  The durable output journal of a PTY session: \<open>crates/sealant-pty/src/journal.rs\<close>, over the
  directory of theory \<open>Disk_Model\<close>.

  A sequence number and a byte count are \<open>nat\<close>; where the source writes them into a header they are
  cut to 8 and 4 bytes by \<open>be_bytes\<close>, as its casts do. A segment's write handle is an inode: the
  file is created empty and written through that handle alone, so its write position is the end of
  the file. The checksum is the parameter \<open>crc\<close> of theory \<open>Record_Codec\<close>.

  The record codec is an instance of \<open>torn_framing\<close>. On a disk whose calls succeed, appending refines
  appending to a list of retained chunks and reading returns the retained chunks from the position
  asked for, as many as the budget allows. Sequence numbers are contiguous under every pattern of
  failures; what a failed write breaks is stated by the closing theorem.
\<close>

record journal_chunk =
  jc_sequence :: nat
  jc_data :: bytes

definition HEADER_BYTES :: nat where
  "HEADER_BYTES = 8 + 4"

definition TRAILER_BYTES :: nat where
  "TRAILER_BYTES = 4"

definition record_len :: "nat \<Rightarrow> nat" where
  "record_len payload = HEADER_BYTES + payload + TRAILER_BYTES"

record journal_segment =
  js_path :: string
  js_file :: nat
  js_first_seq :: nat
  js_offsets :: "nat list"
  js_bytes :: nat

section \<open>A segment\<close>

definition segment_create :: "string \<Rightarrow> nat \<Rightarrow> disk \<Rightarrow> (io_error + journal_segment) \<times> disk" where
  "segment_create path first d =
     (case open_truncate path d of
        (Err e, d1) \<Rightarrow> (Err e, d1)
      | (Ok ino, d1) \<Rightarrow>
          (Ok \<lparr>js_path = path, js_file = ino, js_first_seq = first, js_offsets = [], js_bytes = 0\<rparr>, d1))"

text \<open>The bytes \<open>Segment::append\<close> puts in its buffer.\<close>

definition journal_encode :: "(bytes \<Rightarrow> u32) \<Rightarrow> nat \<Rightarrow> bytes \<Rightarrow> bytes" where
  "journal_encode crc seq payload =
     (let buf = be_bytes 8 seq @ be_bytes 4 (length payload) @ payload in buf @ u32_to_be (crc buf))"

definition segment_append ::
  "(bytes \<Rightarrow> u32) \<Rightarrow> nat \<Rightarrow> bytes \<Rightarrow> journal_segment \<Rightarrow> disk \<Rightarrow>
   (io_error + unit) \<times> journal_segment \<times> disk" where
  "segment_append crc seq payload seg d =
     (let buf = journal_encode crc seq payload in
      case append_all (js_file seg) buf d of
        (Err e, d1) \<Rightarrow> (Err e, seg, d1)
      | (Ok _, d1) \<Rightarrow>
          (Ok (), seg\<lparr>js_offsets := js_offsets seg @ [js_bytes seg], js_bytes := js_bytes seg + length buf\<rparr>, d1))"

definition end_seq :: "journal_segment \<Rightarrow> nat" where
  "end_seq seg = js_first_seq seg + length (js_offsets seg)"

text \<open>\<open>read_exact\<close>: all \<open>n\<close> bytes or an error.\<close>

definition read_exact :: "nat \<Rightarrow> reader \<Rightarrow> bytes option \<times> reader" where
  "read_exact n rd =
     (case read_full n rd of
        (Err e, rd1) \<Rightarrow> (None, rd1)
      | (Ok bs, rd1) \<Rightarrow> (if length bs < n then None else Some bs, rd1))"

text \<open>One turn of the read loop: the sequence number, the payload and whether the checksum holds.\<close>

definition read_one :: "(bytes \<Rightarrow> u32) \<Rightarrow> reader \<Rightarrow> (nat \<times> bytes \<times> bool) option \<times> reader" where
  "read_one crc rd =
     (case read_exact HEADER_BYTES rd of
        (None, rd1) \<Rightarrow> (None, rd1)
      | (Some header, rd1) \<Rightarrow>
          (case read_exact (from_be (drop 8 header)) rd1 of
             (None, rd2) \<Rightarrow> (None, rd2)
           | (Some payload, rd2) \<Rightarrow>
               (case read_exact TRAILER_BYTES rd2 of
                  (None, rd3) \<Rightarrow> (None, rd3)
                | (Some trailer, rd3) \<Rightarrow>
                    (Some (from_be (take 8 header), payload, u32_to_be (crc (header @ payload)) = trailer), rd3))))"

function read_loop ::
  "(bytes \<Rightarrow> u32) \<Rightarrow> nat \<Rightarrow> nat \<Rightarrow> nat \<Rightarrow> nat \<Rightarrow> reader \<Rightarrow> journal_chunk list \<times> nat" where
  "read_loop crc end max_bytes seq used rd =
     (if seq < end \<and> used < max_bytes then
        (case read_one crc rd of
           (None, rd1) \<Rightarrow> ([], used)
         | (Some (got, payload, crc_ok), rd1) \<Rightarrow>
             if got \<noteq> seq \<or> \<not> crc_ok then ([], used)
             else (let (out, total) = read_loop crc end max_bytes (seq + 1) (used + length payload) rd1
                   in (\<lparr>jc_sequence = seq, jc_data = payload\<rparr> # out, total)))
      else ([], used))"
  by pat_completeness auto
termination
  by (relation "measure (\<lambda>(crc, end, max_bytes, seq, used, rd). end - seq)") auto

declare read_loop.simps [simp del]

text \<open>The chunks are appended to \<open>out\<close> in the source; here they are the first component.\<close>

definition segment_read_from ::
  "(bytes \<Rightarrow> u32) \<Rightarrow> nat \<Rightarrow> nat \<Rightarrow> journal_segment \<Rightarrow> disk \<Rightarrow> (journal_chunk list \<times> nat) \<times> disk" where
  "segment_read_from crc from max_bytes seg d =
     (if end_seq seg \<le> from \<or> max_bytes = 0 then (([], 0), d)
      else
        let start = max from (js_first_seq seg);
            i = start - js_first_seq seg
        in if length (js_offsets seg) \<le> i then (([], 0), d)
           else case open_existing (js_path seg) d of
             (Err e, d1) \<Rightarrow> (([], 0), d1)
           | (Ok ino, d1) \<Rightarrow>
               (case plain_call d1 of
                  (Err e, d2) \<Rightarrow> (([], 0), d2)
                | (Ok _, d2) \<Rightarrow>
                    (let (rd, d3) = file_reader ino d2;
                         rd' = \<lparr>rd_data = drop (js_offsets seg ! i) (rd_data rd), rd_fail = rd_fail rd\<rparr>
                     in (read_loop crc (end_seq seg) max_bytes start 0 rd', d3))))"

section \<open>The journal\<close>

record session_journal =
  sj_session :: string
  sj_generation :: nat
  sj_previous :: "journal_segment option"
  sj_current :: journal_segment
  sj_segment_limit :: nat

definition segment_path :: "string \<Rightarrow> nat \<Rightarrow> string" where
  "segment_path session generation = session @ ''.'' @ padded_decimal 6 generation @ ''.journal''"

definition journal_create :: "string \<Rightarrow> nat \<Rightarrow> disk \<Rightarrow> (io_error + session_journal) \<times> disk" where
  "journal_create session limit d =
     (case plain_call d of
        (Err e, d1) \<Rightarrow> (Err e, d1)
      | (Ok _, d1) \<Rightarrow>
          (case segment_create (segment_path session 0) 0 d1 of
             (Err e, d2) \<Rightarrow> (Err e, d2)
           | (Ok seg, d2) \<Rightarrow>
               (Ok \<lparr>sj_session = session, sj_generation = 0, sj_previous = None, sj_current = seg,
                    sj_segment_limit = max limit (64 * 1024)\<rparr>, d2)))"

definition rotate_journal :: "session_journal \<Rightarrow> disk \<Rightarrow> (io_error + unit) \<times> session_journal \<times> disk" where
  "rotate_journal j d =
     (let j1 = j\<lparr>sj_generation := sj_generation j + 1\<rparr> in
      case segment_create (segment_path (sj_session j1) (sj_generation j1)) (end_seq (sj_current j1)) d of
        (Err e, d1) \<Rightarrow> (Err e, j1, d1)
      | (Ok seg, d1) \<Rightarrow>
          (let j2 = j1\<lparr>sj_current := seg, sj_previous := Some (sj_current j1)\<rparr> in
           case sj_previous j1 of
             None \<Rightarrow> (Ok (), j2, d1)
           | Some old \<Rightarrow> (let (ignored, d2) = remove_file (js_path old) d1 in (Ok (), j2, d2))))"

definition append_current ::
  "(bytes \<Rightarrow> u32) \<Rightarrow> bytes \<Rightarrow> session_journal \<Rightarrow> disk \<Rightarrow> (io_error + nat option) \<times> session_journal \<times> disk" where
  "append_current crc payload j d =
     (let seq = end_seq (sj_current j) in
      case segment_append crc seq payload (sj_current j) d of
        (Err e, seg, d1) \<Rightarrow> (Err e, j\<lparr>sj_current := seg\<rparr>, d1)
      | (Ok _, seg, d1) \<Rightarrow> (Ok (Some seq), j\<lparr>sj_current := seg\<rparr>, d1))"

definition journal_append ::
  "(bytes \<Rightarrow> u32) \<Rightarrow> masked_chunk \<Rightarrow> session_journal \<Rightarrow> disk \<Rightarrow>
   (io_error + nat option) \<times> session_journal \<times> disk" where
  "journal_append crc chunk j d =
     (let payload = recorded chunk in
      if payload = [] then (Ok None, j, d)
      else if 0 < js_bytes (sj_current j) \<and>
              sj_segment_limit j < js_bytes (sj_current j) + record_len (length payload) then
        (case rotate_journal j d of
           (Err e, j1, d1) \<Rightarrow> (Err e, j1, d1)
         | (Ok _, j1, d1) \<Rightarrow> append_current crc payload j1 d1)
      else append_current crc payload j d)"

definition first_seq :: "session_journal \<Rightarrow> nat" where
  "first_seq j = (case sj_previous j of None \<Rightarrow> js_first_seq (sj_current j) | Some p \<Rightarrow> js_first_seq p)"

definition next_seq :: "session_journal \<Rightarrow> nat" where
  "next_seq j = end_seq (sj_current j)"

definition journal_read_from ::
  "(bytes \<Rightarrow> u32) \<Rightarrow> nat \<Rightarrow> nat \<Rightarrow> session_journal \<Rightarrow> disk \<Rightarrow> journal_chunk list \<times> disk" where
  "journal_read_from crc from max_bytes j d =
     (let from' = max from (first_seq j);
          ((out, used), d1) = (case sj_previous j of
                                 None \<Rightarrow> (([], 0), d)
                               | Some p \<Rightarrow> segment_read_from crc from' max_bytes p d);
          resume = (if out = [] then from' else jc_sequence (last out) + 1);
          ((out', used'), d2) = segment_read_from crc resume (max_bytes - used) (sj_current j) d1
      in (out @ out', d2))"

definition remove_files :: "session_journal \<Rightarrow> disk \<Rightarrow> disk" where
  "remove_files j d =
     (let d1 = (case sj_previous j of None \<Rightarrow> d | Some p \<Rightarrow> snd (remove_file (js_path p) d))
      in snd (remove_file (js_path (sj_current j)) d1))"

text \<open>A run of appends from a fresh journal, with the sequence numbers it handed out.\<close>

fun append_run ::
  "(bytes \<Rightarrow> u32) \<Rightarrow> masked_chunk list \<Rightarrow> session_journal \<Rightarrow> disk \<Rightarrow> nat list \<times> session_journal \<times> disk" where
  "append_run crc [] j d = ([], j, d)"
| "append_run crc (c # cs) j d =
     (let (res, j1, d1) = journal_append crc c j d;
          (seqs, j2, d2) = append_run crc cs j1 d1
      in (case res of Ok (Some s) \<Rightarrow> s # seqs | _ \<Rightarrow> seqs, j2, d2))"

section \<open>The codec as a framing\<close>

definition chunk_bytes :: "(bytes \<Rightarrow> u32) \<Rightarrow> journal_chunk \<Rightarrow> bytes" where
  "chunk_bytes crc c = journal_encode crc (jc_sequence c) (jc_data c)"

definition chunk_header :: "journal_chunk \<Rightarrow> bytes" where
  "chunk_header c = be_bytes 8 (jc_sequence c) @ be_bytes 4 (length (jc_data c))"

text \<open>A chunk whose sequence number and length fit their header fields.\<close>

definition chunk_ok :: "journal_chunk \<Rightarrow> bool" where
  "chunk_ok c \<longleftrightarrow> jc_sequence c < 2 ^ 64 \<and> length (jc_data c) < 2 ^ 32"

definition chunk_decode :: "(bytes \<Rightarrow> u32) \<Rightarrow> bytes \<Rightarrow> (journal_chunk, unit) decoded" where
  "chunk_decode crc bs =
     (if bs = [] then Finished
      else case read_one crc \<lparr>rd_data = bs, rd_fail = None\<rparr> of
        (Some (seq, payload, True), rd) \<Rightarrow> Item \<lparr>jc_sequence = seq, jc_data = payload\<rparr> (rd_data rd)
      | _ \<Rightarrow> Damaged ())"

section \<open>What a journal holds\<close>

text \<open>Payloads numbered from a sequence number on, and the chunks a byte budget allows of a list.\<close>

fun numbered :: "nat \<Rightarrow> bytes list \<Rightarrow> journal_chunk list" where
  "numbered s [] = []"
| "numbered s (p # ps) = \<lparr>jc_sequence = s, jc_data = p\<rparr> # numbered (Suc s) ps"

fun budget_take :: "nat \<Rightarrow> journal_chunk list \<Rightarrow> journal_chunk list" where
  "budget_take m [] = []"
| "budget_take m (c # cs) = (if m = 0 then [] else c # budget_take (m - length (jc_data c)) cs)"

definition data_total :: "journal_chunk list \<Rightarrow> nat" where
  "data_total cs = sum_list (map (\<lambda>c. length (jc_data c)) cs)"

definition size_of :: "bytes list \<Rightarrow> nat" where
  "size_of ps = sum_list (map (\<lambda>p. record_len (length p)) ps)"

definition seg_holds :: "(bytes \<Rightarrow> u32) \<Rightarrow> disk \<Rightarrow> journal_segment \<Rightarrow> bytes list \<Rightarrow> bool" where
  "seg_holds crc d seg ps \<longleftrightarrow>
     dk_lookup d (js_path seg) = Some (js_file seg) \<and>
     dk_data d (js_file seg) = concat (map (chunk_bytes crc) (numbered (js_first_seq seg) ps)) \<and>
     js_offsets seg = map (\<lambda>i. size_of (take i ps)) [0..<length ps] \<and> js_bytes seg = size_of ps \<and>
     list_all (\<lambda>p. length p < 2 ^ 32) ps"

definition journal_inv :: "(bytes \<Rightarrow> u32) \<Rightarrow> session_journal \<Rightarrow> disk \<Rightarrow> bytes list \<Rightarrow> bytes list \<Rightarrow> bool" where
  "journal_inv crc j d prev cur \<longleftrightarrow>
     disk_ok d \<and> seg_holds crc d (sj_current j) cur \<and>
     (\<exists>g \<le> sj_generation j. js_path (sj_current j) = segment_path (sj_session j) g \<and>
        (case sj_previous j of
           None \<Rightarrow> prev = []
         | Some p \<Rightarrow>
             seg_holds crc d p prev \<and> end_seq p = js_first_seq (sj_current j) \<and>
             (\<exists>g' < g. js_path p = segment_path (sj_session j) g')))"

text \<open>What a list of chunks records: an empty chunk mints no sequence number.\<close>

definition payloads :: "masked_chunk list \<Rightarrow> bytes list" where
  "payloads cs = filter (\<lambda>p. p \<noteq> []) (map recorded cs)"

definition within_limit :: "session_journal \<Rightarrow> bool" where
  "within_limit j \<longleftrightarrow>
     js_bytes (sj_current j) \<le> sj_segment_limit j \<and>
     (case sj_previous j of None \<Rightarrow> True | Some p \<Rightarrow> js_bytes p \<le> sj_segment_limit j)"

text \<open>A journal of one chunk, on a disk with the given outcomes to come.\<close>

definition sample_disk :: "nat option list \<Rightarrow> disk" where
  "sample_disk fs =
     \<lparr>dk_dir = [(segment_path ''s'' 0, 0)], dk_data = (\<lambda>_. [])(0 := journal_encode (\<lambda>_. 0) 0 ''ab''),
      dk_next = 1, dk_faults = fs\<rparr>"

definition sample_journal :: session_journal where
  "sample_journal =
     \<lparr>sj_session = ''s'', sj_generation = 0, sj_previous = None,
      sj_current = \<lparr>js_path = segment_path ''s'' 0, js_file = 0, js_first_seq = 0, js_offsets = [0], js_bytes = 18\<rparr>,
      sj_segment_limit = 64 * 1024\<rparr>"

definition sample_chunk :: "bytes \<Rightarrow> masked_chunk" where
  "sample_chunk bs = \<lparr>recorded = bs, consumed = length bs, redactions = 0\<rparr>"

lemma journal_segment_path_inj [simp]: "segment_path s g = segment_path s g' \<longleftrightarrow> g = g'"
  using padded_decimal_inj by (auto simp: segment_path_def)

lemma length_chunk_bytes: "length (chunk_bytes crc c) = record_len (length (jc_data c))"
  by (simp add: chunk_bytes_def journal_encode_def record_len_def HEADER_BYTES_def TRAILER_BYTES_def Let_def)

lemma read_exact_plain:
  "read_exact n \<lparr>rd_data = bs, rd_fail = None\<rparr> =
     (if length bs < n then None else Some (take n bs), \<lparr>rd_data = drop n bs, rd_fail = None\<rparr>)"
  by (simp add: read_exact_def min_def)

lemma read_one_full:
  assumes "length h = HEADER_BYTES" and "length p = from_be (drop 8 h)" and "length t = TRAILER_BYTES"
  shows "read_one crc \<lparr>rd_data = h @ p @ t @ rest, rd_fail = None\<rparr> =
    (Some (from_be (take 8 h), p, u32_to_be (crc (h @ p)) = t), \<lparr>rd_data = rest, rd_fail = None\<rparr>)"
  unfolding read_one_def by (simp add: read_exact_plain assms)

lemma read_one_short:
  assumes "length h = HEADER_BYTES" and "length bs < from_be (drop 8 h) + TRAILER_BYTES"
  shows "fst (read_one crc \<lparr>rd_data = h @ bs, rd_fail = None\<rparr>) = None"
  using assms unfolding read_one_def by (auto simp: read_exact_plain split: if_splits)

lemma chunk_header:
  assumes "chunk_ok c"
  shows "length (chunk_header c) = HEADER_BYTES" and "from_be (take 8 (chunk_header c)) = jc_sequence c"
    and "from_be (drop 8 (chunk_header c)) = length (jc_data c)"
  using assms by (simp_all add: chunk_header_def HEADER_BYTES_def from_be_be_bytes chunk_ok_def)

lemma chunk_bytes_split:
  "chunk_bytes crc c = chunk_header c @ jc_data c @ u32_to_be (crc (chunk_header c @ jc_data c))"
  by (simp add: chunk_bytes_def journal_encode_def chunk_header_def Let_def)

lemma read_one_enc:
  assumes "chunk_ok c"
  shows "read_one crc \<lparr>rd_data = chunk_bytes crc c @ rest, rd_fail = None\<rparr> =
    (Some (jc_sequence c, jc_data c, True), \<lparr>rd_data = rest, rd_fail = None\<rparr>)"
  unfolding chunk_bytes_split append_assoc
  by (subst read_one_full) (simp_all add: chunk_header [OF assms] TRAILER_BYTES_def)

lemma read_one_torn:
  assumes "chunk_ok c" and "k < length (chunk_bytes crc c)"
  shows "fst (read_one crc \<lparr>rd_data = take k (chunk_bytes crc c), rd_fail = None\<rparr>) = None"
proof (cases "k < HEADER_BYTES")
  case True
  then show ?thesis
    unfolding read_one_def read_exact_plain using assms(2) by simp
next
  case False
  then have "take k (chunk_bytes crc c) =
      chunk_header c @ take (k - HEADER_BYTES) (jc_data c @ u32_to_be (crc (chunk_header c @ jc_data c)))"
    unfolding chunk_bytes_split using chunk_header(1) [OF assms(1)] by simp
  moreover have "k - HEADER_BYTES < length (jc_data c) + TRAILER_BYTES"
    using assms(2) False by (simp add: length_chunk_bytes record_len_def)
  ultimately show ?thesis
    by (simp add: read_one_short chunk_header [OF assms(1)])
qed

lemma chunk_bytes_not_Nil [simp]: "chunk_bytes crc c \<noteq> []"
  using length_chunk_bytes [of crc c] by (auto simp: record_len_def HEADER_BYTES_def)

interpretation journal_codec: torn_framing chunk_ok "chunk_bytes crc" "chunk_decode crc" "\<lambda>_. True" for crc
proof
  show "chunk_decode crc (chunk_bytes crc c @ rest) = Item c rest" if "chunk_ok c" for c rest
    using read_one_enc [OF that, of crc rest] by (simp add: chunk_decode_def)
  show "\<exists>e. True \<and> chunk_decode crc (take k (chunk_bytes crc c)) = Damaged e"
    if "chunk_ok c" "0 < k" "k < length (chunk_bytes crc c)" for c k
    using read_one_torn [OF that(1,3)] that(2)
    by (cases "read_one crc \<lparr>rd_data = take k (chunk_bytes crc c), rd_fail = None\<rparr>") (auto simp: chunk_decode_def)
qed (simp_all add: chunk_decode_def)

section \<open>Reading\<close>

lemma length_numbered [simp]: "length (numbered s ps) = length ps"
  by (induction ps arbitrary: s) auto

lemma numbered_Nil [simp]: "numbered s ps = [] \<longleftrightarrow> ps = []"
  by (cases ps) auto

lemma numbered_append: "numbered s (ps @ qs) = numbered s ps @ numbered (s + length ps) qs"
  by (induction ps arbitrary: s) auto

lemma drop_numbered: "i \<le> length ps \<Longrightarrow> drop i (numbered s ps) = numbered (s + i) (drop i ps)"
  by (induction ps arbitrary: s i) (auto simp: drop_Cons split: nat.splits)

lemma last_numbered: "ps \<noteq> [] \<Longrightarrow> jc_sequence (last (numbered s ps)) = s + length ps - 1"
  by (induction ps arbitrary: s) auto

lemma size_of_simps [simp]:
  "size_of [] = 0" "size_of (p # ps) = record_len (length p) + size_of ps" "size_of (ps @ qs) = size_of ps + size_of qs"
  by (simp_all add: size_of_def)

lemma length_numbered_bytes: "length (concat (map (chunk_bytes crc) (numbered s ps))) = size_of ps"
  by (induction ps arbitrary: s) (auto simp: length_chunk_bytes)

lemma numbered_ok:
  "list_all (\<lambda>p. length p < 2 ^ 32) ps \<Longrightarrow> s + length ps \<le> 2 ^ 64 \<Longrightarrow> list_all chunk_ok (numbered s ps)"
  by (induction ps arbitrary: s) (auto simp: chunk_ok_def)

lemma data_total_simps [simp]:
  "data_total [] = 0" "data_total (c # cs) = length (jc_data c) + data_total cs"
  by (simp_all add: data_total_def)

lemma budget_take_0 [simp]: "budget_take 0 cs = []"
  by (cases cs) auto

lemma budget_take_append:
  "budget_take m (xs @ ys) = budget_take m xs @ budget_take (m - data_total (budget_take m xs)) ys"
  by (induction xs arbitrary: m) (auto simp: diff_diff_eq)

lemma budget_take_all: "data_total (budget_take m xs) < m \<Longrightarrow> budget_take m xs = xs"
  by (induction xs arbitrary: m) (auto split: if_splits)

lemma read_loop_numbered:
  assumes "list_all chunk_ok (numbered s ps)"
  shows "read_loop crc (s + length ps) m s used \<lparr>rd_data = concat (map (chunk_bytes crc) (numbered s ps)) @ rest, rd_fail = None\<rparr> =
    (budget_take (m - used) (numbered s ps), used + data_total (budget_take (m - used) (numbered s ps)))"
  using assms
proof (induction ps arbitrary: s used)
  case Nil
  then show ?case
    by (subst read_loop.simps) simp
next
  case (Cons p ps)
  let ?c = "\<lparr>jc_sequence = s, jc_data = p\<rparr>"
  have one: "read_one crc \<lparr>rd_data = chunk_bytes crc ?c @ concat (map (chunk_bytes crc) (numbered (Suc s) ps)) @ rest, rd_fail = None\<rparr> =
    (Some (s, p, True), \<lparr>rd_data = concat (map (chunk_bytes crc) (numbered (Suc s) ps)) @ rest, rd_fail = None\<rparr>)"
    using read_one_enc [of ?c] Cons.prems by simp
  show ?case
    using Cons.IH [of "Suc s" "used + length p"] Cons.prems one
    by (subst read_loop.simps) (simp add: Let_def case_prod_beta)
qed

lemma segment_read_ok:
  assumes "seg_holds crc d seg ps" and "dk_faults d = []" and "end_seq seg \<le> 2 ^ 64"
    and "js_first_seq seg \<le> from"
  shows "segment_read_from crc from m seg d =
    ((budget_take m (drop (from - js_first_seq seg) (numbered (js_first_seq seg) ps)),
      data_total (budget_take m (drop (from - js_first_seq seg) (numbered (js_first_seq seg) ps)))), d)"
proof (cases "end_seq seg \<le> from \<or> m = 0")
  case True
  have "length ps = length (js_offsets seg)"
    using assms(1) by (simp add: seg_holds_def)
  with True show ?thesis
    by (auto simp: segment_read_from_def end_seq_def)
next
  case False
  define s i where "s = js_first_seq seg" and "i = from - js_first_seq seg"
  have h: "dk_lookup d (js_path seg) = Some (js_file seg)"
    "dk_data d (js_file seg) = concat (map (chunk_bytes crc) (numbered s ps))"
    "js_offsets seg = map (\<lambda>i. size_of (take i ps)) [0..<length ps]" "list_all (\<lambda>p. length p < 2 ^ 32) ps"
    using assms(1) by (auto simp: seg_holds_def s_def)
  have i: "i < length ps" "s + i = from" "end_seq seg = s + length ps"
    using False assms(4) h(3) by (auto simp: end_seq_def i_def s_def)
  have "numbered s ps = numbered s (take i ps) @ numbered from (drop i ps)"
    using numbered_append [of s "take i ps" "drop i ps"] i by simp
  then have tail: "drop (size_of (take i ps)) (concat (map (chunk_bytes crc) (numbered s ps))) =
      concat (map (chunk_bytes crc) (numbered from (drop i ps)))"
    using length_numbered_bytes [of crc s "take i ps"] by simp
  have "list_all chunk_ok (numbered from (drop i ps))"
    using h(4) i assms(3) by (intro numbered_ok) (auto simp: list_all_iff dest: in_set_dropD)
  from read_loop_numbered [OF this, of crc m 0 "[]"] show ?thesis
    using False i h assms(2,4) tail drop_numbered [of i ps s]
    by (auto simp: segment_read_from_def disk_call_defs Let_def i_def [symmetric] s_def [symmetric] max_def)
qed

lemma segment_append_ok:
  assumes "seg_holds crc d seg ps" and "dk_faults d = []" and "length payload < 2 ^ 32" and "disk_ok d"
  shows "\<exists>seg' d'. segment_append crc (end_seq seg) payload seg d = (Ok (), seg', d') \<and>
    seg_holds crc d' seg' (ps @ [payload]) \<and> disk_ok d' \<and> dk_faults d' = [] \<and>
    js_path seg' = js_path seg \<and> js_first_seq seg' = js_first_seq seg \<and> end_seq seg' = Suc (end_seq seg) \<and>
    (\<forall>p qs. js_path p \<noteq> js_path seg \<longrightarrow> seg_holds crc d p qs \<longrightarrow> seg_holds crc d' p qs)"
proof -
  let ?buf = "journal_encode crc (end_seq seg) payload"
  let ?d = "d\<lparr>dk_data := (dk_data d)(js_file seg := dk_data d (js_file seg) @ ?buf)\<rparr>"
  let ?seg = "seg\<lparr>js_offsets := js_offsets seg @ [js_bytes seg], js_bytes := js_bytes seg + length ?buf\<rparr>"
  have run: "segment_append crc (end_seq seg) payload seg d = (Ok (), ?seg, ?d)"
    using assms(2) by (simp add: segment_append_def append_all_def Let_def)
  have e: "end_seq seg = js_first_seq seg + length ps" and len: "length ?buf = record_len (length payload)"
    using assms(1) length_chunk_bytes [of crc "\<lparr>jc_sequence = end_seq seg, jc_data = payload\<rparr>"]
    by (simp_all add: seg_holds_def end_seq_def chunk_bytes_def)
  have "seg_holds crc ?d ?seg (ps @ [payload])"
    using assms(1,3) e len by (auto simp: seg_holds_def numbered_append chunk_bytes_def)
  moreover have "seg_holds crc ?d p qs" if "js_path p \<noteq> js_path seg" "seg_holds crc d p qs" for p qs
    using that assms(1) dk_lookup_inj [OF assms(4), of "js_path p" "js_file p" "js_path seg"]
    by (auto simp: seg_holds_def)
  ultimately show ?thesis
    using run assms(2,4) by (auto simp: end_seq_def)
qed

text \<open>An invariant journal as its two segments, with the numbers in between.\<close>

lemma journal_inv_end:
  assumes "journal_inv crc j d prev cur"
  shows "next_seq j = first_seq j + length (prev @ cur)" and "js_first_seq (sj_current j) = first_seq j + length prev"
  using assms
  by (auto simp: journal_inv_def next_seq_def first_seq_def seg_holds_def end_seq_def split: option.splits)

lemma rotate_ok:
  assumes "journal_inv crc j d prev cur" and "dk_faults d = []"
  shows "\<exists>j' d'. rotate_journal j d = (Ok (), j', d') \<and> journal_inv crc j' d' cur [] \<and> dk_faults d' = [] \<and>
    next_seq j' = next_seq j \<and> sj_segment_limit j' = sj_segment_limit j"
proof -
  let ?g = "sj_generation j + 1"
  let ?n = "segment_path (sj_session j) ?g"
  obtain g where cur: "seg_holds crc d (sj_current j) cur" "g \<le> sj_generation j"
    "js_path (sj_current j) = segment_path (sj_session j) g" and ok: "disk_ok d"
    and old: "\<forall>p. sj_previous j = Some p \<longrightarrow> (\<exists>g' < g. js_path p = segment_path (sj_session j) g')"
    using assms(1) by (auto simp: journal_inv_def split: option.splits)
  obtain ino d1 where d1: "open_truncate ?n d = (Ok ino, d1)" "disk_ok d1" "dk_faults d1 = []"
    "dk_lookup d1 = (dk_lookup d)(?n \<mapsto> ino)" "dk_data d1 = (dk_data d)(ino := [])"
    using open_truncate_ok [OF ok assms(2), of ?n] by blast
  let ?new = "\<lparr>js_path = ?n, js_file = ino, js_first_seq = end_seq (sj_current j), js_offsets = [], js_bytes = 0\<rparr>"
  let ?j = "j\<lparr>sj_generation := ?g, sj_current := ?new, sj_previous := Some (sj_current j)\<rparr>"
  have "dk_lookup d1 (js_path (sj_current j)) = Some (js_file (sj_current j))"
    using cur d1(4) by (auto simp: seg_holds_def)
  then have "js_file (sj_current j) \<noteq> ino"
    using dk_lookup_inj [OF d1(2), of "js_path (sj_current j)" "js_file (sj_current j)" ?n] d1(4) cur(2,3) by auto
  then have held: "seg_holds crc d1 (sj_current j) cur" "seg_holds crc d1 ?new []"
    using cur d1(4,5) by (auto simp: seg_holds_def)
  let ?inv = "\<lambda>d'. disk_ok d' \<and> seg_holds crc d' (sj_current j) cur \<and> seg_holds crc d' ?new []"
  have inv: "journal_inv crc ?j d' cur []" if "?inv d'" for d'
    using that cur by (auto simp: journal_inv_def le_imp_less_Suc intro!: exI [of _ "Suc (sj_generation j)"])
  have num: "next_seq ?j = next_seq j"
    by (simp add: next_seq_def end_seq_def)
  show ?thesis
  proof (cases "sj_previous j")
    case None
    with inv [of d1] d1 held num show ?thesis
      by (auto simp: rotate_journal_def segment_create_def Let_def)
  next
    case (Some p)
    then obtain g' where g': "g' < g" "js_path p = segment_path (sj_session j) g'"
      using old by blast
    let ?d2 = "snd (remove_file (js_path p) d1)"
    have "?inv ?d2 \<and> dk_faults ?d2 = []"
      using held d1 g' cur by (auto simp: remove_file_def seg_holds_def disk_ok_delete split: option.splits)
    with Some inv [of ?d2] d1 num show ?thesis
      by (auto simp: rotate_journal_def segment_create_def Let_def case_prod_beta)
  qed
qed

lemma append_current_ok:
  assumes "journal_inv crc j d prev cur" and "dk_faults d = []" and "length payload < 2 ^ 32"
  shows "\<exists>j' d'. append_current crc payload j d = (Ok (Some (next_seq j)), j', d') \<and>
    journal_inv crc j' d' prev (cur @ [payload]) \<and> dk_faults d' = [] \<and> first_seq j' = first_seq j"
proof -
  have cur: "seg_holds crc d (sj_current j) cur" "disk_ok d"
    using assms(1) by (auto simp: journal_inv_def)
  obtain seg' d' where app: "segment_append crc (end_seq (sj_current j)) payload (sj_current j) d = (Ok (), seg', d')"
    "seg_holds crc d' seg' (cur @ [payload])" "disk_ok d'" "dk_faults d' = []"
    "js_path seg' = js_path (sj_current j)" "js_first_seq seg' = js_first_seq (sj_current j)"
    and others: "\<forall>p qs. js_path p \<noteq> js_path (sj_current j) \<longrightarrow> seg_holds crc d p qs \<longrightarrow> seg_holds crc d' p qs"
    using segment_append_ok [OF cur(1) assms(2,3) cur(2)] by blast
  have "journal_inv crc (j\<lparr>sj_current := seg'\<rparr>) d' prev (cur @ [payload])"
    using assms(1) app others by (fastforce simp: journal_inv_def split: option.splits)
  with app show ?thesis
    by (simp add: append_current_def next_seq_def Let_def first_seq_def split: option.splits)
qed

lemma journal_append_ok:
  assumes inv: "journal_inv crc j d prev cur" and nf: "dk_faults d = []"
    and p: "recorded chunk \<noteq> []" "length (recorded chunk) < 2 ^ 32"
  shows "\<exists>j' d' prev' cur' k. journal_append crc chunk j d = (Ok (Some (next_seq j)), j', d') \<and>
    journal_inv crc j' d' prev' cur' \<and> dk_faults d' = [] \<and> k \<in> {0, length prev} \<and>
    prev' @ cur' = drop k (prev @ cur) @ [recorded chunk] \<and> first_seq j' = first_seq j + k"
proof (cases "0 < js_bytes (sj_current j) \<and>
    sj_segment_limit j < js_bytes (sj_current j) + record_len (length (recorded chunk))")
  case True
  obtain j1 d1 where rot: "rotate_journal j d = (Ok (), j1, d1)" "journal_inv crc j1 d1 cur []" "dk_faults d1 = []"
    "next_seq j1 = next_seq j"
    using rotate_ok [OF inv nf] by blast
  from append_current_ok [OF rot(2,3) p(2)] obtain j' d' where
    app: "append_current crc (recorded chunk) j1 d1 = (Ok (Some (next_seq j1)), j', d')"
    "journal_inv crc j' d' cur ([] @ [recorded chunk])" "dk_faults d' = []" "first_seq j' = first_seq j1"
    by blast
  have "first_seq j' = first_seq j + length prev"
    using journal_inv_end(1) [OF rot(2)] journal_inv_end(1) [OF inv] rot(4) app(4) by simp
  with True rot app p show ?thesis
    by (intro exI [of _ j'] exI [of _ d'] exI [of _ cur] exI [of _ "[recorded chunk]"] exI [of _ "length prev"])
      (auto simp: journal_append_def Let_def)
next
  case False
  then have same: "journal_append crc chunk j d = append_current crc (recorded chunk) j d"
    using p(1) by (auto simp: journal_append_def Let_def)
  from append_current_ok [OF inv nf p(2)] obtain j' d' where
    "append_current crc (recorded chunk) j d = (Ok (Some (next_seq j)), j', d')"
    "journal_inv crc j' d' prev (cur @ [recorded chunk])" "dk_faults d' = []" "first_seq j' = first_seq j"
    by blast
  then show ?thesis
    unfolding same
    by (intro exI [of _ j'] exI [of _ d'] exI [of _ prev] exI [of _ "cur @ [recorded chunk]"] exI [of _ 0]) auto
qed

section \<open>Appends under failures\<close>

lemma segment_append_numbers:
  "segment_append crc n payload seg d = (res, seg', d') \<Longrightarrow>
   end_seq seg' = (if isl res then end_seq seg else Suc (end_seq seg)) \<and>
   js_bytes seg' = (if isl res then js_bytes seg else js_bytes seg + record_len (length payload))"
  using length_chunk_bytes [of crc "\<lparr>jc_sequence = n, jc_data = payload\<rparr>"]
  by (auto simp: segment_append_def append_all_def Let_def end_seq_def chunk_bytes_def io_call_def
      split: prod.splits option.splits list.splits)

lemma segment_create_numbers:
  "segment_create path n d = (Ok seg, d') \<Longrightarrow> js_first_seq seg = n \<and> js_offsets seg = [] \<and> js_bytes seg = 0"
  by (auto simp: segment_create_def split: prod.splits sum.splits)

lemma rotate_numbers:
  "rotate_journal j d = (res, j', d') \<Longrightarrow>
   next_seq j' = next_seq j \<and> sj_segment_limit j' = sj_segment_limit j \<and>
   (if isl res then sj_current j' = sj_current j \<and> sj_previous j' = sj_previous j
    else js_bytes (sj_current j') = 0 \<and> sj_previous j' = Some (sj_current j))"
  by (auto simp: rotate_journal_def Let_def next_seq_def end_seq_def
      split: prod.splits sum.splits option.splits dest!: segment_create_numbers)

lemma append_current_numbers:
  "append_current crc payload j d = (res, j', d') \<Longrightarrow>
   sj_segment_limit j' = sj_segment_limit j \<and> sj_previous j' = sj_previous j \<and>
   (isl res \<and> next_seq j' = next_seq j \<and> js_bytes (sj_current j') = js_bytes (sj_current j) \<or>
    res = Ok (Some (next_seq j)) \<and> next_seq j' = Suc (next_seq j) \<and>
      js_bytes (sj_current j') = js_bytes (sj_current j) + record_len (length payload))"
  by (auto simp: append_current_def Let_def next_seq_def split: prod.splits sum.splits
      dest!: segment_append_numbers)

text \<open>What each append does to the numbering, whatever fails.\<close>

lemma journal_append_numbers:
  assumes "journal_append crc chunk j d = (res, j', d')"
  shows "(case res of Ok (Some s) \<Rightarrow> s = next_seq j \<and> next_seq j' = Suc s | _ \<Rightarrow> next_seq j' = next_seq j)"
  using assms
  by (auto simp: journal_append_def Let_def split: if_splits prod.splits sum.splits
      dest!: append_current_numbers rotate_numbers)

lemma journal_append_within:
  assumes "journal_append crc chunk j d = (res, j', d')" and "within_limit j"
    and "record_len (length (recorded chunk)) \<le> sj_segment_limit j"
  shows "within_limit j' \<and> sj_segment_limit j' = sj_segment_limit j"
  using assms
  by (auto simp: journal_append_def Let_def within_limit_def split: if_splits prod.splits sum.splits
      dest!: append_current_numbers rotate_numbers split: option.splits)

lemma append_run_numbers:
  "append_run crc cs j d = (seqs, j', d') \<Longrightarrow> seqs = [next_seq j..<next_seq j'] \<and> next_seq j \<le> next_seq j'"
proof (induction cs arbitrary: j d seqs)
  case (Cons c cs)
  obtain res j1 d1 where one: "journal_append crc c j d = (res, j1, d1)"
    by (metis prod.exhaust)
  obtain rest where rest: "append_run crc cs j1 d1 = (rest, j', d')"
    and seqs: "seqs = (case res of Ok (Some s) \<Rightarrow> s # rest | _ \<Rightarrow> rest)"
    using Cons.prems one by (auto split: prod.splits)
  show ?case
    using Cons.IH [OF rest] journal_append_numbers [OF one] seqs
    by (auto simp: upt_conv_Cons split: sum.splits option.splits)
qed simp

lemma append_run_within:
  "append_run crc cs j d = (seqs, j', d') \<Longrightarrow> within_limit j \<Longrightarrow>
   list_all (\<lambda>c. record_len (length (recorded c)) \<le> sj_segment_limit j) cs \<Longrightarrow>
   within_limit j' \<and> sj_segment_limit j' = sj_segment_limit j"
proof (induction cs arbitrary: j d seqs)
  case (Cons c cs)
  obtain res j1 d1 where one: "journal_append crc c j d = (res, j1, d1)"
    by (metis prod.exhaust)
  obtain rest where "append_run crc cs j1 d1 = (rest, j', d')"
    using Cons.prems(1) one by (auto split: prod.splits)
  then show ?case
    using Cons.IH [of j1 d1 rest] journal_append_within [OF one] Cons.prems(2,3) by simp
qed simp

lemma sample_inv: "journal_inv (\<lambda>_. 0) sample_journal (sample_disk fs) [] [''ab'']"
  by (simp add: journal_inv_def seg_holds_def sample_journal_def sample_disk_def disk_ok_def dk_lookup_def
      chunk_bytes_def record_len_def HEADER_BYTES_def TRAILER_BYTES_def)

lemma journal_create_ok:
  assumes "disk_ok d" and "dk_faults d = []"
  shows "\<exists>j d1. journal_create session limit d = (Ok j, d1) \<and> journal_inv crc j d1 [] [] \<and> dk_faults d1 = [] \<and>
    first_seq j = 0"
proof -
  obtain ino d' where o: "open_truncate (segment_path session 0) d = (Ok ino, d')" "disk_ok d'" "dk_faults d' = []"
    "dk_lookup d' = (dk_lookup d)(segment_path session 0 \<mapsto> ino)" "dk_data d' = (dk_data d)(ino := [])"
    using open_truncate_ok [OF assms] by blast
  then show ?thesis
    by (auto simp: journal_create_def segment_create_def disk_call_defs assms(2) journal_inv_def seg_holds_def
        size_of_def first_seq_def)
qed

lemma append_run_ok:
  assumes "journal_inv crc j d prev cur" and "dk_faults d = []"
    and "list_all (\<lambda>c. length (recorded c) < 2 ^ 32) cs"
  shows "\<exists>seqs j' d' prev' cur' k. append_run crc cs j d = (seqs, j', d') \<and> journal_inv crc j' d' prev' cur' \<and>
    dk_faults d' = [] \<and> prev' @ cur' = drop k (prev @ cur @ payloads cs) \<and> first_seq j' = first_seq j + k \<and>
    k \<le> length (prev @ cur @ payloads cs) \<and> (payloads cs = [] \<longrightarrow> k = 0) \<and>
    (payloads cs \<noteq> [] \<longrightarrow> k < length (prev @ cur @ payloads cs))"
  using assms
proof (induction cs arbitrary: j d prev cur)
  case Nil
  then show ?case
    by (intro exI [of _ "[]"] exI [of _ j] exI [of _ d] exI [of _ prev] exI [of _ cur] exI [of _ 0]) (simp add: payloads_def)
next
  case (Cons c cs)
  have len: "length (recorded c) < 2 ^ 32" "list_all (\<lambda>c. length (recorded c) < 2 ^ 32) cs"
    using Cons.prems(3) by simp_all
  show ?case
  proof (cases "recorded c = []")
    case True
    then have "journal_append crc c j d = (Ok None, j, d)" "payloads (c # cs) = payloads cs"
      by (simp_all add: journal_append_def payloads_def)
    with Cons.IH [OF Cons.prems(1,2) len(2)] show ?thesis
      by (auto simp: Let_def)
  next
    case False
    then obtain j1 d1 prev1 cur1 i where one: "journal_append crc c j d = (Ok (Some (next_seq j)), j1, d1)"
      "journal_inv crc j1 d1 prev1 cur1" "dk_faults d1 = []" "i \<in> {0, length prev}"
      "prev1 @ cur1 = drop i (prev @ cur) @ [recorded c]" "first_seq j1 = first_seq j + i"
      using journal_append_ok [OF Cons.prems(1,2) _ len(1)] by blast
    obtain seqs j' d' prev' cur' k where rest: "append_run crc cs j1 d1 = (seqs, j', d')" "journal_inv crc j' d' prev' cur'"
      "dk_faults d' = []" "prev' @ cur' = drop k (prev1 @ cur1 @ payloads cs)" "first_seq j' = first_seq j1 + k"
      "k \<le> length (prev1 @ cur1 @ payloads cs)" "payloads cs = [] \<longrightarrow> k = 0"
      "payloads cs \<noteq> [] \<longrightarrow> k < length (prev1 @ cur1 @ payloads cs)"
      using Cons.IH [OF one(2,3) len(2)] by blast
    have cs: "payloads (c # cs) = recorded c # payloads cs"
      using False by (simp add: payloads_def)
    have i: "i \<le> length prev"
      using one(4) by auto
    have all: "prev1 @ cur1 @ payloads cs = drop i (prev @ cur @ payloads (c # cs))"
      using arg_cong [OF one(5), of "\<lambda>xs. xs @ payloads cs"] i cs by simp
    have k: "k < length (prev1 @ cur1 @ payloads cs)"
      using rest(7,8) arg_cong [OF one(5), of length] by (cases "payloads cs = []") auto
    then have "i + k < length (prev @ cur @ payloads (c # cs))"
      unfolding all by simp
    moreover have "prev' @ cur' = drop (i + k) (prev @ cur @ payloads (c # cs))"
      using rest(4) unfolding all drop_drop add.commute [of k] .
    ultimately show ?thesis
      using one(1,6) rest(1-3,5) cs
      by (intro exI [of _ "next_seq j # seqs"] exI [of _ j'] exI [of _ d'] exI [of _ prev'] exI [of _ cur'] exI [of _ "i + k"])
        (simp add: add.assoc)
  qed
qed

lemma journal_read_ok:
  assumes "journal_inv crc j d prev cur" and "dk_faults d = []" and "next_seq j \<le> 2 ^ 64"
  shows "journal_read_from crc from m j d =
    (budget_take m (drop (from - first_seq j) (numbered (first_seq j) (prev @ cur))), d)"
proof -
  define f i where "f = max from (first_seq j)" and "i = from - first_seq j"
  have f: "f = first_seq j + i"
    by (auto simp: f_def i_def)
  have cur: "seg_holds crc d (sj_current j) cur" "end_seq (sj_current j) \<le> 2 ^ 64"
    and at: "js_first_seq (sj_current j) = first_seq j + length prev"
    using assms journal_inv_end(2) [OF assms(1)] by (auto simp: journal_inv_def next_seq_def)
  let ?out = "budget_take m (drop i (numbered (first_seq j) prev))"
  have prev: "(case sj_previous j of None \<Rightarrow> (([], 0), d) | Some p \<Rightarrow> segment_read_from crc f m p d) =
      ((?out, data_total ?out), d)"
  proof (cases "sj_previous j")
    case None
    then show ?thesis
      using assms(1) by (auto simp: journal_inv_def)
  next
    case (Some p)
    then have p: "seg_holds crc d p prev" "end_seq p \<le> 2 ^ 64" "js_first_seq p = first_seq j"
      using assms(1,3) by (auto simp: journal_inv_def first_seq_def next_seq_def end_seq_def)
    show ?thesis
      using segment_read_ok [OF p(1) assms(2) p(2), of f m] p(3) Some f by simp
  qed
  let ?resume = "if ?out = [] then f else jc_sequence (last ?out) + 1"
  have cont: "segment_read_from crc ?resume (m - data_total ?out) (sj_current j) d =
      ((budget_take (m - data_total ?out) (drop (i - length prev) (numbered (first_seq j + length prev) cur)),
        data_total (budget_take (m - data_total ?out) (drop (i - length prev) (numbered (first_seq j + length prev) cur)))), d)"
  proof (cases "m - data_total ?out = 0")
    case True
    then show ?thesis
      by (simp add: segment_read_from_def)
  next
    case False
    then have "?out = numbered f (drop i prev)" if "i < length prev"
      using budget_take_all [of m "drop i (numbered (first_seq j) prev)"] that drop_numbered [of i prev] f by simp
    then have "?resume = max f (first_seq j + length prev)" if "i < length prev"
      using that last_numbered [of "drop i prev" f] f by auto
    moreover have "?resume = f" if "length prev \<le> i"
      using that by simp
    ultimately have "js_first_seq (sj_current j) \<le> ?resume" "?resume - js_first_seq (sj_current j) = i - length prev"
      using at f by (cases "i < length prev"; force simp: max_def)+
    then show ?thesis
      using segment_read_ok [OF cur(1) assms(2) cur(2), of ?resume] at by simp
  qed
  have "journal_read_from crc from m j d =
      (?out @ budget_take (m - data_total ?out) (drop (i - length prev) (numbered (first_seq j + length prev) cur)), d)"
    unfolding journal_read_from_def Let_def f_def [symmetric] prev prod.case cont ..
  then show ?thesis
    by (simp add: budget_take_append numbered_append i_def)
qed

lemma journal_run_ok:
  assumes "disk_ok d" and "dk_faults d = []"
    and "list_all (\<lambda>c. length (recorded c) < 2 ^ 32) cs" and "length (payloads cs) \<le> 2 ^ 64"
  shows "\<exists>j d1 seqs j' d2 k. journal_create session limit d = (Ok j, d1) \<and> append_run crc cs j d1 = (seqs, j', d2) \<and>
    first_seq j' = k \<and> (payloads cs = [] \<or> k < length (payloads cs)) \<and>
    (\<forall>f m. journal_read_from crc f m j' d2 = (budget_take m (drop (max f k) (numbered 0 (payloads cs))), d2))"
proof -
  obtain j d1 where j: "journal_create session limit d = (Ok j, d1)" "journal_inv crc j d1 [] []" "dk_faults d1 = []"
    "first_seq j = 0"
    using journal_create_ok [OF assms(1,2)] by blast
  obtain seqs j' d2 prev cur k where run: "append_run crc cs j d1 = (seqs, j', d2)" "journal_inv crc j' d2 prev cur"
    "dk_faults d2 = []" "prev @ cur = drop k (payloads cs)" "first_seq j' = k" "k \<le> length (payloads cs)"
    "payloads cs = [] \<or> k < length (payloads cs)"
    using append_run_ok [OF j(2,3) assms(3)] unfolding j(4) append_Nil add_0 by blast
  have all: "numbered k (prev @ cur) = drop k (numbered 0 (payloads cs))"
    using drop_numbered [OF run(6), of 0] run(4) by simp
  have "next_seq j' \<le> 2 ^ 64"
    using journal_inv_end(1) [OF run(2)] arg_cong [OF run(4), of length] run(5,6) assms(4) by simp
  from journal_read_ok [OF run(2,3) this]
  have "journal_read_from crc f m j' d2 = (budget_take m (drop (max f k) (numbered 0 (payloads cs))), d2)" for f m
    using all run(5) by (simp add: max_def)
  with j run show ?thesis
    by blast
qed

lemma map_jc_data_numbered [simp]: "map jc_data (numbered s ps) = ps"
  by (induction ps arbitrary: s) simp_all

lemma budget_take_prefix: "prefix (budget_take m cs) cs"
  by (induction m cs rule: budget_take.induct) simp_all

lemma concat_payloads: "concat (payloads cs) = concat (map recorded cs)"
  unfolding payloads_def by (induction cs) simp_all

text \<open>Whatever is read of a run of chunks is a contiguous part of what they record.\<close>

lemma read_is_sublist:
  "sublist (concat (map jc_data (budget_take m (drop n (numbered 0 (payloads cs)))))) (concat (map recorded cs))"
proof -
  have "sublist (budget_take m (drop n (numbered 0 (payloads cs)))) (numbered 0 (payloads cs))"
    using prefix_imp_sublist [OF budget_take_prefix] suffix_imp_sublist [OF suffix_drop]
    by (rule sublist_order.order.trans)
  then obtain xs ys where "numbered 0 (payloads cs) = xs @ budget_take m (drop n (numbered 0 (payloads cs))) @ ys"
    by (auto simp: sublist_def)
  from arg_cong [OF this, of "\<lambda>zs. concat (map jc_data zs)"] show ?thesis
    by (auto simp: concat_payloads sublist_def simp del: map_map)
qed

section \<open>Properties\<close>

text \<open>
  C11. The journal refines a numbered list: after a fresh journal was fed any chunks on a working disk,
  reading it from a sequence number returns the non-empty payloads with their numbers from there on, up
  to the byte budget, less the oldest \<open>k\<close> that rotation dropped; the last payload is always among those
  kept.
\<close>

theorem journal_replays_tail:
  assumes "disk_ok d" and "dk_faults d = []"
    and "list_all (\<lambda>c. length (recorded c) < 2 ^ 32) cs" and "length (payloads cs) \<le> 2 ^ 64"
  shows "\<exists>j d1 seqs j' d2 k. journal_create session limit d = (Ok j, d1) \<and> append_run crc cs j d1 = (seqs, j', d2) \<and>
    first_seq j' = k \<and> (payloads cs = [] \<or> k < length (payloads cs)) \<and>
    (\<forall>f m. journal_read_from crc f m j' d2 = (budget_take m (drop (max f k) (numbered 0 (payloads cs))), d2))"
  using assms by (rule journal_run_ok)

theorem journal_replays_tail_witness:
  "\<exists>j d1 seqs j' d2. journal_create ''s'' 0 (sample_disk []) = (Ok j, d1) \<and>
    append_run (\<lambda>_. 0) [sample_chunk ''cd'', sample_chunk []] j d1 = (seqs, j', d2) \<and>
    journal_read_from (\<lambda>_. 0) 0 100 j' d2 = ([\<lparr>jc_sequence = 0, jc_data = ''cd''\<rparr>], d2)"
proof -
  have cs: "payloads [sample_chunk ''cd'', sample_chunk []] = [''cd'']"
    by (simp add: payloads_def sample_chunk_def)
  have ok: "disk_ok (sample_disk [])" "dk_faults (sample_disk []) = []"
    using sample_inv [of "[]"] by (simp_all add: journal_inv_def sample_disk_def)
  obtain j d1 seqs j' d2 k where "journal_create ''s'' 0 (sample_disk []) = (Ok j, d1)"
    "append_run (\<lambda>_. 0) [sample_chunk ''cd'', sample_chunk []] j d1 = (seqs, j', d2)" "k < 1"
    "\<forall>f m. journal_read_from (\<lambda>_. 0) f m j' d2 = (budget_take m (drop (max f k) (numbered 0 [''cd''])), d2)"
    using journal_replays_tail [OF ok, of "[sample_chunk ''cd'', sample_chunk []]" "''s''" 0 "\<lambda>_. 0"]
    unfolding cs by (auto simp: sample_chunk_def)
  then show ?thesis
    by auto
qed

text \<open>
  C32. Sequence numbers are contiguous whatever fails: the numbers a run of appends hands out are exactly
  those from the journal's next one up to the next one after the run, in order, so a failed append
  consumes no number and an empty chunk mints none.
\<close>

theorem journal_sequences_contiguous:
  "fst (append_run crc cs j d) = [next_seq j..<next_seq (fst (snd (append_run crc cs j d)))]"
  using append_run_numbers [of crc cs j d] by (cases "append_run crc cs j d") simp

text \<open>
  C33. The disk bound: whatever fails, the two segments of a fresh journal count at most the segment limit
  each, as long as no single record is larger than the limit.
\<close>

theorem journal_bounded:
  assumes "journal_create session limit d = (Ok j, d1)" and "append_run crc cs j d1 = (seqs, j', d2)"
    and "list_all (\<lambda>c. record_len (length (recorded c)) \<le> max limit (64 * 1024)) cs"
  shows "js_bytes (sj_current j') \<le> max limit (64 * 1024) \<and>
    (\<forall>p. sj_previous j' = Some p \<longrightarrow> js_bytes p \<le> max limit (64 * 1024))"
proof -
  have "within_limit j" "sj_segment_limit j = max limit (64 * 1024)"
    using assms(1)
    by (auto simp: journal_create_def within_limit_def split: prod.splits sum.splits dest!: segment_create_numbers)
  then show ?thesis
    using append_run_within [OF assms(2)] assms(3) by (auto simp: within_limit_def split: option.splits)
qed

theorem journal_bounded_witness:
  "\<exists>j d1 seqs j' d2. journal_create ''s'' 0 (sample_disk []) = (Ok j, d1) \<and>
    append_run (\<lambda>_. 0) [sample_chunk ''cd''] j d1 = (seqs, j', d2) \<and> js_bytes (sj_current j') \<le> 64 * 1024"
proof -
  obtain j d1 where create: "journal_create ''s'' 0 (sample_disk []) = (Ok j, d1)"
    by (simp add: journal_create_def segment_create_def sample_disk_def disk_call_defs open_truncate_def dk_lookup_def)
  obtain seqs j' d2 where run: "append_run (\<lambda>_. 0) [sample_chunk ''cd''] j d1 = (seqs, j', d2)"
    by (metis prod.exhaust)
  show ?thesis
    using journal_bounded [OF create run] create run
    by (auto simp: sample_chunk_def record_len_def HEADER_BYTES_def TRAILER_BYTES_def)
qed

text \<open>
  A write that fails part-way leaves its bytes in the segment file and the index without them: the
  next append succeeds, and reading back what it stored returns nothing.
\<close>

lemma journal_chunk_after_failed_write_lost:
  "(let d = sample_disk [Some 3];
        (r1, j1, d1) = journal_append (\<lambda>_. 0) (sample_chunk ''cd'') sample_journal d;
        (r2, j2, d2) = journal_append (\<lambda>_. 0) (sample_chunk ''ef'') j1 d1
    in r1 = Err Eio \<and> r2 = Ok (Some 1) \<and> next_seq j2 = 2 \<and> fst (journal_read_from (\<lambda>_. 0) 1 100 j2 d2) = [])"
  by code_simp

end
