(* ===== verification/Status.thy ===== *)
theory Status
  imports Protocol
begin

text \<open>
  The shared runtime status: \<open>crates/sealant-runtime-core/src/status.rs\<close>.

  The operations are state transformers of the record \<open>runtime_status\<close>, one atomic access each. The
  one that is not a single access, \<open>saturating_decrement\<close>, is also modelled as the source runs it: a
  load and a loop of weak compare-exchanges that other threads' accesses interleave with, as the step
  relation \<open>counter_step\<close>. The theorems: every interleaving has the effect of some order of atomic
  increments and decrements, one per call, and a call always can finish; the counters never wrap
  below zero.
\<close>

fun state_to_u8 :: "runtime_state \<Rightarrow> 8 word" where
  "state_to_u8 RtStarting = 0"
| "state_to_u8 RtHealthy = 1"
| "state_to_u8 RtDegraded = 2"
| "state_to_u8 RtUnhealthy = 3"
| "state_to_u8 RtShuttingDown = 4"
| "state_to_u8 RtStopped = 5"

definition state_from_u8 :: "8 word \<Rightarrow> runtime_state" where
  "state_from_u8 v =
     (if v = 0 then RtStarting else if v = 1 then RtHealthy else if v = 2 then RtDegraded
      else if v = 3 then RtUnhealthy else if v = 4 then RtShuttingDown else RtStopped)"

record runtime_status =
  rt_state :: "8 word"
  rt_active_processes :: u32
  rt_active_sessions :: u32
  rt_active_executions :: u32
  rt_redacted_events :: u32
  rt_degradation :: "string list"

definition status_new :: runtime_status where
  "status_new =
     \<lparr>rt_state = state_to_u8 RtStarting, rt_active_processes = 0, rt_active_sessions = 0,
      rt_active_executions = 0, rt_redacted_events = 0, rt_degradation = []\<rparr>"

definition add_redacted :: "u32 \<Rightarrow> runtime_status \<Rightarrow> runtime_status" where
  "add_redacted n st = (if 0 < n then st\<lparr>rt_redacted_events := rt_redacted_events st + n\<rparr> else st)"

definition redacted_total :: "runtime_status \<Rightarrow> u32" where
  "redacted_total st = rt_redacted_events st"

definition status_state :: "runtime_status \<Rightarrow> runtime_state" where
  "status_state st = state_from_u8 (rt_state st)"

definition set_state :: "runtime_state \<Rightarrow> runtime_status \<Rightarrow> runtime_status" where
  "set_state s st = st\<lparr>rt_state := state_to_u8 s\<rparr>"

text \<open>The whole of \<open>saturating_decrement\<close> when nothing interleaves with it.\<close>

definition saturating_decrement :: "u32 \<Rightarrow> u32" where
  "saturating_decrement c = (if 0 < c then c - 1 else c)"

definition inc_processes :: "runtime_status \<Rightarrow> runtime_status" where
  "inc_processes st = st\<lparr>rt_active_processes := rt_active_processes st + 1\<rparr>"

definition dec_processes :: "runtime_status \<Rightarrow> runtime_status" where
  "dec_processes st = st\<lparr>rt_active_processes := saturating_decrement (rt_active_processes st)\<rparr>"

definition inc_sessions :: "runtime_status \<Rightarrow> runtime_status" where
  "inc_sessions st = st\<lparr>rt_active_sessions := rt_active_sessions st + 1\<rparr>"

definition dec_sessions :: "runtime_status \<Rightarrow> runtime_status" where
  "dec_sessions st = st\<lparr>rt_active_sessions := saturating_decrement (rt_active_sessions st)\<rparr>"

definition inc_executions :: "runtime_status \<Rightarrow> runtime_status" where
  "inc_executions st = st\<lparr>rt_active_executions := rt_active_executions st + 1\<rparr>"

definition dec_executions :: "runtime_status \<Rightarrow> runtime_status" where
  "dec_executions st = st\<lparr>rt_active_executions := saturating_decrement (rt_active_executions st)\<rparr>"

definition status_counts :: "runtime_status \<Rightarrow> u32 \<times> u32 \<times> u32" where
  "status_counts st = (rt_active_processes st, rt_active_sessions st, rt_active_executions st)"

definition add_degradation :: "string \<Rightarrow> runtime_status \<Rightarrow> runtime_status" where
  "add_degradation reason st =
     (if reason \<in> set (rt_degradation st) then st
      else st\<lparr>rt_degradation := rt_degradation st @ [reason]\<rparr>)"

definition clear_degradation :: "runtime_status \<Rightarrow> runtime_status" where
  "clear_degradation st = st\<lparr>rt_degradation := []\<rparr>"

definition degradation_reasons :: "runtime_status \<Rightarrow> string list" where
  "degradation_reasons st = rt_degradation st"

section \<open>The compare-exchange loop\<close>

text \<open>
  Where a thread is in \<open>saturating_decrement\<close>: before the load, in the loop with the value it read, or
  returned. \<open>cs_log\<close> is the order in which the calls took effect.
\<close>

datatype dec_pc = DecStart | DecLoop u32 | DecDone

datatype counter_op = OpInc | OpDec nat

record counter_state =
  cs_counter :: u32
  cs_pc :: "nat \<Rightarrow> dec_pc"
  cs_log :: "counter_op list"

text \<open>The loop's test of the value just read: go on, or return having done nothing to a zero.\<close>

definition observe :: "nat \<Rightarrow> counter_state \<Rightarrow> counter_state" where
  "observe t s =
     (if 0 < cs_counter s then s\<lparr>cs_pc := (cs_pc s)(t := DecLoop (cs_counter s))\<rparr>
      else s\<lparr>cs_pc := (cs_pc s)(t := DecDone), cs_log := cs_log s @ [OpDec t]\<rparr>)"

inductive counter_step :: "counter_state \<Rightarrow> counter_state \<Rightarrow> bool" where
  fetch_add: "counter_step s (s\<lparr>cs_counter := cs_counter s + 1, cs_log := cs_log s @ [OpInc]\<rparr>)"
| load: "cs_pc s t = DecStart \<Longrightarrow> counter_step s (observe t s)"
| exchange: "cs_pc s t = DecLoop (cs_counter s) \<Longrightarrow>
    counter_step s (s\<lparr>cs_counter := cs_counter s - 1, cs_pc := (cs_pc s)(t := DecDone), cs_log := cs_log s @ [OpDec t]\<rparr>)"
| refused: "cs_pc s t = DecLoop current \<Longrightarrow> counter_step s (observe t s)"

definition counter_init :: "u32 \<Rightarrow> counter_state" where
  "counter_init c = \<lparr>cs_counter = c, cs_pc = (\<lambda>_. DecStart), cs_log = []\<rparr>"

inductive counter_reach :: "u32 \<Rightarrow> counter_state \<Rightarrow> bool" for c0 where
  start: "counter_reach c0 (counter_init c0)"
| step: "counter_reach c0 s \<Longrightarrow> counter_step s s' \<Longrightarrow> counter_reach c0 s'"

fun apply_op :: "counter_op \<Rightarrow> u32 \<Rightarrow> u32" where
  "apply_op OpInc c = c + 1"
| "apply_op (OpDec t) c = saturating_decrement c"

definition counter_inv :: "u32 \<Rightarrow> counter_state \<Rightarrow> bool" where
  "counter_inv c0 s \<longleftrightarrow>
     cs_counter s = fold apply_op (cs_log s) c0 \<and>
     (\<forall>t. count_list (cs_log s) (OpDec t) = (if cs_pc s t = DecDone then 1 else 0)) \<and>
     (\<forall>t current. cs_pc s t = DecLoop current \<longrightarrow> 0 < current)"

lemma observe_inv:
  "counter_inv c0 s \<Longrightarrow> cs_pc s t \<noteq> DecDone \<Longrightarrow> counter_inv c0 (observe t s)"
  by (auto simp: counter_inv_def observe_def saturating_decrement_def)

lemma counter_inv_step:
  assumes "counter_inv c0 s" and "counter_step s s'"
  shows "counter_inv c0 s'"
  using assms(2)
proof (cases rule: counter_step.cases)
  case fetch_add
  with assms(1) show ?thesis
    by (auto simp: counter_inv_def)
next
  case (load t)
  with assms(1) show ?thesis
    by (simp add: observe_inv)
next
  case (exchange t)
  with assms(1) show ?thesis
    by (auto simp: counter_inv_def saturating_decrement_def)
next
  case (refused t current)
  with assms(1) show ?thesis
    by (simp add: observe_inv)
qed

lemma counter_reach_inv: "counter_reach c0 s \<Longrightarrow> counter_inv c0 s"
proof (induction rule: counter_reach.induct)
  case start
  then show ?case
    by (simp add: counter_inv_def counter_init_def)
next
  case (step s s')
  then show ?case
    using counter_inv_step by blast
qed

lemma state_roundtrip: "state_from_u8 (state_to_u8 s) = s"
  by (cases s) (simp_all add: state_from_u8_def)

section \<open>Properties\<close>

text \<open>
  C34. The counters are linearisable: in every interleaving of increments and of calls of
  \<open>saturating_decrement\<close>, the counter is what the increments and saturating decrements give one after
  the other in the order they took effect, and a call has taken effect exactly once when it has
  returned and not at all before.
\<close>

theorem counter_linearisable:
  assumes "counter_reach c0 s"
  shows "cs_counter s = fold apply_op (cs_log s) c0 \<and>
    (\<forall>t. count_list (cs_log s) (OpDec t) = (if cs_pc s t = DecDone then 1 else 0))"
  using counter_reach_inv [OF assms] by (simp add: counter_inv_def)

theorem counter_linearisable_witness:
  "\<exists>s. counter_reach 1 s \<and> cs_log s = [OpInc, OpDec 0] \<and> cs_counter s = fold apply_op [OpInc, OpDec 0] 1"
proof -
  let ?s1 = "observe 0 (counter_init 1)"
  let ?s2 = "?s1\<lparr>cs_counter := cs_counter ?s1 + 1, cs_log := cs_log ?s1 @ [OpInc]\<rparr>"
  let ?s3 = "observe 0 ?s2"
  let ?s4 = "?s3\<lparr>cs_counter := cs_counter ?s3 - 1, cs_pc := (cs_pc ?s3)(0 := DecDone), cs_log := cs_log ?s3 @ [OpDec 0]\<rparr>"
  have "counter_reach 1 ?s1"
    by (rule counter_reach.step [OF counter_reach.start load]) (simp add: counter_init_def)
  then have "counter_reach 1 ?s2"
    by (rule counter_reach.step [OF _ fetch_add])
  then have "counter_reach 1 ?s3"
    by (rule counter_reach.step [OF _ refused [where current = 1]]) (simp add: observe_def counter_init_def)
  then have "counter_reach 1 ?s4"
    by (rule counter_reach.step [OF _ exchange]) (simp add: observe_def counter_init_def)
  moreover have "cs_log ?s4 = [OpInc, OpDec 0]"
    by (simp add: observe_def counter_init_def)
  ultimately show ?thesis
    using counter_linearisable [of 1 ?s4] by metis
qed

text \<open>
  C35. A call of \<open>saturating_decrement\<close> is never stuck: from every state, whatever the other
  threads have done, the calling thread reaches its return by at most two steps of its own.
\<close>

theorem decrement_can_finish:
  "\<exists>s1 s2. (s1 = s \<or> counter_step s s1) \<and> (s2 = s1 \<or> counter_step s1 s2) \<and> cs_pc s2 t = DecDone"
proof -
  have obs: "\<exists>s2. (s2 = observe t s \<or> counter_step (observe t s) s2) \<and> cs_pc s2 t = DecDone"
  proof (cases "0 < cs_counter s")
    case True
    then show ?thesis
      using exchange [of "observe t s" t] by (fastforce simp: observe_def)
  next
    case False
    then show ?thesis
      by (auto simp: observe_def)
  qed
  show ?thesis
  proof (cases "cs_pc s t")
    case DecStart
    then show ?thesis
      using obs load [of s t] by blast
  next
    case (DecLoop current)
    then show ?thesis
      using obs refused [of s t current] by blast
  next
    case DecDone
    then show ?thesis
      by blast
  qed
qed

end
