(* ===== verification/Idgen.thy ===== *)
theory Idgen
  imports Rust_Str Protocol
begin

text \<open>
  Logical identifiers: \<open>crates/sealant-runtime-core/src/idgen.rs\<close>, with the prefixes of
  \<open>crates/sealant-protocol/src/ids.rs\<close>. The counter is a 64-bit word that wraps, as the atomic does.
  The theorem: no two of \<open>2 ^ 64\<close> identifiers minted in a row are the same, whatever their kinds.
\<close>

record id_generator =
  ig_token :: string
  ig_counter :: u64

definition UNDERSCORE :: byte where
  "UNDERSCORE = CHR ''_''"

definition idgen_new :: "id \<Rightarrow> id_generator" where
  "idgen_new runtime_id =
     (let t = rsplit_next UNDERSCORE runtime_id
      in \<lparr>ig_token = (if t = [] then ''0'' else t), ig_counter = 0\<rparr>)"

definition mint :: "string \<Rightarrow> id_generator \<Rightarrow> id \<times> id_generator" where
  "mint pre g =
     (pre @ [UNDERSCORE] @ ig_token g @ [UNDERSCORE] @ hex_lower (unat (ig_counter g)),
      g\<lparr>ig_counter := ig_counter g + 1\<rparr>)"

definition session_id :: "id_generator \<Rightarrow> id \<times> id_generator" where
  "session_id = mint ''ses''"

definition process_id :: "id_generator \<Rightarrow> id \<times> id_generator" where
  "process_id = mint ''proc''"

definition event_id :: "id_generator \<Rightarrow> id \<times> id_generator" where
  "event_id = mint ''evt''"

definition request_id :: "id_generator \<Rightarrow> id \<times> id_generator" where
  "request_id = mint ''req''"

definition channel_id :: "id_generator \<Rightarrow> id \<times> id_generator" where
  "channel_id = mint ''chan''"

text \<open>A run of mints of any kinds.\<close>

fun mint_run :: "string list \<Rightarrow> id_generator \<Rightarrow> id list \<times> id_generator" where
  "mint_run [] g = ([], g)"
| "mint_run (p # ps) g = (let (i, g1) = mint p g; (is, g2) = mint_run ps g1 in (i # is, g2))"

lemma minted_counter: "rsplit_next UNDERSCORE (fst (mint p g)) = hex_lower (unat (ig_counter g))"
proof -
  have "UNDERSCORE \<notin> set (hex_lower (unat (ig_counter g)))"
    using hex_lower_chars [of UNDERSCORE]
    by (auto simp: UNDERSCORE_def is_ascii_digit_def is_ascii_lowercase_def)
  from rsplit_next_sep [OF this, of "p @ [UNDERSCORE] @ ig_token g"] show ?thesis
    by (simp add: mint_def)
qed

lemma mint_run_counters:
  "map (rsplit_next UNDERSCORE) (fst (mint_run ps g)) =
     map (\<lambda>i. hex_lower (unat (ig_counter g + word_of_nat i))) [0..<length ps]"
proof (induction ps arbitrary: g)
  case (Cons p ps)
  obtain i g1 where m: "mint p g = (i, g1)"
    by (metis prod.exhaust)
  then have "ig_counter g1 = ig_counter g + 1" "rsplit_next UNDERSCORE i = hex_lower (unat (ig_counter g))"
    using minted_counter [of p g] by (auto simp: mint_def)
  then show ?case
    using Cons.IH [of g1] m
    by (simp add: case_prod_beta upt_conv_Cons map_Suc_upt [symmetric] add.assoc del: upt_Suc)
qed simp

section \<open>Properties\<close>

text \<open>
  C37. The identifiers a generator mints in a row are pairwise distinct, up to the \<open>2 ^ 64\<close> after which
  its counter wraps, whatever kinds of identifier they are.
\<close>

theorem minted_ids_distinct:
  assumes "length ps \<le> 2 ^ 64"
  shows "distinct (fst (mint_run ps g))"
proof -
  have "i = k"
    if "unat (ig_counter g + word_of_nat i) = unat (ig_counter g + word_of_nat k)" "i < length ps" "k < length ps" for i k
  proof -
    have "(word_of_nat i :: u64) = word_of_nat k"
      using that(1) unfolding word_unat_eq_iff [symmetric] by (rule add_left_imp_eq)
    with that(2,3) assms show ?thesis
      by (auto intro: u64_of_nat_inj)
  qed
  then have "inj_on (\<lambda>i. hex_lower (unat (ig_counter g + word_of_nat i))) {0..<length ps}"
    by (auto simp: inj_on_def dest!: hex_lower_inj)
  then have "distinct (map (rsplit_next UNDERSCORE) (fst (mint_run ps g)))"
    unfolding mint_run_counters by (simp add: distinct_map)
  then show ?thesis
    by (simp add: distinct_map)
qed

theorem minted_ids_distinct_witness:
  "distinct (fst (mint_run [''evt'', ''proc'', ''evt''] (idgen_new ''rt_1f'')))"
  using minted_ids_distinct [of "[''evt'', ''proc'', ''evt'']" "idgen_new ''rt_1f''"] by simp

end
