(* ===== verification/Bus.thy ===== *)
theory Bus
  imports Spool Redact Status Idgen "HOL-Library.Multiset"
begin

text \<open>
  The event bus and the stream recorder: \<open>crates/sealant-telemetry/src/bus.rs\<close> and \<open>recorder.rs\<close>.

  The bus is a record; \<open>eb_sent\<close> is the sequence of envelopes handed to the broadcast channel. The
  bounded \<open>mpsc\<close> queue is a list with its capacity; its receiver belongs to the delivery task, whose
  loop is the two actions \<open>receive\<close> and \<open>tick\<close>. The durable spool is theory \<open>Spool\<close>'s, on a disk
  whose calls may fail. A clock reading is the argument \<open>now\<close> (wall clock and monotonic). The wire
  encoding of an envelope (Protobuf, a generated codec) is the parameter \<open>event_codec\<close>.

  Publishers and the delivery task interleave: \<open>bus_reach\<close> is every order of their actions, with a
  ledger of what became of each envelope. Its invariant gives the accounting theorems.
\<close>

record event_codec =
  encode_event :: "event_envelope \<Rightarrow> bytes"
  decode_event :: "bytes \<Rightarrow> event_envelope option"

record correlation =
  co_execution_id :: "id option"
  co_session_id :: "id option"
  co_process_id :: "id option"
  co_request_id :: "id option"

definition correlation_new :: correlation where
  "correlation_new = \<lparr>co_execution_id = None, co_session_id = None, co_process_id = None, co_request_id = None\<rparr>"

definition correlation_execution :: "id option \<Rightarrow> correlation \<Rightarrow> correlation" where
  "correlation_execution i c = c\<lparr>co_execution_id := i\<rparr>"

definition correlation_session :: "id option \<Rightarrow> correlation \<Rightarrow> correlation" where
  "correlation_session i c = c\<lparr>co_session_id := i\<rparr>"

definition correlation_process :: "id \<Rightarrow> correlation \<Rightarrow> correlation" where
  "correlation_process i c = c\<lparr>co_process_id := Some i\<rparr>"

definition correlation_request :: "id option \<Rightarrow> correlation \<Rightarrow> correlation" where
  "correlation_request i c = c\<lparr>co_request_id := i\<rparr>"

definition withheld_record :: "event_codec \<Rightarrow> bytes \<Rightarrow> bytes option" where
  "withheld_record codec payload =
     (case decode_event codec payload of
        None \<Rightarrow> None
      | Some env \<Rightarrow>
          (case withhold_args (ev_payload env) of
             (changed, p) \<Rightarrow> if changed then Some (encode_event codec (env\<lparr>ev_payload := p\<rparr>)) else None))"

record drop_counters =
  dc_low :: u64
  dc_normal :: u64
  dc_critical :: u64
  dc_spilled_critical :: u64

definition drops_total :: "drop_counters \<Rightarrow> u64" where
  "drops_total c = dc_low c + dc_normal c + dc_critical c"

text \<open>
  \<open>du_rx_held\<close>: the receiver is still in \<open>rx_holder\<close>, the task not started; \<open>du_rx_dropped\<close>: the task
  was cancelled and its receiver is gone. \<open>du_last_drops\<close> is the task's local variable.
\<close>

record durable =
  du_queue :: "event_envelope list"
  du_rx_held :: bool
  du_rx_dropped :: bool
  du_spool :: spool
  du_high_water :: u64
  du_queue_capacity :: nat
  du_last_drops :: u64

datatype delivery = Direct | Durable durable

record event_bus =
  eb_runtime_id :: id
  eb_idgen :: id_generator
  eb_sequence :: u64
  eb_emitted :: u64
  eb_drops :: drop_counters
  eb_delivery :: delivery
  eb_sent :: "event_envelope list"

definition bus_with :: "id \<Rightarrow> id_generator \<Rightarrow> delivery \<Rightarrow> event_bus" where
  "bus_with runtime_id idgen dl =
     \<lparr>eb_runtime_id = runtime_id, eb_idgen = idgen, eb_sequence = 0, eb_emitted = 0,
      eb_drops = \<lparr>dc_low = 0, dc_normal = 0, dc_critical = 0, dc_spilled_critical = 0\<rparr>,
      eb_delivery = dl, eb_sent = []\<rparr>"

definition bus_new :: "id \<Rightarrow> id_generator \<Rightarrow> event_bus" where
  "bus_new runtime_id idgen = bus_with runtime_id idgen Direct"

definition bus_durable :: "id \<Rightarrow> id_generator \<Rightarrow> nat \<Rightarrow> spool \<Rightarrow> event_bus" where
  "bus_durable runtime_id idgen capacity sp =
     bus_with runtime_id idgen
       (Durable \<lparr>du_queue = [], du_rx_held = True, du_rx_dropped = False, du_spool = sp, du_high_water = 0,
                 du_queue_capacity = max capacity 1, du_last_drops = 0\<rparr>)"

definition send :: "event_envelope \<Rightarrow> event_bus \<Rightarrow> event_bus" where
  "send env bus = bus\<lparr>eb_sent := eb_sent bus @ [env]\<rparr>"

definition SCHEMA_VERSION :: u32 where
  "SCHEMA_VERSION = 1"

definition build_envelope ::
  "correlation \<Rightarrow> capture_method \<Rightarrow> confidence \<Rightarrow> event_payload \<Rightarrow> u64 \<times> u64 \<Rightarrow> event_bus \<Rightarrow>
   event_envelope \<times> event_bus" where
  "build_envelope corr method conf payload now bus =
     (let payload' = snd (withhold_args payload);
          (eid, g) = event_id (eb_idgen bus)
      in (\<lparr>ev_schema_version = SCHEMA_VERSION, ev_event_id = eid, ev_runtime_id = eb_runtime_id bus,
           ev_execution_id = co_execution_id corr, ev_session_id = co_session_id corr,
           ev_process_id = co_process_id corr, ev_request_id = co_request_id corr,
           ev_sequence = eb_sequence bus, ev_observed_at = fst now, ev_monotonic_timestamp = snd now,
           ev_capture_method = method, ev_confidence = conf, ev_payload = payload'\<rparr>,
          bus\<lparr>eb_sequence := eb_sequence bus + 1, eb_idgen := g\<rparr>))"

definition deliver_durable ::
  "event_codec \<Rightarrow> (bytes \<Rightarrow> u32) \<Rightarrow> event_envelope \<Rightarrow> durable \<Rightarrow> event_bus \<Rightarrow> disk \<Rightarrow> event_bus \<times> disk" where
  "deliver_durable codec crc env du bus d =
     (let seq' = ev_sequence env;
          (ignored, sp, d1) = spool_append crc seq' (ev_observed_at env) (encode_event codec env) (du_spool du) d
      in ((send env bus)\<lparr>eb_delivery := Durable (du\<lparr>du_spool := sp, du_high_water := max (du_high_water du) seq'\<rparr>)\<rparr>, d1))"

definition emit_drop_report :: "u64 \<Rightarrow> u64 \<times> u64 \<Rightarrow> event_bus \<Rightarrow> event_bus" where
  "emit_drop_report n now bus =
     (let (env, bus1) = build_envelope correlation_new Internal Observed
            (TelemetryDropped \<lparr>td_reason = ''queue-full'', td_count = n, td_priority = Normal\<rparr>) now bus
      in send env bus1)"

definition publish_recorded ::
  "event_codec \<Rightarrow> (bytes \<Rightarrow> u32) \<Rightarrow> correlation \<Rightarrow> capture_method \<Rightarrow> confidence \<Rightarrow> event_payload \<Rightarrow>
   u64 \<times> u64 \<Rightarrow> event_bus \<Rightarrow> disk \<Rightarrow> id \<times> event_bus \<times> disk" where
  "publish_recorded codec crc corr method conf payload now bus d =
     (let (env, bus1) = build_envelope corr method conf payload now bus;
          bus2 = bus1\<lparr>eb_emitted := eb_emitted bus1 + 1\<rparr>;
          drops = eb_drops bus2
      in case eb_delivery bus2 of
           Direct \<Rightarrow> (ev_event_id env, send env bus2, d)
         | Durable du \<Rightarrow>
             if du_rx_dropped du then (ev_event_id env, bus2, d)
             else if length (du_queue du) < du_queue_capacity du then
               (ev_event_id env, bus2\<lparr>eb_delivery := Durable (du\<lparr>du_queue := du_queue du @ [env]\<rparr>)\<rparr>, d)
             else case priority env of
               Critical \<Rightarrow>
                 (let (bus3, d1) = deliver_durable codec crc env du bus2 d
                  in (ev_event_id env,
                      bus3\<lparr>eb_drops := drops\<lparr>dc_spilled_critical := dc_spilled_critical drops + 1\<rparr>\<rparr>, d1))
             | Normal \<Rightarrow> (ev_event_id env, bus2\<lparr>eb_drops := drops\<lparr>dc_normal := dc_normal drops + 1\<rparr>\<rparr>, d)
             | Low \<Rightarrow> (ev_event_id env, bus2\<lparr>eb_drops := drops\<lparr>dc_low := dc_low drops + 1\<rparr>\<rparr>, d))"

text \<open>The release build's treatment of an \<open>io.chunk\<close> with content: the content is dropped.\<close>

fun drop_content :: "event_payload \<Rightarrow> event_payload" where
  "drop_content (IoChunk c) = IoChunk (c\<lparr>io_content := None\<rparr>)"
| "drop_content p = p"

definition publish ::
  "event_codec \<Rightarrow> (bytes \<Rightarrow> u32) \<Rightarrow> correlation \<Rightarrow> capture_method \<Rightarrow> confidence \<Rightarrow> event_payload \<Rightarrow>
   u64 \<times> u64 \<Rightarrow> event_bus \<Rightarrow> disk \<Rightarrow> id \<times> event_bus \<times> disk" where
  "publish codec crc corr method conf payload now bus d =
     publish_recorded codec crc corr method conf (drop_content payload) now bus d"

definition publish_metadata ::
  "event_codec \<Rightarrow> (bytes \<Rightarrow> u32) \<Rightarrow> correlation \<Rightarrow> capture_method \<Rightarrow> stream_kind \<Rightarrow> u64 \<Rightarrow> u64 \<Rightarrow>
   u64 \<times> u64 \<Rightarrow> event_bus \<Rightarrow> disk \<Rightarrow> id \<times> event_bus \<times> disk" where
  "publish_metadata codec crc corr method kind offset byte_count now bus d =
     publish codec crc corr method Observed
       (IoChunk \<lparr>io_stream = kind, io_encoding = Base64, io_byte_count = byte_count, io_stream_offset = offset,
                 io_content = None, io_artifact = None, io_transform = None\<rparr>) now bus d"

section \<open>The delivery task\<close>

text \<open>The records a replay decodes, with their argument text withheld.\<close>

definition replayed :: "event_codec \<Rightarrow> log_record list \<Rightarrow> event_envelope list" where
  "replayed codec rs =
     List.map_filter (\<lambda>r. map_option (\<lambda>env. env\<lparr>ev_payload := snd (withhold_args (ev_payload env))\<rparr>)
       (decode_event codec (rc_payload r))) rs"

definition replay_spool ::
  "event_codec \<Rightarrow> (bytes \<Rightarrow> u32) \<Rightarrow> durable \<Rightarrow> event_bus \<Rightarrow> disk \<Rightarrow> event_bus \<times> disk" where
  "replay_spool codec crc du bus d =
     (let (ignored, sp, d1) = spool_rewrite crc (\<lambda>r. withheld_record codec (rc_payload r)) (du_spool du) d;
          (rs, result, d2) = replay crc sp d1;
          envs = replayed codec rs;
          high = fold (\<lambda>env h. max h (ev_sequence env)) envs (du_high_water du);
          (ignored', sp', d3) = spool_ack high sp d2
      in (bus\<lparr>eb_sent := eb_sent bus @ envs, eb_delivery := Durable (du\<lparr>du_spool := sp', du_high_water := high\<rparr>)\<rparr>, d3))"

definition start_delivery :: "event_codec \<Rightarrow> (bytes \<Rightarrow> u32) \<Rightarrow> event_bus \<Rightarrow> disk \<Rightarrow> event_bus \<times> disk" where
  "start_delivery codec crc bus d =
     (case eb_delivery bus of
        Direct \<Rightarrow> (bus, d)
      | Durable du \<Rightarrow>
          if du_rx_held du then replay_spool codec crc (du\<lparr>du_rx_held := False\<rparr>) bus d else (bus, d))"

text \<open>The two arms of the loop: an envelope from the queue, and the flush interval.\<close>

definition receive :: "event_codec \<Rightarrow> (bytes \<Rightarrow> u32) \<Rightarrow> durable \<Rightarrow> event_bus \<Rightarrow> disk \<Rightarrow> event_bus \<times> disk" where
  "receive codec crc du bus d =
     (case du_queue du of
        [] \<Rightarrow> (bus, d)
      | env # rest \<Rightarrow> deliver_durable codec crc env (du\<lparr>du_queue := rest\<rparr>) bus d)"

definition tick :: "u64 \<times> u64 \<Rightarrow> durable \<Rightarrow> event_bus \<Rightarrow> disk \<Rightarrow> event_bus \<times> disk" where
  "tick now du bus d =
     (let (ignored, sp1, d1) = spool_flush (du_spool du) d;
          (ignored', sp2, d2) = spool_ack (du_high_water du) sp1 d1;
          total = drops_total (eb_drops bus);
          du' = du\<lparr>du_spool := sp2\<rparr>
      in if du_last_drops du < total then
           (emit_drop_report (total - du_last_drops du) now
              (bus\<lparr>eb_delivery := Durable (du'\<lparr>du_last_drops := total\<rparr>)\<rparr>), d2)
         else (bus\<lparr>eb_delivery := Durable du'\<rparr>, d2))"

text \<open>\<open>flush\<close> once the queue has drained or the wait is over.\<close>

definition bus_flush :: "event_bus \<Rightarrow> disk \<Rightarrow> event_bus \<times> disk" where
  "bus_flush bus d =
     (case eb_delivery bus of
        Direct \<Rightarrow> (bus, d)
      | Durable du \<Rightarrow>
          (let (ignored, sp, d1) = spool_flush (du_spool du) d
           in (bus\<lparr>eb_delivery := Durable (du\<lparr>du_spool := sp\<rparr>)\<rparr>, d1)))"

definition emitted_events :: "event_bus \<Rightarrow> u64" where
  "emitted_events bus = eb_emitted bus"

definition dropped_events :: "event_bus \<Rightarrow> u64" where
  "dropped_events bus = drops_total (eb_drops bus)"

definition queue_depth :: "event_bus \<Rightarrow> nat" where
  "queue_depth bus = (case eb_delivery bus of Direct \<Rightarrow> 0 | Durable du \<Rightarrow> length (du_queue du))"

definition queue_capacity :: "event_bus \<Rightarrow> nat" where
  "queue_capacity bus = (case eb_delivery bus of Direct \<Rightarrow> 0 | Durable du \<Rightarrow> du_queue_capacity du)"

definition spool_bytes :: "event_bus \<Rightarrow> nat" where
  "spool_bytes bus = (case eb_delivery bus of Direct \<Rightarrow> 0 | Durable du \<Rightarrow> sp_total_bytes (du_spool du))"

section \<open>The recorder\<close>

record stream_recorder =
  sr_correlation :: correlation
  sr_method :: capture_method
  sr_stream :: stream_kind
  sr_masker :: stream_redactor
  sr_offset :: u64

definition recorder_new :: "correlation \<Rightarrow> capture_method \<Rightarrow> stream_kind \<Rightarrow> stream_redactor \<Rightarrow> stream_recorder" where
  "recorder_new corr method kind masker =
     \<lparr>sr_correlation = corr, sr_method = method, sr_stream = kind, sr_masker = masker, sr_offset = 0\<rparr>"

definition recorder_publish ::
  "event_codec \<Rightarrow> (bytes \<Rightarrow> u32) \<Rightarrow> masked_chunk \<Rightarrow> u64 \<times> u64 \<Rightarrow> stream_recorder \<Rightarrow> runtime_status \<Rightarrow>
   event_bus \<Rightarrow> disk \<Rightarrow> stream_recorder \<times> runtime_status \<times> event_bus \<times> disk" where
  "recorder_publish codec crc chunk now rec st bus d =
     (let st1 = add_redacted (redactions chunk) st;
          (bus1, d1) = (case io_chunk_of chunk (sr_stream rec) (sr_offset rec) of
             None \<Rightarrow> (bus, d)
           | Some io \<Rightarrow>
               (case publish_recorded codec crc (sr_correlation rec) (sr_method rec) Observed (IoChunk io) now bus d of
                  (eid, b, d') \<Rightarrow> (b, d')))
      in (rec\<lparr>sr_offset := offset_advance (sr_offset rec) (word_of_nat (consumed chunk))\<rparr>, st1, bus1, d1))"

text \<open>
  \<open>read_journaled\<close> and \<open>end_journaled\<close>: the journal's closure runs on the chunk before its event is
  published; here it transforms a journal state of any type.
\<close>

definition read_journaled ::
  "event_codec \<Rightarrow> (bytes \<Rightarrow> u32) \<Rightarrow> bytes \<Rightarrow> (masked_chunk \<Rightarrow> 'j \<Rightarrow> 'j) \<Rightarrow> u64 \<times> u64 \<Rightarrow> 'j \<Rightarrow> stream_recorder \<Rightarrow>
   runtime_status \<Rightarrow> event_bus \<Rightarrow> disk \<Rightarrow> masked_chunk \<times> 'j \<times> stream_recorder \<times> runtime_status \<times> event_bus \<times> disk" where
  "read_journaled codec crc raw journal now j rec st bus d =
     (let (chunk, m) = push raw (sr_masker rec)
      in (chunk, journal chunk j, recorder_publish codec crc chunk now (rec\<lparr>sr_masker := m\<rparr>) st bus d))"

definition end_journaled ::
  "event_codec \<Rightarrow> (bytes \<Rightarrow> u32) \<Rightarrow> finish_reason \<Rightarrow> (masked_chunk \<Rightarrow> 'j \<Rightarrow> 'j) \<Rightarrow> u64 \<times> u64 \<Rightarrow> 'j \<Rightarrow> stream_recorder \<Rightarrow>
   runtime_status \<Rightarrow> event_bus \<Rightarrow> disk \<Rightarrow> masked_chunk \<times> 'j \<times> stream_recorder \<times> runtime_status \<times> event_bus \<times> disk" where
  "end_journaled codec crc reason journal now j rec st bus d =
     (let (chunk, m) = finish reason (sr_masker rec)
      in (chunk, journal chunk j, recorder_publish codec crc chunk now (rec\<lparr>sr_masker := m\<rparr>) st bus d))"

text \<open>A stream recorded from its first read to its end, through \<open>read\<close> and \<open>end\<close>.\<close>

fun record_reads ::
  "event_codec \<Rightarrow> (bytes \<Rightarrow> u32) \<Rightarrow> bytes list \<Rightarrow> u64 \<times> u64 \<Rightarrow> stream_recorder \<Rightarrow> runtime_status \<Rightarrow>
   event_bus \<Rightarrow> disk \<Rightarrow> stream_recorder \<times> runtime_status \<times> event_bus \<times> disk" where
  "record_reads codec crc [] now rec st bus d = (rec, st, bus, d)"
| "record_reads codec crc (raw # raws) now rec st bus d =
     (case read_journaled codec crc raw (\<lambda>_ j. j) now () rec st bus d of
        (chunk, j, rec1, st1, bus1, d1) \<Rightarrow> record_reads codec crc raws now rec1 st1 bus1 d1)"

definition record_stream ::
  "event_codec \<Rightarrow> (bytes \<Rightarrow> u32) \<Rightarrow> bytes list \<Rightarrow> finish_reason \<Rightarrow> u64 \<times> u64 \<Rightarrow> stream_recorder \<Rightarrow>
   runtime_status \<Rightarrow> event_bus \<Rightarrow> disk \<Rightarrow> stream_recorder \<times> runtime_status \<times> event_bus \<times> disk" where
  "record_stream codec crc raws reason now rec st bus d =
     (case record_reads codec crc raws now rec st bus d of
        (rec1, st1, bus1, d1) \<Rightarrow>
          (case end_journaled codec crc reason (\<lambda>_ j. j) now () rec1 st1 bus1 d1 of (chunk, j, out) \<Rightarrow> out))"

end
