(* ===== verification/Bus_Correct.thy ===== *)
theory Bus_Correct
  imports Bus Spool_Correct Redact_Secrecy
begin

text \<open>
  Correctness of the event bus and of the recorder over it.

  \<open>bus_reach\<close> is every interleaving of publishers, the delivery task, flushes and the task's
  cancellation, on a disk whose calls may all fail, with a ledger of what became of each envelope.
  \<open>bus_inv\<close> holds in all of them; the theorems read the accounting, the ordering and the secrecy of
  the bus off it, and compose the bus with the spool and with the redactor.
\<close>

record ledger =
  lg_published :: "event_envelope list"
  lg_reports :: "event_envelope list"
  lg_replayed :: "event_envelope list"
  lg_dropped :: "event_envelope list"
  lg_lost :: "event_envelope list"

definition empty_ledger :: ledger where
  "empty_ledger = \<lparr>lg_published = [], lg_reports = [], lg_replayed = [], lg_dropped = [], lg_lost = []\<rparr>"

text \<open>An envelope the full queue refuses is dropped unless it is critical; a cancelled task loses all.\<close>

definition refused :: "event_bus \<Rightarrow> event_envelope \<Rightarrow> bool" where
  "refused bus env \<longleftrightarrow>
     (case eb_delivery bus of
        Direct \<Rightarrow> False
      | Durable du \<Rightarrow>
          \<not> du_rx_dropped du \<and> du_queue_capacity du \<le> length (du_queue du) \<and> priority env \<noteq> Critical)"

definition unheard :: "event_bus \<Rightarrow> bool" where
  "unheard bus \<longleftrightarrow> (case eb_delivery bus of Direct \<Rightarrow> False | Durable du \<Rightarrow> du_rx_dropped du)"

definition note_published :: "event_bus \<Rightarrow> event_envelope \<Rightarrow> ledger \<Rightarrow> ledger" where
  "note_published bus env l =
     l\<lparr>lg_published := lg_published l @ [env],
       lg_dropped := lg_dropped l @ (if refused bus env then [env] else []),
       lg_lost := lg_lost l @ (if unheard bus then [env] else [])\<rparr>"

definition sent_since :: "event_bus \<Rightarrow> event_bus \<Rightarrow> event_envelope list" where
  "sent_since bus bus' = drop (length (eb_sent bus)) (eb_sent bus')"

inductive bus_reach :: "event_codec \<Rightarrow> (bytes \<Rightarrow> u32) \<Rightarrow> event_bus \<Rightarrow> disk \<Rightarrow> ledger \<Rightarrow> bool" for codec crc where
  direct: "bus_reach codec crc (bus_new rid g) d empty_ledger"
| durable: "bus_reach codec crc (bus_durable rid g capacity sp) d empty_ledger"
| published: "bus_reach codec crc bus d l \<Longrightarrow>
    publish_recorded codec crc corr meth conf payload now bus d = (eid, bus', d') \<Longrightarrow>
    env = fst (build_envelope corr meth conf payload now bus) \<Longrightarrow>
    bus_reach codec crc bus' d' (note_published bus env l)"
| started: "bus_reach codec crc bus d l \<Longrightarrow> start_delivery codec crc bus d = (bus', d') \<Longrightarrow>
    bus_reach codec crc bus' d' (l\<lparr>lg_replayed := lg_replayed l @ sent_since bus bus'\<rparr>)"
| received: "bus_reach codec crc bus d l \<Longrightarrow> eb_delivery bus = Durable du \<Longrightarrow>
    \<not> du_rx_held du \<Longrightarrow> \<not> du_rx_dropped du \<Longrightarrow> receive codec crc du bus d = (bus', d') \<Longrightarrow>
    bus_reach codec crc bus' d' l"
| ticked: "bus_reach codec crc bus d l \<Longrightarrow> eb_delivery bus = Durable du \<Longrightarrow>
    \<not> du_rx_held du \<Longrightarrow> \<not> du_rx_dropped du \<Longrightarrow> tick now du bus d = (bus', d') \<Longrightarrow>
    bus_reach codec crc bus' d' (l\<lparr>lg_reports := lg_reports l @ sent_since bus bus'\<rparr>)"
| flushed: "bus_reach codec crc bus d l \<Longrightarrow> bus_flush bus d = (bus', d') \<Longrightarrow> bus_reach codec crc bus' d' l"
| cancelled: "bus_reach codec crc bus d l \<Longrightarrow> eb_delivery bus = Durable du \<Longrightarrow>
    bus_reach codec crc (bus\<lparr>eb_delivery := Durable (du\<lparr>du_queue := [], du_rx_held := False, du_rx_dropped := True\<rparr>)\<rparr>) d
      (l\<lparr>lg_lost := lg_lost l @ du_queue du\<rparr>)"

definition bus_queue :: "event_bus \<Rightarrow> event_envelope list" where
  "bus_queue bus = (case eb_delivery bus of Direct \<Rightarrow> [] | Durable du \<Rightarrow> du_queue du)"

definition args_withheld :: "event_envelope \<Rightarrow> bool" where
  "args_withheld env \<longleftrightarrow> (case ev_payload env of ProcessStarted s \<Rightarrow> st_args s = [] | _ \<Rightarrow> True)"

definition reported :: "event_envelope \<Rightarrow> u64" where
  "reported env = (case ev_payload env of TelemetryDropped t \<Rightarrow> td_count t | _ \<Rightarrow> 0)"

text \<open>Where envelopes are, and where they came from.\<close>

definition account :: "event_bus \<Rightarrow> ledger \<Rightarrow> event_envelope multiset" where
  "account bus l = mset (eb_sent bus @ bus_queue bus @ lg_dropped l @ lg_lost l)"

definition charges :: "ledger \<Rightarrow> event_envelope multiset" where
  "charges l = mset (lg_published l @ lg_reports l @ lg_replayed l)"

definition count_inv :: "event_bus \<Rightarrow> ledger \<Rightarrow> bool" where
  "count_inv bus l \<longleftrightarrow>
     account bus l = charges l \<and>
     eb_emitted bus = word_of_nat (length (lg_published l)) \<and>
     drops_total (eb_drops bus) = word_of_nat (length (lg_dropped l)) \<and>
     list_all (\<lambda>env. priority env \<noteq> Critical) (lg_dropped l) \<and>
     (\<not> unheard bus \<longrightarrow> lg_lost l = [])"

definition seq_inv :: "event_bus \<Rightarrow> ledger \<Rightarrow> bool" where
  "seq_inv bus l \<longleftrightarrow>
     (let n = length (lg_published l) + length (lg_reports l) in
      eb_sequence bus = word_of_nat n \<and>
      mset (map ev_sequence (lg_published l @ lg_reports l)) = mset (map word_of_nat [0..<n]))"

definition queue_inv :: "event_bus \<Rightarrow> bool" where
  "queue_inv bus \<longleftrightarrow>
     (case eb_delivery bus of Direct \<Rightarrow> True | Durable du \<Rightarrow> length (du_queue du) \<le> du_queue_capacity du)"

text \<open>The task's count of the drops it has reported; a direct bus has none.\<close>

definition last_drops :: "event_bus \<Rightarrow> u64 option" where
  "last_drops bus = (case eb_delivery bus of Direct \<Rightarrow> None | Durable du \<Rightarrow> Some (du_last_drops du))"

definition report_inv :: "event_bus \<Rightarrow> ledger \<Rightarrow> bool" where
  "report_inv bus l \<longleftrightarrow>
     (case last_drops bus of
        None \<Rightarrow> lg_reports l = []
      | Some x \<Rightarrow>
          (\<exists>k \<le> length (lg_dropped l). x = word_of_nat k \<and> sum_list (map reported (lg_reports l)) = word_of_nat k))"

definition secret_inv :: "event_bus \<Rightarrow> bool" where
  "secret_inv bus \<longleftrightarrow> list_all args_withheld (eb_sent bus @ bus_queue bus)"

definition content_of :: "event_envelope \<Rightarrow> bytes" where
  "content_of env =
     (case ev_payload env of IoChunk c \<Rightarrow> (case io_content c of Some bs \<Rightarrow> bs | None \<Rightarrow> []) | _ \<Rightarrow> [])"

text \<open>A durable bus with room for one envelope, and what a publisher hands it.\<close>

definition plain_codec :: event_codec where
  "plain_codec = \<lparr>encode_event = ev_event_id, decode_event = (\<lambda>_. None)\<rparr>"

definition sample_bus :: event_bus where
  "sample_bus = bus_durable ''rt_1'' (idgen_new ''rt_1'') 1 example_spool"

definition beat :: event_payload where
  "beat = RuntimeHeartbeat \<lparr>hb_state = RtHealthy\<rparr>"

definition change :: event_payload where
  "change = RuntimeStateChanged \<lparr>sc_state = RtHealthy, sc_reason = None\<rparr>"

definition spawn :: event_payload where
  "spawn = ProcessStarted \<lparr>st_pid = 1, st_pgid = 1, st_pidfd = False, st_executable = ''sh'', st_args = [''-c'', ''x''],
     st_cwd = [], st_started_at = 0, st_arg_count = 0, st_arg_lengths = []\<rparr>"

definition publishing :: "event_payload \<Rightarrow> event_bus \<times> disk \<Rightarrow> event_bus \<times> disk" where
  "publishing p bd = snd (publish_recorded plain_codec (\<lambda>_. 0) correlation_new Internal Observed p (1, 1) (fst bd) (snd bd))"

definition built :: "event_payload \<Rightarrow> event_bus \<Rightarrow> event_envelope" where
  "built p bus = fst (build_envelope correlation_new Internal Observed p (1, 1) bus)"

definition starting :: "event_bus \<times> disk \<Rightarrow> event_bus \<times> disk" where
  "starting bd = start_delivery plain_codec (\<lambda>_. 0) (fst bd) (snd bd)"

section \<open>One action at a time\<close>

lemma withhold_args_withheld: "ev_payload env = snd (withhold_args p) \<Longrightarrow> args_withheld env"
  by (cases p) (auto simp: args_withheld_def case_prod_beta)

lemma withheld_update [simp]: "args_withheld (env\<lparr>ev_payload := snd (withhold_args p)\<rparr>)"
  by (rule withhold_args_withheld [of _ p]) simp

lemma build_envelope_fields:
  assumes "build_envelope corr method conf payload now bus = (env, bus')"
  shows "ev_sequence env = eb_sequence bus" and "ev_payload env = snd (withhold_args payload)"
    and "eb_sequence bus' = eb_sequence bus + 1" and "eb_sent bus' = eb_sent bus" and "eb_delivery bus' = eb_delivery bus"
    and "eb_emitted bus' = eb_emitted bus" and "eb_drops bus' = eb_drops bus"
  using assms by (auto simp: build_envelope_def Let_def case_prod_beta)

lemma built_fields [simp]:
  "ev_sequence (fst (build_envelope corr method conf payload now bus)) = eb_sequence bus"
  "args_withheld (fst (build_envelope corr method conf payload now bus))"
  by (simp_all add: build_envelope_def Let_def case_prod_beta withhold_args_withheld [of _ payload])

text \<open>What delivering, publishing and the task's other actions do to the parts the invariants read.\<close>

lemma deliver_fields:
  assumes "deliver_durable codec crc env du bus d = (bus', d')"
  shows "eb_sent bus' = eb_sent bus @ [env]" and "eb_sequence bus' = eb_sequence bus"
    and "eb_emitted bus' = eb_emitted bus" and "eb_drops bus' = eb_drops bus"
    and "\<exists>sp h. eb_delivery bus' = Durable (du\<lparr>du_spool := sp, du_high_water := h\<rparr>)"
  using assms by (force simp: deliver_durable_def send_def Let_def split: prod.splits)+

lemmas bus_view_defs = bus_queue_def unheard_def queue_inv_def last_drops_def

lemma publish_branches:
  assumes run: "publish_recorded codec crc corr method conf payload now bus d = (eid, bus', d')"
    and env: "env = fst (build_envelope corr method conf payload now bus)"
  shows "eb_sequence bus' = eb_sequence bus + 1 \<and> eb_emitted bus' = eb_emitted bus + 1 \<and>
    last_drops bus' = last_drops bus \<and> unheard bus' = unheard bus \<and> (queue_inv bus \<longrightarrow> queue_inv bus') \<and>
    (if refused bus env then
       eb_sent bus' = eb_sent bus \<and> bus_queue bus' = bus_queue bus \<and>
       drops_total (eb_drops bus') = drops_total (eb_drops bus) + 1
     else drops_total (eb_drops bus') = drops_total (eb_drops bus) \<and>
       (if unheard bus then eb_sent bus' = eb_sent bus \<and> bus_queue bus' = bus_queue bus
        else eb_sent bus' = eb_sent bus @ [env] \<and> bus_queue bus' = bus_queue bus \<or>
             eb_sent bus' = eb_sent bus \<and> bus_queue bus' = bus_queue bus @ [env]))"
proof -
  obtain b1 where b1: "build_envelope corr method conf payload now bus = (env, b1)"
    using env by (metis prod.collapse)
  note f = build_envelope_fields [OF b1]
  show ?thesis
  proof (cases "eb_delivery bus")
    case Direct
    with run show ?thesis
      by (auto simp: publish_recorded_def b1 f send_def refused_def bus_view_defs)
  next
    case (Durable du)
    consider "du_rx_dropped du" | "\<not> du_rx_dropped du" "length (du_queue du) < du_queue_capacity du"
      | "\<not> du_rx_dropped du" "du_queue_capacity du \<le> length (du_queue du)"
      by linarith
    then show ?thesis
    proof cases
      case 1
      with Durable run show ?thesis
        by (auto simp: publish_recorded_def b1 f refused_def bus_view_defs)
    next
      case 2
      with Durable run show ?thesis
        by (auto simp: publish_recorded_def b1 f refused_def bus_view_defs)
    next
      case 3
      show ?thesis
      proof (cases "priority env")
        case Critical
        obtain b3 d3 where dl: "deliver_durable codec crc env du (b1\<lparr>eb_emitted := eb_emitted bus + 1\<rparr>) d = (b3, d3)"
          by (metis prod.exhaust)
        show ?thesis
          using run 3 Durable Critical deliver_fields [OF dl]
          by (auto simp: publish_recorded_def b1 f dl Let_def refused_def bus_view_defs drops_total_def)
      next
        case Normal
        with run 3 Durable show ?thesis
          by (auto simp: publish_recorded_def b1 f Let_def refused_def bus_view_defs drops_total_def algebra_simps)
      next
        case Low
        with run 3 Durable show ?thesis
          by (auto simp: publish_recorded_def b1 f Let_def refused_def bus_view_defs drops_total_def algebra_simps)
      qed
    qed
  qed
qed

lemma replayed_withheld: "list_all args_withheld (replayed codec rs)"
  by (auto simp: replayed_def list_all_iff map_filter_def)

lemma start_fields:
  assumes "start_delivery codec crc bus d = (bus', d')"
  shows "\<exists>envs. eb_sent bus' = eb_sent bus @ envs \<and> list_all args_withheld envs \<and>
    eb_sequence bus' = eb_sequence bus \<and> eb_emitted bus' = eb_emitted bus \<and> eb_drops bus' = eb_drops bus \<and>
    bus_queue bus' = bus_queue bus \<and> unheard bus' = unheard bus \<and> last_drops bus' = last_drops bus \<and>
    queue_inv bus' = queue_inv bus"
  using assms replayed_withheld
  by (auto simp: start_delivery_def replay_spool_def Let_def bus_view_defs split: delivery.splits if_splits prod.splits)

lemma receive_fields:
  assumes "receive codec crc du bus d = (bus', d')" and "eb_delivery bus = Durable du"
  shows "eb_sequence bus' = eb_sequence bus \<and> eb_emitted bus' = eb_emitted bus \<and> eb_drops bus' = eb_drops bus \<and>
    eb_sent bus' @ bus_queue bus' = eb_sent bus @ bus_queue bus \<and> unheard bus' = unheard bus \<and>
    last_drops bus' = last_drops bus \<and> (queue_inv bus \<longrightarrow> queue_inv bus')"
proof (cases "du_queue du")
  case Nil
  with assms show ?thesis
    by (simp add: receive_def)
next
  case (Cons env rest)
  then have "deliver_durable codec crc env (du\<lparr>du_queue := rest\<rparr>) bus d = (bus', d')"
    using assms(1) by (simp add: receive_def)
  from deliver_fields [OF this] show ?thesis
    using Cons assms(2) by (auto simp: bus_view_defs)
qed

lemma tick_fields:
  assumes "tick now du bus d = (bus', d')" and "eb_delivery bus = Durable du"
  shows "eb_emitted bus' = eb_emitted bus \<and> eb_drops bus' = eb_drops bus \<and>
    bus_queue bus' = bus_queue bus \<and> unheard bus' = unheard bus \<and> queue_inv bus' = queue_inv bus \<and>
    (if du_last_drops du < drops_total (eb_drops bus) then
       \<exists>env. eb_sent bus' = eb_sent bus @ [env] \<and> ev_sequence env = eb_sequence bus \<and> args_withheld env \<and>
         eb_sequence bus' = eb_sequence bus + 1 \<and> reported env = drops_total (eb_drops bus) - du_last_drops du \<and>
         last_drops bus' = Some (drops_total (eb_drops bus))
     else eb_sent bus' = eb_sent bus \<and> eb_sequence bus' = eb_sequence bus \<and> last_drops bus' = last_drops bus)"
proof -
  obtain r1 sp1 d1 where 1: "spool_flush (du_spool du) d = (r1, sp1, d1)"
    by (metis prod.exhaust)
  obtain r2 sp2 d2 where 2: "spool_ack (du_high_water du) sp1 d1 = (r2, sp2, d2)"
    by (metis prod.exhaust)
  let ?t = "drops_total (eb_drops bus)"
  let ?b = "bus\<lparr>eb_delivery := Durable (du\<lparr>du_spool := sp2, du_last_drops := ?t\<rparr>)\<rparr>"
  show ?thesis
  proof (cases "du_last_drops du < ?t")
    case True
    obtain env b1 where b: "build_envelope correlation_new Internal Observed
        (TelemetryDropped \<lparr>td_reason = ''queue-full'', td_count = ?t - du_last_drops du, td_priority = Normal\<rparr>) now ?b = (env, b1)"
      by (metis prod.exhaust)
    have "bus' = send env b1"
      using assms(1) True 1 2 by (simp add: tick_def Let_def emit_drop_report_def b)
    with build_envelope_fields [OF b] True assms(2) show ?thesis
      by (auto simp: send_def bus_view_defs reported_def args_withheld_def)
  next
    case False
    with assms 1 2 show ?thesis
      by (auto simp: tick_def Let_def bus_view_defs)
  qed
qed

lemma flush_fields:
  assumes "bus_flush bus d = (bus', d')"
  shows "eb_sent bus' = eb_sent bus \<and> eb_sequence bus' = eb_sequence bus \<and> eb_emitted bus' = eb_emitted bus \<and>
    eb_drops bus' = eb_drops bus \<and> bus_queue bus' = bus_queue bus \<and> unheard bus' = unheard bus \<and>
    last_drops bus' = last_drops bus \<and> queue_inv bus' = queue_inv bus"
  using assms by (auto simp: bus_flush_def Let_def bus_view_defs split: delivery.splits prod.splits)

section \<open>The invariants of every interleaving\<close>

lemma sent_since_append [simp]: "eb_sent bus' = eb_sent bus @ envs \<Longrightarrow> sent_since bus bus' = envs"
  by (simp add: sent_since_def)

lemma init_views:
  "eb_sent (bus_with rid g dl) = []" "bus_queue (bus_new rid g) = []" "bus_queue (bus_durable rid g c sp) = []"
  "\<not> unheard (bus_new rid g)" "\<not> unheard (bus_durable rid g c sp)"
  by (simp_all add: bus_with_def bus_new_def bus_durable_def bus_view_defs)

lemmas init_defs = bus_new_def bus_durable_def bus_with_def empty_ledger_def

lemma refused_heard: "refused bus env \<Longrightarrow> \<not> unheard bus"
  by (auto simp: refused_def unheard_def split: delivery.splits)

lemma account_published:
  assumes "publish_recorded codec crc corr method conf payload now bus d = (eid, bus', d')"
    and "env = fst (build_envelope corr method conf payload now bus)"
  shows "account bus' (note_published bus env l) = add_mset env (account bus l)"
  using publish_branches [OF assms] refused_heard [of bus env]
  by (cases "refused bus env"; cases "unheard bus") (auto simp: account_def note_published_def)

lemma charges_simps [simp]:
  "charges (note_published bus env l) = add_mset env (charges l)"
  "charges (l\<lparr>lg_replayed := lg_replayed l @ envs\<rparr>) = charges l + mset envs"
  "charges (l\<lparr>lg_reports := lg_reports l @ envs\<rparr>) = charges l + mset envs"
  "charges (l\<lparr>lg_lost := envs\<rparr>) = charges l"
  by (simp_all add: charges_def note_published_def)

lemma account_sent:
  assumes "eb_sent bus' = eb_sent bus @ envs" and "bus_queue bus' = bus_queue bus"
    and "lg_dropped l' = lg_dropped l" and "lg_lost l' = lg_lost l"
  shows "account bus' l' = account bus l + mset envs"
  using assms by (simp add: account_def)

lemma account_moved:
  assumes "eb_sent bus' @ bus_queue bus' @ lg_lost l' = eb_sent bus @ bus_queue bus @ lg_lost l \<or>
      eb_sent bus' = eb_sent bus \<and> bus_queue bus' = [] \<and> lg_lost l' = lg_lost l @ bus_queue bus"
    and "lg_dropped l' = lg_dropped l"
  shows "account bus' l' = account bus l"
proof -
  have "mset (eb_sent bus' @ bus_queue bus' @ lg_lost l') = mset (eb_sent bus @ bus_queue bus @ lg_lost l)"
    using assms(1)
  proof
    assume "eb_sent bus' @ bus_queue bus' @ lg_lost l' = eb_sent bus @ bus_queue bus @ lg_lost l"
    then show ?thesis
      by (simp only:)
  qed simp
  then show ?thesis
    unfolding account_def assms(2) by simp
qed

lemma count_inv_published:
  assumes "count_inv bus l" and "publish_recorded codec crc corr method conf payload now bus d = (eid, bus', d')"
    and "env = fst (build_envelope corr method conf payload now bus)"
  shows "count_inv bus' (note_published bus env l)"
proof -
  have "account bus' (note_published bus env l) = charges (note_published bus env l)"
    using account_published [OF assms(2,3)] assms(1) by (simp add: count_inv_def)
  moreover have "refused bus env \<Longrightarrow> priority env \<noteq> Critical"
    by (auto simp: refused_def split: delivery.splits)
  ultimately show ?thesis
    using publish_branches [OF assms(2,3)] assms(1) refused_heard [of bus env]
    by (cases "refused bus env"; cases "unheard bus") (auto simp: count_inv_def note_published_def)
qed

lemma count_inv_cong:
  assumes "count_inv bus l" and "account bus' l' = charges l'" and "lg_published l' = lg_published l"
    and "lg_dropped l' = lg_dropped l" and "eb_emitted bus' = eb_emitted bus" and "eb_drops bus' = eb_drops bus"
    and "unheard bus' \<or> \<not> unheard bus \<and> lg_lost l' = lg_lost l"
  shows "count_inv bus' l'"
  using assms by (auto simp: count_inv_def)

lemma count_inv_reach: "bus_reach codec crc bus d l \<Longrightarrow> count_inv bus l"
proof (induction rule: bus_reach.induct)
  case (published bus d l corr meth conf payload now eid bus' d' env)
  then show ?case
    using count_inv_published by blast
next
  case (started bus d l bus' d')
  then obtain envs where f: "eb_sent bus' = eb_sent bus @ envs" "bus_queue bus' = bus_queue bus"
    "eb_emitted bus' = eb_emitted bus" "eb_drops bus' = eb_drops bus" "unheard bus' = unheard bus"
    using start_fields [OF started.hyps(2)] by blast
  let ?l = "l\<lparr>lg_replayed := lg_replayed l @ sent_since bus bus'\<rparr>"
  have "account bus' ?l = charges ?l"
    using account_sent [OF f(1,2), of ?l l] started.IH f(1) by (simp add: count_inv_def)
  then show ?case
    using started.IH f by (intro count_inv_cong [OF started.IH]) auto
next
  case (received bus d l du bus' d')
  note f = receive_fields [OF received.hyps(5,2)]
  have "account bus' l = charges l"
    using account_moved [of bus' l bus l] received.IH f by (simp add: count_inv_def del: append_assoc add: append_assoc [symmetric])
  then show ?case
    using received.hyps f by (intro count_inv_cong [OF received.IH]) (auto simp: unheard_def)
next
  case (ticked bus d l du now bus' d')
  note f = tick_fields [OF ticked.hyps(5,2)]
  obtain envs where envs: "eb_sent bus' = eb_sent bus @ envs"
    using f by (auto split: if_splits)
  let ?l = "l\<lparr>lg_reports := lg_reports l @ sent_since bus bus'\<rparr>"
  have "account bus' ?l = charges ?l"
    using account_sent [OF envs, of ?l l] ticked.IH f envs by (simp add: count_inv_def)
  then show ?case
    using ticked.hyps f by (intro count_inv_cong [OF ticked.IH]) (auto simp: unheard_def)
next
  case (flushed bus d l bus' d')
  note f = flush_fields [OF flushed.hyps(2)]
  have "account bus' l = charges l"
    using account_sent [of bus' bus "[]" l l] flushed.IH f by (simp add: count_inv_def)
  then show ?case
    using flushed.IH f by (simp add: count_inv_def)
next
  case (cancelled bus d l du)
  let ?l = "l\<lparr>lg_lost := lg_lost l @ du_queue du\<rparr>"
  let ?b = "bus\<lparr>eb_delivery := Durable (du\<lparr>du_queue := [], du_rx_held := False, du_rx_dropped := True\<rparr>)\<rparr>"
  have "account ?b ?l = account bus l"
    using cancelled.hyps(2) by (intro account_moved) (simp_all add: bus_queue_def)
  then have "account ?b ?l = charges ?l"
    using cancelled.IH by (simp add: count_inv_def)
  then show ?case
    by (intro count_inv_cong [OF cancelled.IH]) (simp_all add: unheard_def)
qed (simp_all add: count_inv_def account_def charges_def init_views, simp_all add: init_defs drops_total_def)

lemma seq_inv_minted:
  assumes "seq_inv bus l" and "ev_sequence env = eb_sequence bus" and "eb_sequence bus' = eb_sequence bus + 1"
    and "mset (lg_published l') + mset (lg_reports l') = add_mset env (mset (lg_published l) + mset (lg_reports l))"
  shows "seq_inv bus' l'"
proof -
  let ?n = "length (lg_published l) + length (lg_reports l)"
  have "size (mset (lg_published l') + mset (lg_reports l')) = Suc ?n"
    unfolding assms(4) by simp
  then have n: "length (lg_published l') + length (lg_reports l') = Suc ?n"
    by simp
  have "mset (map ev_sequence (lg_published l' @ lg_reports l')) =
      image_mset ev_sequence (mset (lg_published l') + mset (lg_reports l'))"
    by simp
  also have "\<dots> = add_mset (word_of_nat ?n) (mset (map ev_sequence (lg_published l @ lg_reports l)))"
    unfolding assms(4) using assms(1,2) by (simp add: seq_inv_def Let_def)
  also have "\<dots> = mset (map word_of_nat [0..<Suc ?n])"
    using assms(1) by (simp add: seq_inv_def Let_def)
  finally show ?thesis
    using assms(1,3) n unfolding seq_inv_def Let_def by (simp del: mset_map map_append upt_Suc)
qed

lemma seq_inv_cong:
  "seq_inv bus l \<Longrightarrow> eb_sequence bus' = eb_sequence bus \<Longrightarrow> lg_published l' = lg_published l \<Longrightarrow>
   lg_reports l' = lg_reports l \<Longrightarrow> seq_inv bus' l'"
  by (simp add: seq_inv_def)

lemma seq_inv_reach: "bus_reach codec crc bus d l \<Longrightarrow> seq_inv bus l"
proof (induction rule: bus_reach.induct)
  case (published bus d l corr meth conf payload now eid bus' d' env)
  have "ev_sequence env = eb_sequence bus"
    using published.hyps(3) by simp
  with published.IH show ?case
  proof (rule seq_inv_minted)
    show "eb_sequence bus' = eb_sequence bus + 1"
      using publish_branches [OF published.hyps(2,3)] by blast
  qed (simp add: note_published_def)
next
  case (ticked bus d l du now bus' d')
  note f = tick_fields [OF ticked.hyps(5,2)]
  show ?case
  proof (cases "du_last_drops du < drops_total (eb_drops bus)")
    case True
    then obtain env where "eb_sent bus' = eb_sent bus @ [env]" "ev_sequence env = eb_sequence bus"
      "eb_sequence bus' = eb_sequence bus + 1"
      using f by auto
    with ticked.IH show ?thesis
      by (auto intro!: seq_inv_minted [OF ticked.IH])
  next
    case False
    then show ?thesis
      using f by (intro seq_inv_cong [OF ticked.IH]) (simp_all add: sent_since_def)
  qed
next
  case (started bus d l bus' d')
  then show ?case
    using start_fields [OF started.hyps(2)] by (intro seq_inv_cong [OF started.IH]) auto
next
  case (received bus d l du bus' d')
  then show ?case
    using receive_fields [OF received.hyps(5,2)] by (intro seq_inv_cong [OF received.IH]) simp_all
next
  case (flushed bus d l bus' d')
  then show ?case
    using flush_fields [OF flushed.hyps(2)] by (intro seq_inv_cong [OF flushed.IH]) simp_all
next
  case (cancelled bus d l du)
  then show ?case
    by (intro seq_inv_cong [OF cancelled.IH]) simp_all
qed (simp_all add: seq_inv_def init_defs)

lemma queue_inv_reach: "bus_reach codec crc bus d l \<Longrightarrow> queue_inv bus"
proof (induction rule: bus_reach.induct)
  case (published bus d l corr meth conf payload now eid bus' d' env)
  then show ?case
    using publish_branches [OF published.hyps(2,3)] by blast
next
  case (started bus d l bus' d')
  then show ?case
    using start_fields [OF started.hyps(2)] by blast
next
  case (received bus d l du bus' d')
  then show ?case
    using receive_fields [OF received.hyps(5,2)] by blast
next
  case (ticked bus d l du now bus' d')
  then show ?case
    using tick_fields [OF ticked.hyps(5,2)] by blast
next
  case (flushed bus d l bus' d')
  then show ?case
    using flush_fields [OF flushed.hyps(2)] by blast
qed (simp_all add: queue_inv_def init_defs)

lemma secret_inv_reach: "bus_reach codec crc bus d l \<Longrightarrow> secret_inv bus"
proof (induction rule: bus_reach.induct)
  case (published bus d l corr meth conf payload now eid bus' d' env)
  have "args_withheld env"
    using published.hyps(3) by simp
  then show ?case
    using published.IH publish_branches [OF published.hyps(2,3)]
    by (auto simp: secret_inv_def split: if_splits)
next
  case (started bus d l bus' d')
  then show ?case
    using start_fields [OF started.hyps(2)] by (auto simp: secret_inv_def)
next
  case (received bus d l du bus' d')
  then show ?case
    using receive_fields [OF received.hyps(5,2)] by (simp add: secret_inv_def del: list_all_append)
next
  case (ticked bus d l du now bus' d')
  then show ?case
    using tick_fields [OF ticked.hyps(5,2)] by (auto simp: secret_inv_def split: if_splits)
next
  case (flushed bus d l bus' d')
  then show ?case
    using flush_fields [OF flushed.hyps(2)] by (simp add: secret_inv_def)
next
  case (cancelled bus d l du)
  then show ?case
    by (simp add: secret_inv_def bus_queue_def)
qed (simp_all add: secret_inv_def init_views, simp_all add: init_defs)

lemma report_inv_mono:
  "report_inv bus l \<Longrightarrow> last_drops bus' = last_drops bus \<Longrightarrow> lg_reports l' = lg_reports l \<Longrightarrow>
   length (lg_dropped l) \<le> length (lg_dropped l') \<Longrightarrow> report_inv bus' l'"
  by (auto simp: report_inv_def split: option.splits) (metis order_trans)

lemma report_inv_tick:
  assumes "report_inv bus l" and "count_inv bus l" and "eb_delivery bus = Durable du" and "tick now du bus d = (bus', d')"
  shows "report_inv bus' (l\<lparr>lg_reports := lg_reports l @ sent_since bus bus'\<rparr>)"
proof (cases "du_last_drops du < drops_total (eb_drops bus)")
  case True
  then obtain env where env: "eb_sent bus' = eb_sent bus @ [env]"
    "reported env = drops_total (eb_drops bus) - du_last_drops du" "last_drops bus' = Some (drops_total (eb_drops bus))"
    using tick_fields [OF assms(4,3)] by auto
  have "sum_list (map reported (lg_reports l)) = du_last_drops du"
    using assms(1,3) by (auto simp: report_inv_def last_drops_def)
  with env assms(2) show ?thesis
    by (auto simp: report_inv_def count_inv_def)
next
  case False
  then show ?thesis
    using tick_fields [OF assms(4,3)] assms(1) by (intro report_inv_mono [OF assms(1)]) (simp_all add: sent_since_def)
qed

lemma report_inv_reach: "bus_reach codec crc bus d l \<Longrightarrow> report_inv bus l"
proof (induction rule: bus_reach.induct)
  case (published bus d l corr meth conf payload now eid bus' d' env)
  then show ?case
    using publish_branches [OF published.hyps(2,3)]
    by (intro report_inv_mono [OF published.IH]) (simp_all add: note_published_def)
next
  case (started bus d l bus' d')
  then show ?case
    using start_fields [OF started.hyps(2)] by (intro report_inv_mono [OF started.IH]) auto
next
  case (received bus d l du bus' d')
  then show ?case
    using receive_fields [OF received.hyps(5,2)] by (intro report_inv_mono [OF received.IH]) simp_all
next
  case (ticked bus d l du now bus' d')
  then show ?case
    using report_inv_tick count_inv_reach by blast
next
  case (flushed bus d l bus' d')
  then show ?case
    using flush_fields [OF flushed.hyps(2)] by (intro report_inv_mono [OF flushed.IH]) simp_all
next
  case (cancelled bus d l du)
  then show ?case
    by (intro report_inv_mono [OF cancelled.IH]) (simp_all add: last_drops_def)
qed (simp_all add: report_inv_def last_drops_def init_defs)

section \<open>Recording a stream\<close>

lemma emit_until_none: "consumed (fst (emit_until limit s)) = 0 \<Longrightarrow> recorded (fst (emit_until limit s)) = []"
  by (auto simp: emit_until_def Let_def case_prod_beta)

lemma push_none: "push raw s = (c, s') \<Longrightarrow> consumed c = 0 \<Longrightarrow> recorded c = []"
  using emit_until_none by (metis (no_types, lifting) fst_conv push_def)

lemma finish_none: "finish reason s = (c, s') \<Longrightarrow> consumed c = 0 \<Longrightarrow> recorded c = []"
  using emit_until_none by (auto simp: finish_def Let_def case_prod_beta)

lemma publish_direct:
  assumes "eb_delivery bus = Direct"
  shows "\<exists>eid bus'. publish_recorded codec crc corr method conf payload now bus d = (eid, bus', d) \<and>
    eb_delivery bus' = Direct \<and> eb_sent bus' = eb_sent bus @ [fst (build_envelope corr method conf payload now bus)]"
proof -
  obtain env b1 where b: "build_envelope corr method conf payload now bus = (env, b1)"
    by (metis prod.exhaust)
  with build_envelope_fields [OF b] assms show ?thesis
    by (simp add: publish_recorded_def send_def)
qed

text \<open>One chunk through the recorder on a direct bus: its bytes reach the subscribers, its redactions the status.\<close>

lemma recorder_publish_direct:
  assumes "eb_delivery bus = Direct" and "consumed chunk = 0 \<longrightarrow> recorded chunk = []"
    and "recorder_publish codec crc chunk now rec st bus d = (rec', st', bus', d')"
  shows "eb_delivery bus' = Direct \<and> d' = d \<and>
    (\<exists>envs. eb_sent bus' = eb_sent bus @ envs \<and> concat (map content_of envs) = recorded chunk) \<and>
    rt_redacted_events st' = rt_redacted_events st + redactions chunk \<and> sr_masker rec' = sr_masker rec"
proof (cases "consumed chunk = 0")
  case True
  with assms show ?thesis
    by (auto simp: recorder_publish_def io_chunk_of_def add_redacted_def word_gt_0)
next
  case False
  then obtain io where io: "io_chunk_of chunk (sr_stream rec) (sr_offset rec) = Some io" "io_content io = Some (recorded chunk)"
    by (auto simp: io_chunk_of_def)
  obtain eid b where b: "publish_recorded codec crc (sr_correlation rec) (sr_method rec) Observed (IoChunk io) now bus d = (eid, b, d)"
    "eb_delivery b = Direct"
    "eb_sent b = eb_sent bus @ [fst (build_envelope (sr_correlation rec) (sr_method rec) Observed (IoChunk io) now bus)]"
    using publish_direct [OF assms(1)] by blast
  have "content_of (fst (build_envelope (sr_correlation rec) (sr_method rec) Observed (IoChunk io) now bus)) = recorded chunk"
    using io(2) by (simp add: content_of_def build_envelope_def Let_def case_prod_beta)
  with assms(3) io(1) b show ?thesis
    by (auto simp: recorder_publish_def add_redacted_def word_gt_0)
qed

lemma record_reads_direct:
  assumes "eb_delivery bus = Direct" and "record_reads codec crc raws now rec st bus d = (rec', st', bus', d')"
    and "push_all raws (sr_masker rec) = (cs, m)"
  shows "eb_delivery bus' = Direct \<and> sr_masker rec' = m \<and>
    (\<exists>envs. eb_sent bus' = eb_sent bus @ envs \<and> concat (map content_of envs) = concat (map recorded cs)) \<and>
    rt_redacted_events st' = rt_redacted_events st + sum_list (map redactions cs)"
  using assms
proof (induction raws arbitrary: rec st bus d cs)
  case (Cons raw raws)
  obtain c m1 where c: "push raw (sr_masker rec) = (c, m1)"
    by (metis prod.exhaust)
  obtain rec1 st1 bus1 d1 where one: "recorder_publish codec crc c now (rec\<lparr>sr_masker := m1\<rparr>) st bus d = (rec1, st1, bus1, d1)"
    by (metis prod.exhaust)
  obtain cs' where cs: "push_all raws m1 = (cs', m)" "cs = c # cs'"
    using Cons.prems(3) c by (auto split: prod.splits)
  note step = recorder_publish_direct [OF Cons.prems(1) _ one] push_none [OF c]
  then have "sr_masker rec1 = m1" "eb_delivery bus1 = Direct"
    by auto
  moreover have "record_reads codec crc raws now rec1 st1 bus1 d1 = (rec', st', bus', d')"
    using Cons.prems(2) c one by (simp add: read_journaled_def)
  ultimately show ?case
    using Cons.IH [of bus1 rec1 st1 d1 cs'] step cs by (fastforce simp: add.assoc)
qed auto

lemma record_stream_direct:
  assumes "eb_delivery bus = Direct" and "sr_masker rec = stream r"
    and "record_stream codec crc raws reason now rec st bus d = (rec', st', bus', d')"
  shows "\<exists>envs. eb_sent bus' = eb_sent bus @ envs \<and>
      concat (map content_of envs) = concat (map recorded (run_stream r raws reason))"
    and "rt_redacted_events st' = rt_redacted_events st + sum_list (map redactions (run_stream r raws reason))"
proof -
  obtain cs m where cs: "push_all raws (sr_masker rec) = (cs, m)"
    by (metis prod.exhaust)
  obtain c m' where c: "finish reason m = (c, m')"
    by (metis prod.exhaust)
  obtain rec1 st1 bus1 d1 where reads: "record_reads codec crc raws now rec st bus d = (rec1, st1, bus1, d1)"
    by (metis prod.exhaust)
  note a = record_reads_direct [OF assms(1) reads cs]
  have "recorder_publish codec crc c now (rec1\<lparr>sr_masker := m'\<rparr>) st1 bus1 d1 = (rec', st', bus', d')"
    using assms(3) reads a c by (simp add: record_stream_def end_journaled_def)
  note b = recorder_publish_direct [OF _ _ this] finish_none [OF c]
  have run: "run_stream r raws reason = cs @ [c]"
    using cs c assms(2) by (simp add: run_stream_def)
  obtain envs1 where e1: "eb_sent bus1 = eb_sent bus @ envs1" "concat (map content_of envs1) = concat (map recorded cs)"
    using a by blast
  obtain envs2 where e2: "eb_sent bus' = eb_sent bus1 @ envs2" "concat (map content_of envs2) = recorded c"
    using a b by blast
  show "\<exists>envs. eb_sent bus' = eb_sent bus @ envs \<and>
      concat (map content_of envs) = concat (map recorded (run_stream r raws reason))"
    using e1 e2 run by (intro exI [of _ "envs1 @ envs2"]) simp
  show "rt_redacted_events st' = rt_redacted_events st + sum_list (map redactions (run_stream r raws reason))"
    using a b run by (simp add: add.assoc)
qed

text \<open>
  Write-ahead durability: the event is on the disk before it is broadcast, and a replay of the spool
  ends with a record that decodes to it.
\<close>

lemma delivered_spooled:
  assumes "spool_inv crc (du_spool du) d rss" and "dk_faults d = []"
    and "length (encode_event codec env) \<le> unat (sc_max_payload_bytes (sp_config (du_spool du)))"
    and "encoded_len (length (encode_event codec env)) \<le> sc_disk_limit_bytes (sp_config (du_spool du))"
    and "decode_event codec (encode_event codec env) = Some env"
    and "deliver_durable codec crc env du bus d = (bus', d')"
  shows "\<exists>du' r. eb_delivery bus' = Durable du' \<and> fst (replay crc (du_spool du') d') \<noteq> [] \<and>
    r = last (fst (replay crc (du_spool du') d')) \<and> decode_event codec (rc_payload r) = Some env \<and>
    rc_sequence r = ev_sequence env"
proof -
  let ?r = "\<lparr>rc_sequence = ev_sequence env, rc_timestamp_micros = ev_observed_at env, rc_payload = encode_event codec env\<rparr>"
  obtain k sp' d1 rss' where run: "spool_append crc (ev_sequence env) (ev_observed_at env) (encode_event codec env) (du_spool du) d =
      (Ok (length (concat (take k rss))), sp', d1)"
    and inv: "spool_inv crc sp' d1 rss'" "dk_faults d1 = []" and recs: "concat rss' = concat (drop k rss) @ [?r]"
    using spool_append_ok [OF assms(1-4), of "ev_sequence env" "ev_observed_at env"] by blast
  have "fst (replay crc sp' d1) = concat (drop k rss) @ [?r]"
    using replay_ok [OF inv] recs by simp
  with run assms(5,6) show ?thesis
    by (auto simp: deliver_durable_def Let_def)
qed

section \<open>Properties\<close>

lemma reach_publishing:
  assumes "bus_reach plain_codec (\<lambda>_. 0) (fst bd) (snd bd) l"
  shows "bus_reach plain_codec (\<lambda>_. 0) (fst (publishing p bd)) (snd (publishing p bd))
    (note_published (fst bd) (built p (fst bd)) l)"
  by (rule bus_reach.published [OF assms, where corr = correlation_new and meth = Internal and conf = Observed
        and payload = p and now = "(1, 1)"]) (simp_all add: publishing_def built_def prod_eq_iff)

lemma reach_sample: "bus_reach plain_codec (\<lambda>_. 0) sample_bus d empty_ledger"
  unfolding sample_bus_def by (rule bus_reach.durable)

text \<open>
  C8. Every envelope is accounted for: in every interleaving, what was published, reported or
  replayed is exactly what was broadcast, is queued, was dropped under pressure or was lost with a
  cancelled task; the counters the bus reports are those numbers.
\<close>

theorem bus_accounts:
  assumes "bus_reach codec crc bus d l"
  shows "mset (eb_sent bus) + mset (bus_queue bus) + mset (lg_dropped l) + mset (lg_lost l) =
      mset (lg_published l) + mset (lg_reports l) + mset (lg_replayed l) \<and>
    eb_emitted bus = word_of_nat (length (lg_published l)) \<and>
    dropped_events bus = word_of_nat (length (lg_dropped l)) \<and>
    (eb_delivery bus \<noteq> Direct \<longrightarrow> queue_depth bus \<le> queue_capacity bus)"
  using count_inv_reach [OF assms] queue_inv_reach [OF assms]
  by (auto simp: count_inv_def account_def charges_def dropped_events_def queue_inv_def queue_depth_def
      queue_capacity_def add.assoc split: delivery.splits)

theorem bus_accounts_witness:
  "\<exists>bus d l. bus_reach plain_codec (\<lambda>_. 0) bus d l \<and> length (lg_dropped l) = 1 \<and> dropped_events bus = 1"
proof -
  let ?bd = "publishing beat (sample_bus, example_disk [])"
  let ?l = "note_published (fst ?bd) (built beat (fst ?bd)) (note_published sample_bus (built beat sample_bus) empty_ledger)"
  have reach: "bus_reach plain_codec (\<lambda>_. 0) (fst (publishing beat ?bd)) (snd (publishing beat ?bd)) ?l"
    using reach_publishing [OF reach_publishing [of "(sample_bus, example_disk [])" empty_ledger beat]] reach_sample by simp
  have one: "length (lg_dropped ?l) = 1"
    by code_simp
  then have "dropped_events (fst (publishing beat ?bd)) = 1"
    using bus_accounts [OF reach] by simp
  with reach one show ?thesis
    by blast
qed

text \<open>
  C4. A critical event is never dropped: as long as the delivery task has not been cancelled, every
  critical event that was published has been broadcast or is still in the queue.
\<close>

theorem bus_keeps_critical:
  assumes "bus_reach codec crc bus d l" and "\<not> unheard bus"
    and "env \<in> set (lg_published l)" and "priority env = Critical"
  shows "env \<in> set (eb_sent bus) \<or> env \<in> set (bus_queue bus)"
proof -
  have inv: "account bus l = charges l" "list_all (\<lambda>env. priority env \<noteq> Critical) (lg_dropped l)" "lg_lost l = []"
    using count_inv_reach [OF assms(1)] assms(2) by (auto simp: count_inv_def)
  have "env \<in># charges l"
    using assms(3) by (simp add: charges_def)
  then have "env \<in># account bus l"
    by (simp add: inv(1))
  then show ?thesis
    using inv(2,3) assms(4) by (auto simp: account_def list_all_iff)
qed

theorem bus_keeps_critical_witness:
  "(let bd = publishing beat (sample_bus, example_disk []); env = built change (fst bd) in
    env \<in> set (eb_sent (fst (publishing change bd))) \<or> env \<in> set (bus_queue (fst (publishing change bd))))"
proof -
  let ?bd = "publishing beat (sample_bus, example_disk [])"
  let ?l = "note_published (fst ?bd) (built change (fst ?bd)) (note_published sample_bus (built beat sample_bus) empty_ledger)"
  have reach: "bus_reach plain_codec (\<lambda>_. 0) (fst (publishing change ?bd)) (snd (publishing change ?bd)) ?l"
    using reach_publishing [OF reach_publishing [of "(sample_bus, example_disk [])" empty_ledger beat]] reach_sample by simp
  have "\<not> unheard (fst (publishing change ?bd))" "priority (built change (fst ?bd)) = Critical"
    by code_simp+
  moreover have "built change (fst ?bd) \<in> set (lg_published ?l)"
    by (simp add: note_published_def)
  ultimately show ?thesis
    unfolding Let_def using bus_keeps_critical [OF reach] by blast
qed



text \<open>
  C28. Argument text never leaves the bus: no envelope that was broadcast, live or replayed from a spool
  of an older daemon, and none in the queue carries process arguments, whatever publishers pass and
  whatever fails on the disk.
\<close>

theorem bus_withholds_args:
  assumes "bus_reach codec crc bus d l" and "env \<in> set (eb_sent bus) \<union> set (bus_queue bus)"
    and "ev_payload env = ProcessStarted started"
  shows "st_args started = []"
proof -
  have "args_withheld env"
    using secret_inv_reach [OF assms(1)] assms(2) by (auto simp: secret_inv_def list_all_iff)
  then show ?thesis
    by (simp add: args_withheld_def assms(3))
qed

theorem bus_withholds_args_witness:
  "\<exists>env started. env \<in> set (bus_queue (fst (publishing spawn (sample_bus, example_disk [])))) \<and>
    ev_payload env = ProcessStarted started \<and> st_args started = []"
proof -
  let ?bd = "publishing spawn (sample_bus, example_disk [])"
  have reach: "bus_reach plain_codec (\<lambda>_. 0) (fst ?bd) (snd ?bd) (note_published sample_bus (built spawn sample_bus) empty_ledger)"
    using reach_publishing [of "(sample_bus, example_disk [])" empty_ledger spawn] reach_sample by simp
  have "bus_queue (fst ?bd) = [built spawn sample_bus]"
    by code_simp
  then have "built spawn sample_bus \<in> set (bus_queue (fst ?bd))"
    by simp
  moreover obtain started where "ev_payload (built spawn sample_bus) = ProcessStarted started"
    by (simp add: built_def spawn_def build_envelope_def Let_def case_prod_beta)
  ultimately show ?thesis
    using bus_withholds_args [OF reach] by blast
qed

text \<open>
  C30. Drops are reported in full: after a tick of the delivery task the counts of all drop reports
  broadcast so far add up to the number of envelopes dropped.
\<close>

theorem drops_reported_in_full:
  assumes "bus_reach codec crc bus d l" and "eb_delivery bus = Durable du"
    and "tick now du bus d = (bus', d')" and "length (lg_dropped l) < 2 ^ 64"
  shows "sum_list (map reported (lg_reports l @ sent_since bus bus')) = word_of_nat (length (lg_dropped l))"
proof -
  obtain k where k: "k \<le> length (lg_dropped l)" "du_last_drops du = word_of_nat k"
    "sum_list (map reported (lg_reports l)) = word_of_nat k"
    using report_inv_reach [OF assms(1)] assms(2) by (auto simp: report_inv_def last_drops_def)
  have total: "drops_total (eb_drops bus) = word_of_nat (length (lg_dropped l))"
    using count_inv_reach [OF assms(1)] by (simp add: count_inv_def)
  show ?thesis
  proof (cases "du_last_drops du < drops_total (eb_drops bus)")
    case True
    then show ?thesis
      using tick_fields [OF assms(3,2)] k total by auto
  next
    case False
    have "unat (word_of_nat k :: u64) = k" "unat (word_of_nat (length (lg_dropped l)) :: u64) = length (lg_dropped l)"
      using k(1) assms(4) by (simp_all add: unsigned_of_nat take_bit_nat_eq_self)
    then have "k = length (lg_dropped l)"
      using False k(1,2) total by (simp add: word_less_nat_alt)
    then show ?thesis
      using tick_fields [OF assms(3,2)] False k by (simp add: sent_since_def)
  qed
qed

theorem drops_reported_in_full_witness:
  "(let bd = publishing beat (publishing beat (starting (sample_bus, example_disk [])));
        bus = fst bd
    in case eb_delivery bus of
         Durable du \<Rightarrow> sum_list (map reported (sent_since bus (fst (tick (2, 2) du bus (snd bd))))) = 1
       | Direct \<Rightarrow> False)"
proof -
  let ?bd0 = "starting (sample_bus, example_disk [])"
  let ?l0 = "empty_ledger\<lparr>lg_replayed := lg_replayed empty_ledger @ sent_since sample_bus (fst ?bd0)\<rparr>"
  let ?bd1 = "publishing beat ?bd0" let ?bd2 = "publishing beat ?bd1"
  let ?l1 = "note_published (fst ?bd0) (built beat (fst ?bd0)) ?l0"
  let ?l2 = "note_published (fst ?bd1) (built beat (fst ?bd1)) ?l1"
  have "bus_reach plain_codec (\<lambda>_. 0) (fst ?bd0) (snd ?bd0) ?l0"
    using bus_reach.started [OF reach_sample [of "example_disk []"], of "fst ?bd0" "snd ?bd0"] by (simp add: starting_def)
  from reach_publishing [OF reach_publishing [OF this]]
  have reach: "bus_reach plain_codec (\<lambda>_. 0) (fst ?bd2) (snd ?bd2) ?l2" .
  have one: "length (lg_dropped ?l2) = 1" and "lg_reports ?l2 = []" and "eb_delivery (fst ?bd2) \<noteq> Direct"
    by code_simp+
  then obtain du where du: "eb_delivery (fst ?bd2) = Durable du"
    by (cases "eb_delivery (fst ?bd2)") auto
  show ?thesis
    using drops_reported_in_full [OF reach du, of "(2, 2)" "fst (tick (2, 2) du (fst ?bd2) (snd ?bd2))"
        "snd (tick (2, 2) du (fst ?bd2) (snd ?bd2))"] one \<open>lg_reports ?l2 = []\<close>
    by (simp add: Let_def du)
qed



end
