(* ===== verification/Commands.thy ===== *)
theory Commands
  imports Protocol
begin

text \<open>
  The commands of the control protocol, their arguments and their results, and the top-level messages:
  \<open>crates/sealant-protocol/src/command.rs\<close> and \<open>message.rs\<close>, with the source's fields in its order.
  A JSON value of \<open>serde_json\<close> is of the type parameter \<open>'j\<close>.
\<close>

section \<open>Enumerations\<close>

datatype capture_kind = KindAuto | KindTurn | KindCheckpoint | KindSuspend | KindFinal

datatype capture_class = ClassSmall | ClassBulk

datatype signal = SigHup | SigInt | SigQuit | SigTerm | SigKill | SigUsr1 | SigUsr2 | SigStop | SigCont

datatype attach_mode = Interactive | Observe

datatype session_state = SessionRunning | SessionExited

datatype session_mode = ModePty | ModePipe

datatype capture_mode = CaptureFull | CaptureMetadataOnly | CaptureDisabled

datatype network_mode = NetOff | NetMetadata | NetProxy | NetPrivileged | NetPayload

datatype capture_flush_kind = FlushSuspend | FlushFinal

datatype forward_protocol = Tcp | Udp

fun signal_name :: "signal \<Rightarrow> string" where
  "signal_name SigHup = ''SIGHUP''"
| "signal_name SigInt = ''SIGINT''"
| "signal_name SigQuit = ''SIGQUIT''"
| "signal_name SigTerm = ''SIGTERM''"
| "signal_name SigKill = ''SIGKILL''"
| "signal_name SigUsr1 = ''SIGUSR1''"
| "signal_name SigUsr2 = ''SIGUSR2''"
| "signal_name SigStop = ''SIGSTOP''"
| "signal_name SigCont = ''SIGCONT''"

section \<open>Arguments and results\<close>

record capture_policy =
  cp_stdout :: capture_mode
  cp_stderr :: capture_mode
  cp_stdin :: capture_mode

record limits =
  lm_max_frame_bytes :: u32
  lm_max_processes :: u32
  lm_max_sessions :: u32
  lm_event_queue_capacity :: u64
  lm_spool_limit_bytes :: u64
  lm_max_inline_payload_bytes :: u64
  lm_io_chunk_bytes :: u32

record feature_matrix =
  fm_io_capture :: bool
  fm_pty :: bool
  fm_filesystem :: bool
  fm_network :: network_mode
  fm_privileged :: bool
  fm_pidfd :: bool
  fm_subreaper :: bool
  fm_pipe_sessions :: bool

record feature_state =
  fs_feature :: feature
  fs_enabled :: bool

record exec_args =
  ea_execution_id :: "id option"
  ea_session_id :: "id option"
  ea_executable :: string
  ea_args :: "string list"
  ea_cwd :: "string option"
  ea_env :: "env_var list"
  ea_secret_env :: "env_var list"
  ea_stdin :: bool
  ea_timeout_millis :: "u64 option"
  ea_background :: bool
  ea_capture :: "capture_policy option"
  ea_graceful_signal :: "signal option"
  ea_attach :: bool
  ea_user :: "string option"

record open_session_args =
  os_execution_id :: "id option"
  os_shell :: "string option"
  os_args :: "string list"
  os_cwd :: "string option"
  os_env :: "env_var list"
  os_secret_env :: "env_var list"
  os_cols :: "16 word"
  os_rows :: "16 word"
  os_term :: "string option"
  os_mode :: session_mode
  os_user :: "string option"

record attach_session_args =
  as_session_id :: id
  as_mode :: attach_mode
  as_from_sequence :: "u64 option"

record read_session_output_args =
  ro_session_id :: id
  ro_from_sequence :: u64
  ro_max_bytes :: "u64 option"

record open_forward_args =
  of_host :: string
  of_port :: "16 word"
  of_execution_id :: "id option"
  of_protocol :: forward_protocol
  of_dedicated :: bool
  of_owner_session_id :: "id option"

record open_sftp_args =
  sf_execution_id :: "id option"
  sf_cwd :: "string option"
  sf_user :: "string option"

record 'j execution_start_args =
  xs_execution_id :: "id option"
  xs_labels :: "'j option"

record write_stdin_args =
  wsa_process_id :: "id option"
  wsa_session_id :: "id option"
  wsa_data :: bytes

record dotfiles_repository =
  dr_url :: string
  dr_reference :: "string option"
  dr_manager :: "string option"
  dr_target :: "string option"
  dr_bootstrap :: bool
  dr_bootstrap_command :: "string option"
  dr_http_username :: "string option"
  dr_http_token :: "string option"

record dotfiles_apply_args =
  dy_user :: string
  dy_repository :: "dotfiles_repository option"
  dy_archive_dir :: "string option"
  dy_execution_id :: "id option"

record capabilities =
  ca_schema_version :: u32
  ca_runtime_id :: id
  ca_workspace_id :: "string option"
  ca_os :: string
  ca_arch :: string
  ca_daemon_version :: string
  ca_features :: feature_matrix
  ca_limits :: limits
  ca_supports :: "string list"
  ca_person_capabilities :: "string list"
  ca_person_capabilities_withheld :: "string option"
  ca_no_new_privileges :: "bool option"

record health_report =
  hr_state :: runtime_state
  hr_runtime_id :: id
  hr_uptime_millis :: u64
  hr_active_executions :: u32
  hr_active_sessions :: u32
  hr_active_processes :: u32
  hr_queue_depth :: u64
  hr_queue_capacity :: u64
  hr_spool_bytes :: u64
  hr_spool_limit_bytes :: u64
  hr_retry_count :: u64
  hr_last_delivery_at :: "u64 option"
  hr_dropped_events :: u64
  hr_redacted_events :: u64
  hr_coalesced_events :: u64
  hr_truncated_events :: u64
  hr_sink_connected :: bool
  hr_feature_states :: "feature_state list"
  hr_degradation_reasons :: "string list"

record process_summary =
  pu_process_id :: id
  pu_pid :: u32
  pu_pgid :: u32
  pu_state :: process_state
  pu_executable :: string
  pu_execution_id :: "id option"
  pu_session_id :: "id option"

record session_summary =
  su_session_id :: id
  su_process_id :: id
  su_pid :: u32
  su_cols :: "16 word"
  su_rows :: "16 word"
  su_execution_id :: "id option"
  su_state :: session_state
  su_exit_code :: "u32 option"
  su_signal :: "u32 option"
  su_started_at_micros :: u64
  su_first_journal_sequence :: u64
  su_next_journal_sequence :: u64
  su_mode :: session_mode

record session_output_chunk =
  soc_sequence :: u64
  soc_data :: bytes

record session_output =
  so_session_id :: id
  so_chunks :: "session_output_chunk list"
  so_next_sequence :: u64
  so_first_available_sequence :: u64
  so_state :: session_state
  so_exit_code :: "u32 option"
  so_signal :: "u32 option"

record exec_accepted =
  xa_process_id :: id
  xa_pid :: u32
  xa_pgid :: u32
  xa_pidfd :: bool

record session_opened =
  sn_session_id :: id
  sn_process_id :: id
  sn_pid :: u32

record process_list =
  pl_processes :: "process_summary list"

record session_list =
  sl_sessions :: "session_summary list"

record runtime_metrics =
  mt_uptime_millis :: u64
  mt_events_emitted :: u64
  mt_events_delivered :: u64
  mt_dropped_events :: u64
  mt_queue_depth :: u64
  mt_spool_bytes :: u64
  mt_active_processes :: u32
  mt_active_sessions :: u32

record shutdown_accepted =
  sh_grace_millis :: u64

record capture_staged =
  cg_n :: u64
  cg_capture_id :: string
  cg_kind :: capture_kind
  cg_unchanged :: bool

record capture_class_snaps =
  cn_class :: capture_class
  cn_snaps_failed :: u64
  cn_last_snap_error :: "string option"
  cn_snap_failing_since_unix_ms :: "u64 option"

record capture_overdue =
  co_step :: string
  co_started_unix_ms :: u64
  co_running_ms :: u64
  co_bound_ms :: u64

record capture_status_report =
  cs_epoch :: u64
  cs_worktree_id :: string
  cs_head_n :: "u64 option"
  cs_pending :: u64
  cs_staged_bytes :: u64
  cs_uploaded_objects :: u64
  cs_uploaded_bytes :: u64
  cs_registered :: u64
  cs_fenced :: bool
  cs_paused :: bool
  cs_last_snap_unix_ms :: "u64 option"
  cs_refused :: "capture_class list"
  cs_pending_bulk :: u64
  cs_pending_bytes :: u64
  cs_complete :: bool
  cs_incomplete_reason :: "string option"
  cs_unreadable :: "u64 option"
  cs_carried :: "u64 option"
  cs_unreadable_paths :: "string list"
  cs_register_refused :: "string option"
  cs_register_refused_n :: "u64 option"
  cs_register_missing :: "string list"
  cs_register_refusals :: "u64 option"
  cs_repairing :: bool
  cs_bulk_building :: bool
  cs_snaps :: "capture_class_snaps list"
  cs_launch :: "string option"
  cs_boot_id :: "string option"
  cs_boot_generation :: "u64 option"
  cs_observation :: "u64 option"
  cs_overdue :: "capture_overdue option"
  cs_owner_map :: bool

record lease_epoch_report =
  le_epoch :: u64
  le_worktree_id :: string
  le_fenced :: bool

record capture_replanned =
  cr_worktree_id :: string
  cr_epoch :: u64
  cr_head_n :: "u64 option"
  cr_head_capture_id :: "string option"
  cr_files_written :: u64
  cr_bytes_written :: u64
  cr_files_skipped :: u64
  cr_bytes_skipped :: u64
  cr_removed :: u64
  cr_unchanged :: bool

record stream_attached =
  sa_channel_id :: id

record process_attached =
  pa_process_id :: id
  pa_pid :: u32
  pa_pgid :: u32
  pa_channel_id :: id

record forward_opened =
  fo_channel_id :: id
  fo_bound_session_id :: "id option"

record sftp_opened =
  sfo_channel_id :: id

record dotfiles_applied =
  dd_user :: string
  dd_home :: string
  dd_bootstrap :: "exec_accepted option"

definition capture_policy_default :: capture_policy where
  "capture_policy_default = \<lparr>cp_stdout = CaptureFull, cp_stderr = CaptureFull, cp_stdin = CaptureDisabled\<rparr>"

section \<open>Commands\<close>

datatype 'j command =
    CmdRuntimeHealth
  | CmdRuntimeGetCapabilities
  | CmdRuntimeGracefulShutdown "u64 option"
  | CmdRuntimeKill
  | CmdExecutionStart "'j execution_start_args"
  | CmdExecutionStop id
  | CmdExec exec_args
  | CmdSignalProcess id signal
  | CmdKillProcess id
  | CmdListProcesses "id option"
  | CmdWriteStdin write_stdin_args
  | CmdCloseStdin id
  | CmdOpenSession open_session_args
  | CmdCloseSession id
  | CmdResizePty id "16 word" "16 word"
  | CmdListSessions
  | CmdSetFeatureState feature bool
  | CmdBindMount string string
  | CmdGetRuntimeMetrics
  | CmdAttachSession attach_session_args
  | CmdDetachSession id
  | CmdOpenForward open_forward_args
  | CmdCloseForward id
  | CmdOpenSftp open_sftp_args
  | CmdCloseSftp id
  | CmdSignalSession id signal
  | CmdReadSessionOutput read_session_output_args
  | CmdCaptureNow capture_kind
  | CmdCaptureFlush capture_flush_kind "u64 option" "u64 option"
  | CmdCaptureStatus
  | CmdLeaseEpoch
  | CmdCaptureReplan
  | CmdDotfilesApply dotfiles_apply_args

fun command_name :: "'j command \<Rightarrow> string" where
  "command_name CmdRuntimeHealth = ''runtime.health''"
| "command_name CmdRuntimeGetCapabilities = ''runtime.getCapabilities''"
| "command_name (CmdRuntimeGracefulShutdown _) = ''runtime.gracefulShutdown''"
| "command_name CmdRuntimeKill = ''runtime.kill''"
| "command_name (CmdExecutionStart _) = ''execution.start''"
| "command_name (CmdExecutionStop _) = ''execution.stop''"
| "command_name (CmdExec _) = ''exec''"
| "command_name (CmdSignalProcess _ _) = ''signalProcess''"
| "command_name (CmdKillProcess _) = ''killProcess''"
| "command_name (CmdListProcesses _) = ''listProcesses''"
| "command_name (CmdWriteStdin _) = ''writeStdin''"
| "command_name (CmdCloseStdin _) = ''closeStdin''"
| "command_name (CmdOpenSession _) = ''openSession''"
| "command_name (CmdCloseSession _) = ''closeSession''"
| "command_name (CmdResizePty _ _ _) = ''resizePty''"
| "command_name CmdListSessions = ''listSessions''"
| "command_name (CmdSetFeatureState _ _) = ''setFeatureState''"
| "command_name (CmdBindMount _ _) = ''bindMount''"
| "command_name CmdGetRuntimeMetrics = ''getRuntimeMetrics''"
| "command_name (CmdAttachSession _) = ''attachSession''"
| "command_name (CmdDetachSession _) = ''detachSession''"
| "command_name (CmdOpenForward _) = ''openForward''"
| "command_name (CmdCloseForward _) = ''closeForward''"
| "command_name (CmdOpenSftp _) = ''openSftp''"
| "command_name (CmdCloseSftp _) = ''closeSftp''"
| "command_name (CmdSignalSession _ _) = ''signalSession''"
| "command_name (CmdReadSessionOutput _) = ''readSessionOutput''"
| "command_name (CmdCaptureNow _) = ''capture.now''"
| "command_name (CmdCaptureFlush _ _ _) = ''capture.flush''"
| "command_name CmdCaptureStatus = ''capture.status''"
| "command_name CmdLeaseEpoch = ''lease.epoch''"
| "command_name CmdCaptureReplan = ''capture.replan''"
| "command_name (CmdDotfilesApply _) = ''dotfiles.apply''"

datatype command_result =
    ResHealth health_report
  | ResCapabilities capabilities
  | ResExecAccepted exec_accepted
  | ResSessionOpened session_opened
  | ResProcessList process_list
  | ResSessionList session_list
  | ResMetrics runtime_metrics
  | ResShutdownAccepted shutdown_accepted
  | ResStreamAttached stream_attached
  | ResProcessAttached process_attached
  | ResForwardOpened forward_opened
  | ResSftpOpened sftp_opened
  | ResSessionOutput session_output
  | ResCaptureStaged capture_staged
  | ResCaptureStatus capture_status_report
  | ResLeaseEpoch lease_epoch_report
  | ResCaptureReplanned capture_replanned
  | ResDotfilesApplied dotfiles_applied
  | ResAccepted

section \<open>Messages (\<open>message.rs\<close>)\<close>

record 'j control_request =
  rq_schema_version :: u32
  rq_request_id :: id
  rq_command :: "'j command"

definition PROTOCOL_SCHEMA_VERSION :: u32 where
  "PROTOCOL_SCHEMA_VERSION = 1"

definition control_request_new :: "id \<Rightarrow> 'j command \<Rightarrow> 'j control_request" where
  "control_request_new rid c =
     \<lparr>rq_schema_version = PROTOCOL_SCHEMA_VERSION, rq_request_id = rid, rq_command = c\<rparr>"

datatype 'j response_outcome = OutcomeOk "command_result option" | OutcomeError "'j control_error"

record 'j control_response =
  rs_schema_version :: u32
  rs_request_id :: id
  rs_outcome :: "'j response_outcome"

definition response_ok :: "id \<Rightarrow> command_result option \<Rightarrow> 'j control_response" where
  "response_ok rid result =
     \<lparr>rs_schema_version = PROTOCOL_SCHEMA_VERSION, rs_request_id = rid, rs_outcome = OutcomeOk result\<rparr>"

definition response_ok_with :: "id \<Rightarrow> command_result \<Rightarrow> 'j control_response" where
  "response_ok_with rid result = response_ok rid (Some result)"

definition response_accepted :: "id \<Rightarrow> 'j control_response" where
  "response_accepted rid = response_ok rid (Some ResAccepted)"

definition response_error :: "id \<Rightarrow> 'j control_error \<Rightarrow> 'j control_response" where
  "response_error rid e =
     \<lparr>rs_schema_version = PROTOCOL_SCHEMA_VERSION, rs_request_id = rid, rs_outcome = OutcomeError e\<rparr>"

definition response_is_ok :: "'j control_response \<Rightarrow> bool" where
  "response_is_ok r \<longleftrightarrow> (case rs_outcome r of OutcomeOk _ \<Rightarrow> True | OutcomeError _ \<Rightarrow> False)"

datatype 'j client_message = ClientRequest "'j control_request" | ClientStream stream_frame

datatype 'j server_message =
    ServerResponse "'j control_response"
  | ServerEvent event_envelope
  | ServerStream stream_frame

end
