(* ===== verification/Wire.thy ===== *)
theory Wire
  imports Protocol
begin

text \<open>
  The messages of the wire, \<open>crates/sealant-protocol/proto/sealant.proto\<close>, as the generated Rust types
  have them: an enum field is its \<open>i32\<close>, a message field and a proto3 \<open>optional\<close> are options, a
  \<open>oneof\<close> is an option of a datatype. A message that occurs only as one case of the command
  \<open>oneof\<close> is the list of its fields. The byte encoding of a message belongs to the Protobuf library;
  see theory \<open>Convert\<close>.
\<close>

record wire_env_var =
  wenv_key :: string
  wenv_value :: string

record wire_capture_policy =
  wcp_stdout :: u32
  wcp_stderr :: u32
  wcp_stdin :: u32

record wire_artifact_ref =
  war_algo :: string
  war_hash :: string
  war_bytes :: u64

record wire_transform_meta =
  wtm_redacted :: bool
  wtm_truncated :: bool
  wtm_coalesced :: bool
  wtm_original_byte_count :: "u64 option"

record wire_limits =
  wlm_max_frame_bytes :: u32
  wlm_max_processes :: u32
  wlm_max_sessions :: u32
  wlm_event_queue_capacity :: u64
  wlm_spool_limit_bytes :: u64
  wlm_max_inline_payload_bytes :: u64
  wlm_io_chunk_bytes :: u32

record wire_feature_matrix =
  wfm_io_capture :: bool
  wfm_pty :: bool
  wfm_filesystem :: bool
  wfm_network :: u32
  wfm_privileged :: bool
  wfm_pidfd :: bool
  wfm_subreaper :: bool
  wfm_pipe_sessions :: bool

record wire_feature_state =
  wfs_feature :: u32
  wfs_enabled :: bool

record wire_process_started =
  wst_pid :: u32
  wst_pgid :: u32
  wst_pidfd :: bool
  wst_executable :: string
  wst_args :: "string list"
  wst_cwd :: string
  wst_started_at :: u64
  wst_arg_count :: u32
  wst_arg_lengths :: "u32 list"

record wire_process_exited =
  wex_exit_code :: "u32 option"
  wex_signal :: "u32 option"
  wex_reason :: u32
  wex_duration_micros :: u64

record wire_io_chunk =
  wio_stream :: u32
  wio_byte_count :: u64
  wio_stream_offset :: u64
  wio_content :: "bytes option"
  wio_artifact :: "wire_artifact_ref option"
  wio_transform :: "wire_transform_meta option"

record wire_telemetry_dropped =
  wtd_reason :: string
  wtd_count :: u64
  wtd_priority :: u32

record wire_file_entry =
  wfe_path :: string
  wfe_file_type :: u32
  wfe_size :: u64
  wfe_mtime_micros :: u64
  wfe_mode :: u32
  wfe_hash :: "string option"
  wfe_symlink_target :: "string option"

record wire_file_change =
  wfc_kind :: u32
  wfc_path :: string
  wfc_rename_from :: "string option"
  wfc_entry :: "wire_file_entry option"
  wfc_certain :: bool

record wire_file_watch_overflow =
  wwo_root :: string

record wire_file_snapshot_completed =
  wfsc_root :: string
  wfsc_file_count :: u64

record wire_file_diff_available =
  wda_added :: u64
  wda_modified :: u64
  wda_deleted :: u64
  wda_renamed :: u64

record wire_network_request =
  wnr_scheme :: u32
  wnr_method :: "string option"
  wnr_host :: string
  wnr_port :: u32
  wnr_path :: "string option"
  wnr_status :: "u32 option"
  wnr_bytes_sent :: u64
  wnr_bytes_received :: u64
  wnr_duration_micros :: u64

record wire_network_source_observed =
  wns_host :: string
  wns_resolved_ips :: "string list"
  wns_port :: u32
  wns_scheme :: "u32 option"
  wns_method :: "string option"
  wns_path :: "string option"
  wns_status :: "u32 option"

record wire_runtime_state_changed =
  wsc_state :: u32
  wsc_reason :: "string option"

record wire_runtime_heartbeat =
  whb_state :: u32

record wire_exec_args =
  wea_execution_id :: "id option"
  wea_session_id :: "id option"
  wea_executable :: string
  wea_args :: "string list"
  wea_cwd :: "string option"
  wea_env :: "wire_env_var list"
  wea_secret_env :: "wire_env_var list"
  wea_stdin :: bool
  wea_timeout_millis :: "u64 option"
  wea_background :: bool
  wea_capture :: "wire_capture_policy option"
  wea_graceful_signal :: "u32 option"
  wea_attach :: bool
  wea_user :: "string option"

record wire_open_session_args =
  wos_execution_id :: "id option"
  wos_shell :: "string option"
  wos_args :: "string list"
  wos_cwd :: "string option"
  wos_env :: "wire_env_var list"
  wos_secret_env :: "wire_env_var list"
  wos_cols :: u32
  wos_rows :: u32
  wos_term :: "string option"
  wos_mode :: u32
  wos_user :: "string option"

record wire_attach_session_args =
  was_session_id :: id
  was_mode :: u32
  was_from_sequence :: "u64 option"

record wire_read_session_output_args =
  wro_session_id :: id
  wro_from_sequence :: u64
  wro_max_bytes :: "u64 option"

record wire_open_forward_args =
  wof_host :: string
  wof_port :: u32
  wof_execution_id :: "id option"
  wof_protocol :: "string option"
  wof_dedicated :: "bool option"
  wof_owner_session_id :: "id option"

record wire_open_sftp_args =
  wsf_execution_id :: "id option"
  wsf_cwd :: "string option"
  wsf_user :: "string option"

record wire_execution_start_args =
  wxs_execution_id :: "id option"
  wxs_labels :: "string option"

record wire_write_stdin_args =
  wwsa_process_id :: "id option"
  wwsa_session_id :: "id option"
  wwsa_data :: bytes

record wire_dotfiles_repository =
  wdr_url :: string
  wdr_reference :: "string option"
  wdr_manager :: "string option"
  wdr_target :: "string option"
  wdr_bootstrap :: bool
  wdr_bootstrap_command :: "string option"
  wdr_http_username :: "string option"
  wdr_http_token :: "string option"

record wire_dotfiles_apply_args =
  wdy_user :: string
  wdy_repository :: "wire_dotfiles_repository option"
  wdy_archive_dir :: "string option"
  wdy_execution_id :: "id option"

record wire_capabilities =
  wca_schema_version :: u32
  wca_runtime_id :: id
  wca_workspace_id :: "string option"
  wca_os :: string
  wca_arch :: string
  wca_daemon_version :: string
  wca_features :: "wire_feature_matrix option"
  wca_limits :: "wire_limits option"
  wca_supports :: "string list"
  wca_person_capabilities :: "string list"
  wca_person_capabilities_withheld :: "string option"
  wca_no_new_privileges :: "bool option"

record wire_health_report =
  whr_state :: u32
  whr_runtime_id :: id
  whr_uptime_millis :: u64
  whr_active_executions :: u32
  whr_active_sessions :: u32
  whr_active_processes :: u32
  whr_queue_depth :: u64
  whr_queue_capacity :: u64
  whr_spool_bytes :: u64
  whr_spool_limit_bytes :: u64
  whr_retry_count :: u64
  whr_last_delivery_at :: "u64 option"
  whr_dropped_events :: u64
  whr_redacted_events :: u64
  whr_coalesced_events :: u64
  whr_truncated_events :: u64
  whr_sink_connected :: bool
  whr_feature_states :: "wire_feature_state list"
  whr_degradation_reasons :: "string list"

record wire_process_summary =
  wpu_process_id :: id
  wpu_pid :: u32
  wpu_pgid :: u32
  wpu_state :: u32
  wpu_executable :: string
  wpu_execution_id :: "id option"
  wpu_session_id :: "id option"

record wire_session_summary =
  wsu_session_id :: id
  wsu_process_id :: id
  wsu_pid :: u32
  wsu_cols :: u32
  wsu_rows :: u32
  wsu_execution_id :: "id option"
  wsu_state :: u32
  wsu_exit_code :: "u32 option"
  wsu_signal :: "u32 option"
  wsu_started_at_micros :: u64
  wsu_first_journal_sequence :: u64
  wsu_next_journal_sequence :: u64
  wsu_mode :: u32

record wire_session_output_chunk =
  wsoc_sequence :: u64
  wsoc_data :: bytes

record wire_session_output =
  wso_session_id :: id
  wso_chunks :: "wire_session_output_chunk list"
  wso_next_sequence :: u64
  wso_first_available_sequence :: u64
  wso_state :: u32
  wso_exit_code :: "u32 option"
  wso_signal :: "u32 option"

record wire_exec_accepted =
  wxa_process_id :: id
  wxa_pid :: u32
  wxa_pgid :: u32
  wxa_pidfd :: bool

record wire_session_opened =
  wsn_session_id :: id
  wsn_process_id :: id
  wsn_pid :: u32

record wire_process_list =
  wpl_processes :: "wire_process_summary list"

record wire_session_list =
  wsl_sessions :: "wire_session_summary list"

record wire_runtime_metrics =
  wmt_uptime_millis :: u64
  wmt_events_emitted :: u64
  wmt_events_delivered :: u64
  wmt_dropped_events :: u64
  wmt_queue_depth :: u64
  wmt_spool_bytes :: u64
  wmt_active_processes :: u32
  wmt_active_sessions :: u32

record wire_shutdown_accepted =
  wsh_grace_millis :: u64

record wire_capture_staged =
  wcg_n :: u64
  wcg_capture_id :: string
  wcg_kind :: u32
  wcg_unchanged :: bool

record wire_capture_class_snaps =
  wcn_class :: u32
  wcn_snaps_failed :: u64
  wcn_last_snap_error :: "string option"
  wcn_snap_failing_since_unix_ms :: "u64 option"

record wire_capture_overdue =
  wco_step :: string
  wco_started_unix_ms :: u64
  wco_running_ms :: u64
  wco_bound_ms :: u64

record wire_capture_status_report =
  wcs_epoch :: u64
  wcs_worktree_id :: string
  wcs_head_n :: "u64 option"
  wcs_pending :: u64
  wcs_staged_bytes :: u64
  wcs_uploaded_objects :: u64
  wcs_uploaded_bytes :: u64
  wcs_registered :: u64
  wcs_fenced :: bool
  wcs_paused :: bool
  wcs_last_snap_unix_ms :: "u64 option"
  wcs_refused :: "u32 list"
  wcs_pending_bulk :: u64
  wcs_pending_bytes :: u64
  wcs_complete :: bool
  wcs_incomplete_reason :: "string option"
  wcs_unreadable :: "u64 option"
  wcs_carried :: "u64 option"
  wcs_unreadable_paths :: "string list"
  wcs_register_refused :: "string option"
  wcs_register_refused_n :: "u64 option"
  wcs_register_missing :: "string list"
  wcs_register_refusals :: "u64 option"
  wcs_repairing :: bool
  wcs_bulk_building :: bool
  wcs_snaps :: "wire_capture_class_snaps list"
  wcs_launch :: "string option"
  wcs_boot_id :: "string option"
  wcs_boot_generation :: "u64 option"
  wcs_observation :: "u64 option"
  wcs_overdue :: "wire_capture_overdue option"
  wcs_owner_map :: bool

record wire_lease_epoch_report =
  wle_epoch :: u64
  wle_worktree_id :: string
  wle_fenced :: bool

record wire_capture_replanned =
  wcr_worktree_id :: string
  wcr_epoch :: u64
  wcr_head_n :: "u64 option"
  wcr_head_capture_id :: "string option"
  wcr_files_written :: u64
  wcr_bytes_written :: u64
  wcr_files_skipped :: u64
  wcr_bytes_skipped :: u64
  wcr_removed :: u64
  wcr_unchanged :: bool

record wire_stream_attached =
  wsa_channel_id :: id

record wire_process_attached =
  wpa_process_id :: id
  wpa_pid :: u32
  wpa_pgid :: u32
  wpa_channel_id :: id

record wire_forward_opened =
  wfo_channel_id :: id
  wfo_bound_session_id :: "id option"

record wire_sftp_opened =
  wsfo_channel_id :: id

record wire_dotfiles_applied =
  wdd_user :: string
  wdd_home :: string
  wdd_bootstrap :: "wire_exec_accepted option"

datatype wire_event_payload =
    WRuntimeStateChanged wire_runtime_state_changed
  | WRuntimeHeartbeat wire_runtime_heartbeat
  | WProcessStarted wire_process_started
  | WProcessExited wire_process_exited
  | WIoChunk wire_io_chunk
  | WTelemetryDropped wire_telemetry_dropped
  | WFileChange wire_file_change
  | WFileWatchOverflow wire_file_watch_overflow
  | WFileSnapshotCompleted wire_file_snapshot_completed
  | WFileDiffAvailable wire_file_diff_available
  | WNetworkRequest wire_network_request
  | WNetworkSourceObserved wire_network_source_observed

record wire_event_envelope =
  wev_schema_version :: u32
  wev_event_id :: string
  wev_runtime_id :: string
  wev_execution_id :: "string option"
  wev_session_id :: "string option"
  wev_process_id :: "string option"
  wev_request_id :: "string option"
  wev_sequence :: u64
  wev_observed_at :: u64
  wev_monotonic_timestamp :: u64
  wev_capture_method :: u32
  wev_confidence :: u32
  wev_payload :: "wire_event_payload option"

datatype wire_command =
    WCmdRuntimeHealth
  | WCmdRuntimeGetCapabilities
  | WCmdRuntimeGracefulShutdown "u64 option"
  | WCmdRuntimeKill
  | WCmdExecutionStart wire_execution_start_args
  | WCmdExecutionStop id
  | WCmdExec wire_exec_args
  | WCmdSignalProcess id u32
  | WCmdKillProcess id
  | WCmdListProcesses "id option"
  | WCmdWriteStdin wire_write_stdin_args
  | WCmdCloseStdin id
  | WCmdOpenSession wire_open_session_args
  | WCmdCloseSession id
  | WCmdResizePty id u32 u32
  | WCmdListSessions
  | WCmdSetFeatureState u32 bool
  | WCmdBindMount string string
  | WCmdGetRuntimeMetrics
  | WCmdAttachSession wire_attach_session_args
  | WCmdDetachSession id
  | WCmdOpenForward wire_open_forward_args
  | WCmdCloseForward id
  | WCmdOpenSftp wire_open_sftp_args
  | WCmdCloseSftp id
  | WCmdSignalSession id u32
  | WCmdReadSessionOutput wire_read_session_output_args
  | WCmdCaptureNow u32
  | WCmdCaptureFlush u32 "u64 option" "u64 option"
  | WCmdCaptureStatus
  | WCmdLeaseEpoch
  | WCmdCaptureReplan
  | WCmdDotfilesApply wire_dotfiles_apply_args

datatype wire_command_result =
    WResHealth wire_health_report
  | WResCapabilities wire_capabilities
  | WResExecAccepted wire_exec_accepted
  | WResSessionOpened wire_session_opened
  | WResProcessList wire_process_list
  | WResSessionList wire_session_list
  | WResMetrics wire_runtime_metrics
  | WResShutdownAccepted wire_shutdown_accepted
  | WResStreamAttached wire_stream_attached
  | WResProcessAttached wire_process_attached
  | WResForwardOpened wire_forward_opened
  | WResSftpOpened wire_sftp_opened
  | WResSessionOutput wire_session_output
  | WResCaptureStaged wire_capture_staged
  | WResCaptureStatus wire_capture_status_report
  | WResLeaseEpoch wire_lease_epoch_report
  | WResCaptureReplanned wire_capture_replanned
  | WResDotfilesApplied wire_dotfiles_applied
  | WResAccepted

record wire_control_error =
  wce_code :: u32
  wce_message :: string
  wce_detail_json :: "string option"

text \<open>The message \<open>Command\<close> holds the \<open>oneof\<close>, so a request's command is absent at two levels.\<close>

record wire_control_request =
  wrq_schema_version :: u32
  wrq_request_id :: string
  wrq_command :: "wire_command option option"

datatype wire_outcome = WOutcomeOk "wire_command_result option" | WOutcomeError wire_control_error

record wire_control_response =
  wrs_schema_version :: u32
  wrs_request_id :: string
  wrs_outcome :: "wire_outcome option option"

datatype wire_stream_payload =
    WData bytes
  | WWindowUpdate u64
  | WEnd "u32 option" "u32 option" "string option"

record wire_stream_frame =
  wsf_channel_id :: string
  wsf_seq :: u64
  wsf_payload :: "wire_stream_payload option"

datatype wire_client_message = WClientRequest wire_control_request | WClientStream wire_stream_frame

datatype wire_server_message =
    WServerResponse wire_control_response
  | WServerEvent wire_event_envelope
  | WServerStream wire_stream_frame

datatype wire_error = DecodeError string | MissingField string | MissingOneof string | UnknownEnum string

end
