(* ===== verification/Convert.thy ===== *)
theory Convert
  imports Commands Wire
begin

text \<open>
  The conversions between the domain types and the wire types: \<open>crates/sealant-protocol/src/convert.rs\<close>.

  Two libraries are parameters. \<open>json_lib\<close> is \<open>serde_json\<close>: printing and parsing a JSON value.
  \<open>pb_lib\<close> is the Protobuf codec of one message type: \<open>encode_to_vec\<close> and \<open>decode\<close>. What the
  theorems ask of them is what their documentation promises, that parsing what was printed gives the
  value back; \<open>json_ok\<close> says so, and \<open>pb_ok\<close> for the message at hand.

  The theorems: every client message, server message and event decodes to itself after encoding; an
  enum value outside the protocol is refused; the values an old peer leaves out read as the protocol
  says.
\<close>

record 'j json_lib =
  js_to_string :: "'j \<Rightarrow> string"
  js_from_str :: "string \<Rightarrow> 'j option"

record 'w pb_lib =
  pb_encode :: "'w \<Rightarrow> bytes"
  pb_decode :: "bytes \<Rightarrow> wire_error + 'w"

definition json_ok :: "'j json_lib \<Rightarrow> bool" where
  "json_ok js \<longleftrightarrow> (\<forall>v. js_from_str js (js_to_string js v) = Some v)"

definition pb_ok :: "'w pb_lib \<Rightarrow> 'w \<Rightarrow> bool" where
  "pb_ok pb w \<longleftrightarrow> pb_decode pb (pb_encode pb w) = Ok w"

section \<open>Enumerations\<close>

text \<open>
  The two conversions the macro \<open>enum_pair!\<close> writes for an enumeration, over its table of variants and
  their numbers: the number of a variant, and the variant of a number or an error that names the type.
\<close>

definition enum_i32 :: "('d \<times> u32) list \<Rightarrow> 'd \<Rightarrow> u32" where
  "enum_i32 pairs d = (case map_of pairs d of Some n \<Rightarrow> n | None \<Rightarrow> 0)"

definition enum_of_i32 :: "('d \<times> u32) list \<Rightarrow> string \<Rightarrow> u32 \<Rightarrow> wire_error + 'd" where
  "enum_of_i32 pairs name raw =
     (case find (\<lambda>p. snd p = raw) pairs of Some p \<Rightarrow> Ok (fst p) | None \<Rightarrow> Err (UnknownEnum name))"

definition runtime_state_pairs :: "(runtime_state \<times> u32) list" where
  "runtime_state_pairs = [(RtStarting, 1), (RtHealthy, 2), (RtDegraded, 3), (RtUnhealthy, 4), (RtShuttingDown, 5), (RtStopped, 6)]"

abbreviation runtime_state_to_i32 :: "runtime_state \<Rightarrow> u32" where "runtime_state_to_i32 \<equiv> enum_i32 runtime_state_pairs"

abbreviation runtime_state_of_i32 :: "u32 \<Rightarrow> wire_error + runtime_state" where
  "runtime_state_of_i32 \<equiv> enum_of_i32 runtime_state_pairs ''RuntimeState''"

definition process_state_pairs :: "(process_state \<times> u32) list" where
  "process_state_pairs = [(PsCreated, 1), (PsStarting, 2), (PsRunning, 3), (PsTerminating, 4), (PsExited, 5), (PsSignaled, 6),
     (PsFailed, 7)]"

abbreviation process_state_to_i32 :: "process_state \<Rightarrow> u32" where "process_state_to_i32 \<equiv> enum_i32 process_state_pairs"

abbreviation process_state_of_i32 :: "u32 \<Rightarrow> wire_error + process_state" where
  "process_state_of_i32 \<equiv> enum_of_i32 process_state_pairs ''ProcessState''"

definition exit_reason_pairs :: "(exit_reason \<times> u32) list" where
  "exit_reason_pairs = [(ErExited, 1), (ErSignaled, 2), (ErTimeout, 3), (ErCancelled, 4), (ErStartFailed, 5), (ErLost, 6)]"

abbreviation exit_reason_to_i32 :: "exit_reason \<Rightarrow> u32" where "exit_reason_to_i32 \<equiv> enum_i32 exit_reason_pairs"

abbreviation exit_reason_of_i32 :: "u32 \<Rightarrow> wire_error + exit_reason" where
  "exit_reason_of_i32 \<equiv> enum_of_i32 exit_reason_pairs ''ExitReason''"

definition stream_kind_pairs :: "(stream_kind \<times> u32) list" where
  "stream_kind_pairs = [(Stdin, 1), (Stdout, 2), (Stderr, 3), (PtyInput, 4), (PtyOutput, 5)]"

abbreviation stream_kind_to_i32 :: "stream_kind \<Rightarrow> u32" where "stream_kind_to_i32 \<equiv> enum_i32 stream_kind_pairs"

abbreviation stream_kind_of_i32 :: "u32 \<Rightarrow> wire_error + stream_kind" where
  "stream_kind_of_i32 \<equiv> enum_of_i32 stream_kind_pairs ''StreamKind''"

definition capture_method_pairs :: "(capture_method \<times> u32) list" where
  "capture_method_pairs = [(Pipe, 1), (Pty, 2), (Proxy, 3), (Inotify, 4), (SnapshotMethod, 5), (Ebpf, 6), (Netlink, 7),
     (Internal, 8)]"

abbreviation capture_method_to_i32 :: "capture_method \<Rightarrow> u32" where "capture_method_to_i32 \<equiv> enum_i32 capture_method_pairs"

abbreviation capture_method_of_i32 :: "u32 \<Rightarrow> wire_error + capture_method" where
  "capture_method_of_i32 \<equiv> enum_of_i32 capture_method_pairs ''CaptureMethod''"

definition confidence_pairs :: "(confidence \<times> u32) list" where
  "confidence_pairs = [(Observed, 1), (Inferred, 2), (Unknown, 3)]"

abbreviation confidence_to_i32 :: "confidence \<Rightarrow> u32" where "confidence_to_i32 \<equiv> enum_i32 confidence_pairs"

abbreviation confidence_of_i32 :: "u32 \<Rightarrow> wire_error + confidence" where
  "confidence_of_i32 \<equiv> enum_of_i32 confidence_pairs ''Confidence''"

definition event_priority_pairs :: "(event_priority \<times> u32) list" where
  "event_priority_pairs = [(Critical, 1), (Normal, 2), (Low, 3)]"

abbreviation event_priority_to_i32 :: "event_priority \<Rightarrow> u32" where "event_priority_to_i32 \<equiv> enum_i32 event_priority_pairs"

abbreviation event_priority_of_i32 :: "u32 \<Rightarrow> wire_error + event_priority" where
  "event_priority_of_i32 \<equiv> enum_of_i32 event_priority_pairs ''crate::EventPriority''"

definition capture_kind_pairs :: "(capture_kind \<times> u32) list" where
  "capture_kind_pairs = [(KindAuto, 1), (KindTurn, 2), (KindCheckpoint, 3), (KindSuspend, 4), (KindFinal, 5)]"

abbreviation capture_kind_to_i32 :: "capture_kind \<Rightarrow> u32" where "capture_kind_to_i32 \<equiv> enum_i32 capture_kind_pairs"

abbreviation capture_kind_of_i32 :: "u32 \<Rightarrow> wire_error + capture_kind" where
  "capture_kind_of_i32 \<equiv> enum_of_i32 capture_kind_pairs ''CaptureKind''"

definition capture_class_pairs :: "(capture_class \<times> u32) list" where
  "capture_class_pairs = [(ClassSmall, 1), (ClassBulk, 2)]"

abbreviation capture_class_to_i32 :: "capture_class \<Rightarrow> u32" where "capture_class_to_i32 \<equiv> enum_i32 capture_class_pairs"

abbreviation capture_class_of_i32 :: "u32 \<Rightarrow> wire_error + capture_class" where
  "capture_class_of_i32 \<equiv> enum_of_i32 capture_class_pairs ''CaptureClass''"

definition feature_pairs :: "(feature \<times> u32) list" where
  "feature_pairs = [(FilesystemDiffing, 1), (LiveFilesystemWatching, 2), (NetworkCollection, 3), (PayloadCapture, 4),
     (VerboseIoCapture, 5), (ResourceSampling, 6)]"

abbreviation feature_to_i32 :: "feature \<Rightarrow> u32" where "feature_to_i32 \<equiv> enum_i32 feature_pairs"

abbreviation feature_of_i32 :: "u32 \<Rightarrow> wire_error + feature" where
  "feature_of_i32 \<equiv> enum_of_i32 feature_pairs ''Feature''"

definition signal_pairs :: "(signal \<times> u32) list" where
  "signal_pairs = [(SigHup, 1), (SigInt, 2), (SigQuit, 3), (SigTerm, 4), (SigKill, 5), (SigUsr1, 6), (SigUsr2, 7),
     (SigStop, 8), (SigCont, 9)]"

abbreviation signal_to_i32 :: "signal \<Rightarrow> u32" where "signal_to_i32 \<equiv> enum_i32 signal_pairs"

abbreviation signal_of_i32 :: "u32 \<Rightarrow> wire_error + signal" where
  "signal_of_i32 \<equiv> enum_of_i32 signal_pairs ''Signal''"

definition attach_mode_pairs :: "(attach_mode \<times> u32) list" where
  "attach_mode_pairs = [(Interactive, 1), (Observe, 2)]"

abbreviation attach_mode_to_i32 :: "attach_mode \<Rightarrow> u32" where "attach_mode_to_i32 \<equiv> enum_i32 attach_mode_pairs"

abbreviation attach_mode_of_i32 :: "u32 \<Rightarrow> wire_error + attach_mode" where
  "attach_mode_of_i32 \<equiv> enum_of_i32 attach_mode_pairs ''AttachMode''"

definition session_state_pairs :: "(session_state \<times> u32) list" where
  "session_state_pairs = [(SessionRunning, 1), (SessionExited, 2)]"

abbreviation session_state_to_i32 :: "session_state \<Rightarrow> u32" where "session_state_to_i32 \<equiv> enum_i32 session_state_pairs"

abbreviation session_state_of_i32 :: "u32 \<Rightarrow> wire_error + session_state" where
  "session_state_of_i32 \<equiv> enum_of_i32 session_state_pairs ''crate::SessionState''"

definition session_mode_pairs :: "(session_mode \<times> u32) list" where
  "session_mode_pairs = [(ModePty, 1), (ModePipe, 2)]"

abbreviation session_mode_to_i32 :: "session_mode \<Rightarrow> u32" where "session_mode_to_i32 \<equiv> enum_i32 session_mode_pairs"

abbreviation session_mode_of_i32 :: "u32 \<Rightarrow> wire_error + session_mode" where
  "session_mode_of_i32 \<equiv> enum_of_i32 session_mode_pairs ''crate::SessionMode''"

definition capture_mode_pairs :: "(capture_mode \<times> u32) list" where
  "capture_mode_pairs = [(CaptureFull, 1), (CaptureMetadataOnly, 2), (CaptureDisabled, 3)]"

abbreviation capture_mode_to_i32 :: "capture_mode \<Rightarrow> u32" where "capture_mode_to_i32 \<equiv> enum_i32 capture_mode_pairs"

abbreviation capture_mode_of_i32 :: "u32 \<Rightarrow> wire_error + capture_mode" where
  "capture_mode_of_i32 \<equiv> enum_of_i32 capture_mode_pairs ''CaptureMode''"

definition network_mode_pairs :: "(network_mode \<times> u32) list" where
  "network_mode_pairs = [(NetOff, 1), (NetMetadata, 2), (NetProxy, 3), (NetPrivileged, 4), (NetPayload, 5)]"

abbreviation network_mode_to_i32 :: "network_mode \<Rightarrow> u32" where "network_mode_to_i32 \<equiv> enum_i32 network_mode_pairs"

abbreviation network_mode_of_i32 :: "u32 \<Rightarrow> wire_error + network_mode" where
  "network_mode_of_i32 \<equiv> enum_of_i32 network_mode_pairs ''NetworkMode''"

definition control_error_code_pairs :: "(control_error_code \<times> u32) list" where
  "control_error_code_pairs = [(InvalidJson, 1), (UnsupportedVersion, 2), (FrameTooLarge, 3), (UnknownCommand, 4),
     (InvalidArgument, 5), (MissingCommand, 6), (ExecutionNotFound, 7), (SessionNotFound, 8),
     (ProcessNotFound, 9), (ProcessStartFailed, 10), (PtyAllocationFailed, 11), (PermissionDenied, 12),
     (PolicyDenied, 13), (FeatureUnavailable, 14), (CapabilityUnavailable, 15), (QueueFull, 16),
     (RuntimeShuttingDown, 17), (InternalError, 18)]"

abbreviation control_error_code_to_i32 :: "control_error_code \<Rightarrow> u32" where "control_error_code_to_i32 \<equiv> enum_i32 control_error_code_pairs"

abbreviation control_error_code_of_i32 :: "u32 \<Rightarrow> wire_error + control_error_code" where
  "control_error_code_of_i32 \<equiv> enum_of_i32 control_error_code_pairs ''ControlErrorCode''"

definition file_change_kind_pairs :: "(file_change_kind \<times> u32) list" where
  "file_change_kind_pairs = [(Added, 1), (Modified, 2), (Deleted, 3), (Renamed, 4), (MetadataChanged, 5)]"

abbreviation file_change_kind_to_i32 :: "file_change_kind \<Rightarrow> u32" where "file_change_kind_to_i32 \<equiv> enum_i32 file_change_kind_pairs"

abbreviation file_change_kind_of_i32 :: "u32 \<Rightarrow> wire_error + file_change_kind" where
  "file_change_kind_of_i32 \<equiv> enum_of_i32 file_change_kind_pairs ''FileChangeKind''"

definition file_type_pairs :: "(file_type \<times> u32) list" where
  "file_type_pairs = [(FtFile, 1), (FtDir, 2), (FtSymlink, 3), (FtOther, 4)]"

abbreviation file_type_to_i32 :: "file_type \<Rightarrow> u32" where "file_type_to_i32 \<equiv> enum_i32 file_type_pairs"

abbreviation file_type_of_i32 :: "u32 \<Rightarrow> wire_error + file_type" where
  "file_type_of_i32 \<equiv> enum_of_i32 file_type_pairs ''FileType''"

definition network_scheme_pairs :: "(network_scheme \<times> u32) list" where
  "network_scheme_pairs = [(Http, 1), (HttpsConnect, 2)]"

abbreviation network_scheme_to_i32 :: "network_scheme \<Rightarrow> u32" where "network_scheme_to_i32 \<equiv> enum_i32 network_scheme_pairs"

abbreviation network_scheme_of_i32 :: "u32 \<Rightarrow> wire_error + network_scheme" where
  "network_scheme_of_i32 \<equiv> enum_of_i32 network_scheme_pairs ''NetworkScheme''"

text \<open>The two enumerations that read an absent value as a default.\<close>

fun capture_flush_kind_to_i32 :: "capture_flush_kind \<Rightarrow> u32" where
  "capture_flush_kind_to_i32 FlushSuspend = 1"
| "capture_flush_kind_to_i32 FlushFinal = 2"

definition capture_flush_kind_of_i32 :: "u32 \<Rightarrow> wire_error + capture_flush_kind" where
  "capture_flush_kind_of_i32 raw =
     (if raw = 0 \<or> raw = 1 then Ok FlushSuspend else if raw = 2 then Ok FlushFinal
      else Err (UnknownEnum ''CaptureFlushKind''))"

definition session_mode_or_default :: "u32 \<Rightarrow> wire_error + session_mode" where
  "session_mode_or_default raw = (if raw = 0 then Ok ModePty else session_mode_of_i32 raw)"

fun forward_protocol_to_wire :: "forward_protocol \<Rightarrow> string option" where
  "forward_protocol_to_wire Tcp = None"
| "forward_protocol_to_wire Udp = Some ''udp''"

definition forward_protocol_of_wire :: "string option \<Rightarrow> forward_protocol" where
  "forward_protocol_of_wire p = (if p = Some ''udp'' then Udp else Tcp)"

section \<open>Value messages, event payloads, arguments and results\<close>

definition env_var_to_wire :: "env_var \<Rightarrow> wire_env_var" where
  "env_var_to_wire x =
     \<lparr>wenv_key = env_key x, wenv_value = env_value x\<rparr>"

definition env_var_from_wire :: "wire_env_var \<Rightarrow> env_var" where
  "env_var_from_wire x =
     \<lparr>env_key = wenv_key x, env_value = wenv_value x\<rparr>"

definition capture_policy_to_wire :: "capture_policy \<Rightarrow> wire_capture_policy" where
  "capture_policy_to_wire x =
     \<lparr>wcp_stdout = capture_mode_to_i32 (cp_stdout x), wcp_stderr = capture_mode_to_i32 (cp_stderr x),
      wcp_stdin = capture_mode_to_i32 (cp_stdin x)\<rparr>"

definition capture_policy_from_wire :: "wire_capture_policy \<Rightarrow> wire_error + capture_policy" where
  "capture_policy_from_wire x =
     and_then (capture_mode_of_i32 (wcp_stdout x)) (\<lambda>stdout'.
     and_then (capture_mode_of_i32 (wcp_stderr x)) (\<lambda>stderr'.
     and_then (capture_mode_of_i32 (wcp_stdin x)) (\<lambda>stdin'.
     Ok \<lparr>cp_stdout = stdout', cp_stderr = stderr', cp_stdin = stdin'\<rparr>)))"

definition artifact_ref_to_wire :: "artifact_ref \<Rightarrow> wire_artifact_ref" where
  "artifact_ref_to_wire x =
     \<lparr>war_algo = ar_algo x, war_hash = ar_hash x, war_bytes = ar_bytes x\<rparr>"

definition artifact_ref_from_wire :: "wire_artifact_ref \<Rightarrow> artifact_ref" where
  "artifact_ref_from_wire x =
     \<lparr>ar_algo = war_algo x, ar_hash = war_hash x, ar_bytes = war_bytes x\<rparr>"

definition transform_meta_to_wire :: "transform_meta \<Rightarrow> wire_transform_meta" where
  "transform_meta_to_wire x =
     \<lparr>wtm_redacted = tm_redacted x, wtm_truncated = tm_truncated x, wtm_coalesced = tm_coalesced x,
      wtm_original_byte_count = tm_original_byte_count x\<rparr>"

definition transform_meta_from_wire :: "wire_transform_meta \<Rightarrow> transform_meta" where
  "transform_meta_from_wire x =
     \<lparr>tm_redacted = wtm_redacted x, tm_truncated = wtm_truncated x, tm_coalesced = wtm_coalesced x,
      tm_original_byte_count = wtm_original_byte_count x\<rparr>"

definition limits_to_wire :: "limits \<Rightarrow> wire_limits" where
  "limits_to_wire x =
     \<lparr>wlm_max_frame_bytes = lm_max_frame_bytes x, wlm_max_processes = lm_max_processes x,
      wlm_max_sessions = lm_max_sessions x, wlm_event_queue_capacity = lm_event_queue_capacity x,
      wlm_spool_limit_bytes = lm_spool_limit_bytes x,
      wlm_max_inline_payload_bytes = lm_max_inline_payload_bytes x, wlm_io_chunk_bytes = lm_io_chunk_bytes x\<rparr>"

definition limits_from_wire :: "wire_limits \<Rightarrow> limits" where
  "limits_from_wire x =
     \<lparr>lm_max_frame_bytes = wlm_max_frame_bytes x, lm_max_processes = wlm_max_processes x,
      lm_max_sessions = wlm_max_sessions x, lm_event_queue_capacity = wlm_event_queue_capacity x,
      lm_spool_limit_bytes = wlm_spool_limit_bytes x,
      lm_max_inline_payload_bytes = wlm_max_inline_payload_bytes x, lm_io_chunk_bytes = wlm_io_chunk_bytes x\<rparr>"

definition feature_matrix_to_wire :: "feature_matrix \<Rightarrow> wire_feature_matrix" where
  "feature_matrix_to_wire x =
     \<lparr>wfm_io_capture = fm_io_capture x, wfm_pty = fm_pty x, wfm_filesystem = fm_filesystem x,
      wfm_network = network_mode_to_i32 (fm_network x), wfm_privileged = fm_privileged x,
      wfm_pidfd = fm_pidfd x, wfm_subreaper = fm_subreaper x, wfm_pipe_sessions = fm_pipe_sessions x\<rparr>"

definition feature_matrix_from_wire :: "wire_feature_matrix \<Rightarrow> wire_error + feature_matrix" where
  "feature_matrix_from_wire x =
     and_then (network_mode_of_i32 (wfm_network x)) (\<lambda>network'.
     Ok \<lparr>fm_io_capture = wfm_io_capture x, fm_pty = wfm_pty x, fm_filesystem = wfm_filesystem x,
          fm_network = network', fm_privileged = wfm_privileged x, fm_pidfd = wfm_pidfd x,
          fm_subreaper = wfm_subreaper x, fm_pipe_sessions = wfm_pipe_sessions x\<rparr>)"

definition feature_state_to_wire :: "feature_state \<Rightarrow> wire_feature_state" where
  "feature_state_to_wire x =
     \<lparr>wfs_feature = feature_to_i32 (fs_feature x), wfs_enabled = fs_enabled x\<rparr>"

definition feature_state_from_wire :: "wire_feature_state \<Rightarrow> wire_error + feature_state" where
  "feature_state_from_wire x =
     and_then (feature_of_i32 (wfs_feature x)) (\<lambda>feature'.
     Ok \<lparr>fs_feature = feature', fs_enabled = wfs_enabled x\<rparr>)"

definition process_started_to_wire :: "process_started \<Rightarrow> wire_process_started" where
  "process_started_to_wire x =
     \<lparr>wst_pid = st_pid x, wst_pgid = st_pgid x, wst_pidfd = st_pidfd x, wst_executable = st_executable x,
      wst_args = st_args x, wst_cwd = st_cwd x, wst_started_at = st_started_at x,
      wst_arg_count = st_arg_count x, wst_arg_lengths = st_arg_lengths x\<rparr>"

definition process_started_from_wire :: "wire_process_started \<Rightarrow> process_started" where
  "process_started_from_wire x =
     \<lparr>st_pid = wst_pid x, st_pgid = wst_pgid x, st_pidfd = wst_pidfd x, st_executable = wst_executable x,
      st_args = wst_args x, st_cwd = wst_cwd x, st_started_at = wst_started_at x,
      st_arg_count = wst_arg_count x, st_arg_lengths = wst_arg_lengths x\<rparr>"

definition process_exited_to_wire :: "process_exited \<Rightarrow> wire_process_exited" where
  "process_exited_to_wire x =
     \<lparr>wex_exit_code = ex_exit_code x, wex_signal = ex_signal x,
      wex_reason = exit_reason_to_i32 (ex_reason x), wex_duration_micros = ex_duration_micros x\<rparr>"

definition process_exited_from_wire :: "wire_process_exited \<Rightarrow> wire_error + process_exited" where
  "process_exited_from_wire x =
     and_then (exit_reason_of_i32 (wex_reason x)) (\<lambda>reason'.
     Ok \<lparr>ex_exit_code = wex_exit_code x, ex_signal = wex_signal x, ex_reason = reason',
          ex_duration_micros = wex_duration_micros x\<rparr>)"

definition io_chunk_to_wire :: "io_chunk \<Rightarrow> wire_io_chunk" where
  "io_chunk_to_wire x =
     \<lparr>wio_stream = stream_kind_to_i32 (io_stream x), wio_byte_count = io_byte_count x,
      wio_stream_offset = io_stream_offset x, wio_content = io_content x,
      wio_artifact = map_option artifact_ref_to_wire (io_artifact x),
      wio_transform = map_option transform_meta_to_wire (io_transform x)\<rparr>"

definition io_chunk_from_wire :: "wire_io_chunk \<Rightarrow> wire_error + io_chunk" where
  "io_chunk_from_wire x =
     and_then (stream_kind_of_i32 (wio_stream x)) (\<lambda>stream'.
     Ok \<lparr>io_stream = stream', io_encoding = Base64, io_byte_count = wio_byte_count x,
          io_stream_offset = wio_stream_offset x, io_content = wio_content x,
          io_artifact = map_option artifact_ref_from_wire (wio_artifact x),
          io_transform = map_option transform_meta_from_wire (wio_transform x)\<rparr>)"

definition telemetry_dropped_to_wire :: "telemetry_dropped \<Rightarrow> wire_telemetry_dropped" where
  "telemetry_dropped_to_wire x =
     \<lparr>wtd_reason = td_reason x, wtd_count = td_count x, wtd_priority = event_priority_to_i32 (td_priority x)\<rparr>"

definition telemetry_dropped_from_wire :: "wire_telemetry_dropped \<Rightarrow> wire_error + telemetry_dropped" where
  "telemetry_dropped_from_wire x =
     and_then (event_priority_of_i32 (wtd_priority x)) (\<lambda>priority'.
     Ok \<lparr>td_reason = wtd_reason x, td_count = wtd_count x, td_priority = priority'\<rparr>)"

definition file_entry_to_wire :: "file_entry \<Rightarrow> wire_file_entry" where
  "file_entry_to_wire x =
     \<lparr>wfe_path = fe_path x, wfe_file_type = file_type_to_i32 (fe_file_type x), wfe_size = fe_size x,
      wfe_mtime_micros = fe_mtime_micros x, wfe_mode = fe_mode x, wfe_hash = fe_hash x,
      wfe_symlink_target = fe_symlink_target x\<rparr>"

definition file_entry_from_wire :: "wire_file_entry \<Rightarrow> wire_error + file_entry" where
  "file_entry_from_wire x =
     and_then (file_type_of_i32 (wfe_file_type x)) (\<lambda>file_type'.
     Ok \<lparr>fe_path = wfe_path x, fe_file_type = file_type', fe_size = wfe_size x,
          fe_mtime_micros = wfe_mtime_micros x, fe_mode = wfe_mode x, fe_hash = wfe_hash x,
          fe_symlink_target = wfe_symlink_target x\<rparr>)"

definition file_change_to_wire :: "file_change \<Rightarrow> wire_file_change" where
  "file_change_to_wire x =
     \<lparr>wfc_kind = file_change_kind_to_i32 (fc_kind x), wfc_path = fc_path x,
      wfc_rename_from = fc_rename_from x, wfc_entry = map_option file_entry_to_wire (fc_entry x),
      wfc_certain = fc_certain x\<rparr>"

definition file_change_from_wire :: "wire_file_change \<Rightarrow> wire_error + file_change" where
  "file_change_from_wire x =
     and_then (file_change_kind_of_i32 (wfc_kind x)) (\<lambda>kind'.
     and_then (try_option file_entry_from_wire (wfc_entry x)) (\<lambda>entry'.
     Ok \<lparr>fc_kind = kind', fc_path = wfc_path x, fc_rename_from = wfc_rename_from x, fc_entry = entry',
          fc_certain = wfc_certain x\<rparr>))"

definition file_watch_overflow_to_wire :: "file_watch_overflow \<Rightarrow> wire_file_watch_overflow" where
  "file_watch_overflow_to_wire x =
     \<lparr>wwo_root = wo_root x\<rparr>"

definition file_watch_overflow_from_wire :: "wire_file_watch_overflow \<Rightarrow> file_watch_overflow" where
  "file_watch_overflow_from_wire x =
     \<lparr>wo_root = wwo_root x\<rparr>"

definition file_snapshot_completed_to_wire :: "file_snapshot_completed \<Rightarrow> wire_file_snapshot_completed" where
  "file_snapshot_completed_to_wire x =
     \<lparr>wfsc_root = fsc_root x, wfsc_file_count = fsc_file_count x\<rparr>"

definition file_snapshot_completed_from_wire :: "wire_file_snapshot_completed \<Rightarrow> file_snapshot_completed" where
  "file_snapshot_completed_from_wire x =
     \<lparr>fsc_root = wfsc_root x, fsc_file_count = wfsc_file_count x\<rparr>"

definition file_diff_available_to_wire :: "file_diff_available \<Rightarrow> wire_file_diff_available" where
  "file_diff_available_to_wire x =
     \<lparr>wda_added = da_added x, wda_modified = da_modified x, wda_deleted = da_deleted x,
      wda_renamed = da_renamed x\<rparr>"

definition file_diff_available_from_wire :: "wire_file_diff_available \<Rightarrow> file_diff_available" where
  "file_diff_available_from_wire x =
     \<lparr>da_added = wda_added x, da_modified = wda_modified x, da_deleted = wda_deleted x,
      da_renamed = wda_renamed x\<rparr>"

definition network_request_to_wire :: "network_request \<Rightarrow> wire_network_request" where
  "network_request_to_wire x =
     \<lparr>wnr_scheme = network_scheme_to_i32 (nr_scheme x), wnr_method = nr_method x, wnr_host = nr_host x,
      wnr_port = ucast (nr_port x), wnr_path = nr_path x, wnr_status = nr_status x,
      wnr_bytes_sent = nr_bytes_sent x, wnr_bytes_received = nr_bytes_received x,
      wnr_duration_micros = nr_duration_micros x\<rparr>"

definition network_request_from_wire :: "wire_network_request \<Rightarrow> wire_error + network_request" where
  "network_request_from_wire x =
     and_then (network_scheme_of_i32 (wnr_scheme x)) (\<lambda>scheme'.
     Ok \<lparr>nr_scheme = scheme', nr_method = wnr_method x, nr_host = wnr_host x, nr_port = ucast (wnr_port x),
          nr_path = wnr_path x, nr_status = wnr_status x, nr_bytes_sent = wnr_bytes_sent x,
          nr_bytes_received = wnr_bytes_received x, nr_duration_micros = wnr_duration_micros x\<rparr>)"

definition network_source_observed_to_wire :: "network_source_observed \<Rightarrow> wire_network_source_observed" where
  "network_source_observed_to_wire x =
     \<lparr>wns_host = ns_host x, wns_resolved_ips = ns_resolved_ips x, wns_port = ucast (ns_port x),
      wns_scheme = map_option network_scheme_to_i32 (ns_scheme x), wns_method = ns_method x,
      wns_path = ns_path x, wns_status = ns_status x\<rparr>"

definition network_source_observed_from_wire :: "wire_network_source_observed \<Rightarrow> wire_error + network_source_observed" where
  "network_source_observed_from_wire x =
     and_then (try_option network_scheme_of_i32 (wns_scheme x)) (\<lambda>scheme'.
     Ok \<lparr>ns_host = wns_host x, ns_resolved_ips = wns_resolved_ips x, ns_port = ucast (wns_port x),
          ns_scheme = scheme', ns_method = wns_method x, ns_path = wns_path x, ns_status = wns_status x\<rparr>)"

definition runtime_state_changed_to_wire :: "runtime_state_changed \<Rightarrow> wire_runtime_state_changed" where
  "runtime_state_changed_to_wire x =
     \<lparr>wsc_state = runtime_state_to_i32 (sc_state x), wsc_reason = sc_reason x\<rparr>"

definition runtime_state_changed_from_wire :: "wire_runtime_state_changed \<Rightarrow> wire_error + runtime_state_changed" where
  "runtime_state_changed_from_wire x =
     and_then (runtime_state_of_i32 (wsc_state x)) (\<lambda>state'.
     Ok \<lparr>sc_state = state', sc_reason = wsc_reason x\<rparr>)"

definition runtime_heartbeat_to_wire :: "runtime_heartbeat \<Rightarrow> wire_runtime_heartbeat" where
  "runtime_heartbeat_to_wire x =
     \<lparr>whb_state = runtime_state_to_i32 (hb_state x)\<rparr>"

definition runtime_heartbeat_from_wire :: "wire_runtime_heartbeat \<Rightarrow> wire_error + runtime_heartbeat" where
  "runtime_heartbeat_from_wire x =
     and_then (runtime_state_of_i32 (whb_state x)) (\<lambda>state'.
     Ok \<lparr>hb_state = state'\<rparr>)"

definition exec_args_to_wire :: "exec_args \<Rightarrow> wire_exec_args" where
  "exec_args_to_wire x =
     \<lparr>wea_execution_id = ea_execution_id x, wea_session_id = ea_session_id x,
      wea_executable = ea_executable x, wea_args = ea_args x, wea_cwd = ea_cwd x,
      wea_env = map env_var_to_wire (ea_env x), wea_secret_env = map env_var_to_wire (ea_secret_env x),
      wea_stdin = ea_stdin x, wea_timeout_millis = ea_timeout_millis x, wea_background = ea_background x,
      wea_capture = map_option capture_policy_to_wire (ea_capture x),
      wea_graceful_signal = map_option signal_to_i32 (ea_graceful_signal x), wea_attach = ea_attach x,
      wea_user = ea_user x\<rparr>"

definition exec_args_from_wire :: "wire_exec_args \<Rightarrow> wire_error + exec_args" where
  "exec_args_from_wire x =
     and_then (try_option capture_policy_from_wire (wea_capture x)) (\<lambda>capture'.
     and_then (try_option signal_of_i32 (wea_graceful_signal x)) (\<lambda>graceful_signal'.
     Ok \<lparr>ea_execution_id = wea_execution_id x, ea_session_id = wea_session_id x,
          ea_executable = wea_executable x, ea_args = wea_args x, ea_cwd = wea_cwd x,
          ea_env = map env_var_from_wire (wea_env x),
          ea_secret_env = map env_var_from_wire (wea_secret_env x), ea_stdin = wea_stdin x,
          ea_timeout_millis = wea_timeout_millis x, ea_background = wea_background x, ea_capture = capture',
          ea_graceful_signal = graceful_signal', ea_attach = wea_attach x, ea_user = wea_user x\<rparr>))"

definition open_session_args_to_wire :: "open_session_args \<Rightarrow> wire_open_session_args" where
  "open_session_args_to_wire x =
     \<lparr>wos_execution_id = os_execution_id x, wos_shell = os_shell x, wos_args = os_args x, wos_cwd = os_cwd x,
      wos_env = map env_var_to_wire (os_env x), wos_secret_env = map env_var_to_wire (os_secret_env x),
      wos_cols = ucast (os_cols x), wos_rows = ucast (os_rows x), wos_term = os_term x,
      wos_mode = session_mode_to_i32 (os_mode x), wos_user = os_user x\<rparr>"

definition open_session_args_from_wire :: "wire_open_session_args \<Rightarrow> wire_error + open_session_args" where
  "open_session_args_from_wire x =
     and_then (session_mode_or_default (wos_mode x)) (\<lambda>mode'.
     Ok \<lparr>os_execution_id = wos_execution_id x, os_shell = wos_shell x, os_args = wos_args x,
          os_cwd = wos_cwd x, os_env = map env_var_from_wire (wos_env x),
          os_secret_env = map env_var_from_wire (wos_secret_env x), os_cols = ucast (wos_cols x),
          os_rows = ucast (wos_rows x), os_term = wos_term x, os_mode = mode', os_user = wos_user x\<rparr>)"

definition attach_session_args_to_wire :: "attach_session_args \<Rightarrow> wire_attach_session_args" where
  "attach_session_args_to_wire x =
     \<lparr>was_session_id = as_session_id x, was_mode = attach_mode_to_i32 (as_mode x),
      was_from_sequence = as_from_sequence x\<rparr>"

definition attach_session_args_from_wire :: "wire_attach_session_args \<Rightarrow> wire_error + attach_session_args" where
  "attach_session_args_from_wire x =
     and_then (attach_mode_of_i32 (was_mode x)) (\<lambda>mode'.
     Ok \<lparr>as_session_id = was_session_id x, as_mode = mode', as_from_sequence = was_from_sequence x\<rparr>)"

definition read_session_output_args_to_wire :: "read_session_output_args \<Rightarrow> wire_read_session_output_args" where
  "read_session_output_args_to_wire x =
     \<lparr>wro_session_id = ro_session_id x, wro_from_sequence = ro_from_sequence x,
      wro_max_bytes = ro_max_bytes x\<rparr>"

definition read_session_output_args_from_wire :: "wire_read_session_output_args \<Rightarrow> read_session_output_args" where
  "read_session_output_args_from_wire x =
     \<lparr>ro_session_id = wro_session_id x, ro_from_sequence = wro_from_sequence x,
      ro_max_bytes = wro_max_bytes x\<rparr>"

definition open_forward_args_to_wire :: "open_forward_args \<Rightarrow> wire_open_forward_args" where
  "open_forward_args_to_wire x =
     \<lparr>wof_host = of_host x, wof_port = ucast (of_port x), wof_execution_id = of_execution_id x,
      wof_protocol = forward_protocol_to_wire (of_protocol x),
      wof_dedicated = (if of_dedicated x then Some True else None),
      wof_owner_session_id = of_owner_session_id x\<rparr>"

definition open_forward_args_from_wire :: "wire_open_forward_args \<Rightarrow> open_forward_args" where
  "open_forward_args_from_wire x =
     \<lparr>of_host = wof_host x, of_port = ucast (wof_port x), of_execution_id = wof_execution_id x,
      of_protocol = forward_protocol_of_wire (wof_protocol x),
      of_dedicated = (case wof_dedicated x of None \<Rightarrow> False | Some b \<Rightarrow> b),
      of_owner_session_id = wof_owner_session_id x\<rparr>"

definition open_sftp_args_to_wire :: "open_sftp_args \<Rightarrow> wire_open_sftp_args" where
  "open_sftp_args_to_wire x =
     \<lparr>wsf_execution_id = sf_execution_id x, wsf_cwd = sf_cwd x, wsf_user = sf_user x\<rparr>"

definition open_sftp_args_from_wire :: "wire_open_sftp_args \<Rightarrow> open_sftp_args" where
  "open_sftp_args_from_wire x =
     \<lparr>sf_execution_id = wsf_execution_id x, sf_cwd = wsf_cwd x, sf_user = wsf_user x\<rparr>"

definition execution_start_args_to_wire :: "'j json_lib \<Rightarrow> 'j execution_start_args \<Rightarrow> wire_execution_start_args" where
  "execution_start_args_to_wire js x =
     \<lparr>wxs_execution_id = xs_execution_id x, wxs_labels = map_option (js_to_string js) (xs_labels x)\<rparr>"

definition execution_start_args_from_wire :: "'j json_lib \<Rightarrow> wire_execution_start_args \<Rightarrow> 'j execution_start_args" where
  "execution_start_args_from_wire js x =
     \<lparr>xs_execution_id = wxs_execution_id x, xs_labels = Option.bind (wxs_labels x) (js_from_str js)\<rparr>"

definition write_stdin_args_to_wire :: "write_stdin_args \<Rightarrow> wire_write_stdin_args" where
  "write_stdin_args_to_wire x =
     \<lparr>wwsa_process_id = wsa_process_id x, wwsa_session_id = wsa_session_id x, wwsa_data = wsa_data x\<rparr>"

definition write_stdin_args_from_wire :: "wire_write_stdin_args \<Rightarrow> write_stdin_args" where
  "write_stdin_args_from_wire x =
     \<lparr>wsa_process_id = wwsa_process_id x, wsa_session_id = wwsa_session_id x, wsa_data = wwsa_data x\<rparr>"

definition dotfiles_repository_to_wire :: "dotfiles_repository \<Rightarrow> wire_dotfiles_repository" where
  "dotfiles_repository_to_wire x =
     \<lparr>wdr_url = dr_url x, wdr_reference = dr_reference x, wdr_manager = dr_manager x,
      wdr_target = dr_target x, wdr_bootstrap = dr_bootstrap x,
      wdr_bootstrap_command = dr_bootstrap_command x, wdr_http_username = dr_http_username x,
      wdr_http_token = dr_http_token x\<rparr>"

definition dotfiles_repository_from_wire :: "wire_dotfiles_repository \<Rightarrow> dotfiles_repository" where
  "dotfiles_repository_from_wire x =
     \<lparr>dr_url = wdr_url x, dr_reference = wdr_reference x, dr_manager = wdr_manager x,
      dr_target = wdr_target x, dr_bootstrap = wdr_bootstrap x,
      dr_bootstrap_command = wdr_bootstrap_command x, dr_http_username = wdr_http_username x,
      dr_http_token = wdr_http_token x\<rparr>"

definition dotfiles_apply_args_to_wire :: "dotfiles_apply_args \<Rightarrow> wire_dotfiles_apply_args" where
  "dotfiles_apply_args_to_wire x =
     \<lparr>wdy_user = dy_user x, wdy_repository = map_option dotfiles_repository_to_wire (dy_repository x),
      wdy_archive_dir = dy_archive_dir x, wdy_execution_id = dy_execution_id x\<rparr>"

definition dotfiles_apply_args_from_wire :: "wire_dotfiles_apply_args \<Rightarrow> dotfiles_apply_args" where
  "dotfiles_apply_args_from_wire x =
     \<lparr>dy_user = wdy_user x, dy_repository = map_option dotfiles_repository_from_wire (wdy_repository x),
      dy_archive_dir = wdy_archive_dir x, dy_execution_id = wdy_execution_id x\<rparr>"

definition capabilities_to_wire :: "capabilities \<Rightarrow> wire_capabilities" where
  "capabilities_to_wire x =
     \<lparr>wca_schema_version = ca_schema_version x, wca_runtime_id = ca_runtime_id x,
      wca_workspace_id = ca_workspace_id x, wca_os = ca_os x, wca_arch = ca_arch x,
      wca_daemon_version = ca_daemon_version x, wca_features = Some (feature_matrix_to_wire (ca_features x)),
      wca_limits = Some (limits_to_wire (ca_limits x)), wca_supports = ca_supports x,
      wca_person_capabilities = ca_person_capabilities x,
      wca_person_capabilities_withheld = ca_person_capabilities_withheld x,
      wca_no_new_privileges = ca_no_new_privileges x\<rparr>"

definition capabilities_from_wire :: "wire_capabilities \<Rightarrow> wire_error + capabilities" where
  "capabilities_from_wire x =
     and_then (and_then (ok_or (wca_features x) (MissingField ''Capabilities.features'')) feature_matrix_from_wire) (\<lambda>feats'.
     and_then (and_then (ok_or (wca_limits x) (MissingField ''Capabilities.limits'')) (\<lambda>x. Ok (limits_from_wire x))) (\<lambda>lims'.
     Ok \<lparr>ca_schema_version = wca_schema_version x, ca_runtime_id = wca_runtime_id x,
          ca_workspace_id = wca_workspace_id x, ca_os = wca_os x, ca_arch = wca_arch x,
          ca_daemon_version = wca_daemon_version x, ca_features = feats', ca_limits = lims',
          ca_supports = wca_supports x, ca_person_capabilities = wca_person_capabilities x,
          ca_person_capabilities_withheld = wca_person_capabilities_withheld x,
          ca_no_new_privileges = wca_no_new_privileges x\<rparr>))"

definition health_report_to_wire :: "health_report \<Rightarrow> wire_health_report" where
  "health_report_to_wire x =
     \<lparr>whr_state = runtime_state_to_i32 (hr_state x), whr_runtime_id = hr_runtime_id x,
      whr_uptime_millis = hr_uptime_millis x, whr_active_executions = hr_active_executions x,
      whr_active_sessions = hr_active_sessions x, whr_active_processes = hr_active_processes x,
      whr_queue_depth = hr_queue_depth x, whr_queue_capacity = hr_queue_capacity x,
      whr_spool_bytes = hr_spool_bytes x, whr_spool_limit_bytes = hr_spool_limit_bytes x,
      whr_retry_count = hr_retry_count x, whr_last_delivery_at = hr_last_delivery_at x,
      whr_dropped_events = hr_dropped_events x, whr_redacted_events = hr_redacted_events x,
      whr_coalesced_events = hr_coalesced_events x, whr_truncated_events = hr_truncated_events x,
      whr_sink_connected = hr_sink_connected x,
      whr_feature_states = map feature_state_to_wire (hr_feature_states x),
      whr_degradation_reasons = hr_degradation_reasons x\<rparr>"

definition health_report_from_wire :: "wire_health_report \<Rightarrow> wire_error + health_report" where
  "health_report_from_wire x =
     and_then (runtime_state_of_i32 (whr_state x)) (\<lambda>state'.
     and_then (try_map feature_state_from_wire (whr_feature_states x)) (\<lambda>feature_states'.
     Ok \<lparr>hr_state = state', hr_runtime_id = whr_runtime_id x, hr_uptime_millis = whr_uptime_millis x,
          hr_active_executions = whr_active_executions x, hr_active_sessions = whr_active_sessions x,
          hr_active_processes = whr_active_processes x, hr_queue_depth = whr_queue_depth x,
          hr_queue_capacity = whr_queue_capacity x, hr_spool_bytes = whr_spool_bytes x,
          hr_spool_limit_bytes = whr_spool_limit_bytes x, hr_retry_count = whr_retry_count x,
          hr_last_delivery_at = whr_last_delivery_at x, hr_dropped_events = whr_dropped_events x,
          hr_redacted_events = whr_redacted_events x, hr_coalesced_events = whr_coalesced_events x,
          hr_truncated_events = whr_truncated_events x, hr_sink_connected = whr_sink_connected x,
          hr_feature_states = feature_states', hr_degradation_reasons = whr_degradation_reasons x\<rparr>))"

definition process_summary_to_wire :: "process_summary \<Rightarrow> wire_process_summary" where
  "process_summary_to_wire x =
     \<lparr>wpu_process_id = pu_process_id x, wpu_pid = pu_pid x, wpu_pgid = pu_pgid x,
      wpu_state = process_state_to_i32 (pu_state x), wpu_executable = pu_executable x,
      wpu_execution_id = pu_execution_id x, wpu_session_id = pu_session_id x\<rparr>"

definition process_summary_from_wire :: "wire_process_summary \<Rightarrow> wire_error + process_summary" where
  "process_summary_from_wire x =
     and_then (process_state_of_i32 (wpu_state x)) (\<lambda>state'.
     Ok \<lparr>pu_process_id = wpu_process_id x, pu_pid = wpu_pid x, pu_pgid = wpu_pgid x, pu_state = state',
          pu_executable = wpu_executable x, pu_execution_id = wpu_execution_id x,
          pu_session_id = wpu_session_id x\<rparr>)"

definition session_summary_to_wire :: "session_summary \<Rightarrow> wire_session_summary" where
  "session_summary_to_wire x =
     \<lparr>wsu_session_id = su_session_id x, wsu_process_id = su_process_id x, wsu_pid = su_pid x,
      wsu_cols = ucast (su_cols x), wsu_rows = ucast (su_rows x), wsu_execution_id = su_execution_id x,
      wsu_state = session_state_to_i32 (su_state x), wsu_exit_code = su_exit_code x,
      wsu_signal = su_signal x, wsu_started_at_micros = su_started_at_micros x,
      wsu_first_journal_sequence = su_first_journal_sequence x,
      wsu_next_journal_sequence = su_next_journal_sequence x, wsu_mode = session_mode_to_i32 (su_mode x)\<rparr>"

definition session_summary_from_wire :: "wire_session_summary \<Rightarrow> wire_error + session_summary" where
  "session_summary_from_wire x =
     and_then (session_state_of_i32 (wsu_state x)) (\<lambda>state'.
     and_then (session_mode_or_default (wsu_mode x)) (\<lambda>mode'.
     Ok \<lparr>su_session_id = wsu_session_id x, su_process_id = wsu_process_id x, su_pid = wsu_pid x,
          su_cols = ucast (wsu_cols x), su_rows = ucast (wsu_rows x), su_execution_id = wsu_execution_id x,
          su_state = state', su_exit_code = wsu_exit_code x, su_signal = wsu_signal x,
          su_started_at_micros = wsu_started_at_micros x,
          su_first_journal_sequence = wsu_first_journal_sequence x,
          su_next_journal_sequence = wsu_next_journal_sequence x, su_mode = mode'\<rparr>))"

definition session_output_chunk_to_wire :: "session_output_chunk \<Rightarrow> wire_session_output_chunk" where
  "session_output_chunk_to_wire x =
     \<lparr>wsoc_sequence = soc_sequence x, wsoc_data = soc_data x\<rparr>"

definition session_output_chunk_from_wire :: "wire_session_output_chunk \<Rightarrow> session_output_chunk" where
  "session_output_chunk_from_wire x =
     \<lparr>soc_sequence = wsoc_sequence x, soc_data = wsoc_data x\<rparr>"

definition session_output_to_wire :: "session_output \<Rightarrow> wire_session_output" where
  "session_output_to_wire x =
     \<lparr>wso_session_id = so_session_id x, wso_chunks = map session_output_chunk_to_wire (so_chunks x),
      wso_next_sequence = so_next_sequence x, wso_first_available_sequence = so_first_available_sequence x,
      wso_state = session_state_to_i32 (so_state x), wso_exit_code = so_exit_code x,
      wso_signal = so_signal x\<rparr>"

definition session_output_from_wire :: "wire_session_output \<Rightarrow> wire_error + session_output" where
  "session_output_from_wire x =
     and_then (session_state_of_i32 (wso_state x)) (\<lambda>state'.
     Ok \<lparr>so_session_id = wso_session_id x, so_chunks = map session_output_chunk_from_wire (wso_chunks x),
          so_next_sequence = wso_next_sequence x,
          so_first_available_sequence = wso_first_available_sequence x, so_state = state',
          so_exit_code = wso_exit_code x, so_signal = wso_signal x\<rparr>)"

definition exec_accepted_to_wire :: "exec_accepted \<Rightarrow> wire_exec_accepted" where
  "exec_accepted_to_wire x =
     \<lparr>wxa_process_id = xa_process_id x, wxa_pid = xa_pid x, wxa_pgid = xa_pgid x, wxa_pidfd = xa_pidfd x\<rparr>"

definition exec_accepted_from_wire :: "wire_exec_accepted \<Rightarrow> exec_accepted" where
  "exec_accepted_from_wire x =
     \<lparr>xa_process_id = wxa_process_id x, xa_pid = wxa_pid x, xa_pgid = wxa_pgid x, xa_pidfd = wxa_pidfd x\<rparr>"

definition session_opened_to_wire :: "session_opened \<Rightarrow> wire_session_opened" where
  "session_opened_to_wire x =
     \<lparr>wsn_session_id = sn_session_id x, wsn_process_id = sn_process_id x, wsn_pid = sn_pid x\<rparr>"

definition session_opened_from_wire :: "wire_session_opened \<Rightarrow> session_opened" where
  "session_opened_from_wire x =
     \<lparr>sn_session_id = wsn_session_id x, sn_process_id = wsn_process_id x, sn_pid = wsn_pid x\<rparr>"

definition process_list_to_wire :: "process_list \<Rightarrow> wire_process_list" where
  "process_list_to_wire x =
     \<lparr>wpl_processes = map process_summary_to_wire (pl_processes x)\<rparr>"

definition process_list_from_wire :: "wire_process_list \<Rightarrow> wire_error + process_list" where
  "process_list_from_wire x =
     and_then (try_map process_summary_from_wire (wpl_processes x)) (\<lambda>processes'.
     Ok \<lparr>pl_processes = processes'\<rparr>)"

definition session_list_to_wire :: "session_list \<Rightarrow> wire_session_list" where
  "session_list_to_wire x =
     \<lparr>wsl_sessions = map session_summary_to_wire (sl_sessions x)\<rparr>"

definition session_list_from_wire :: "wire_session_list \<Rightarrow> wire_error + session_list" where
  "session_list_from_wire x =
     and_then (try_map session_summary_from_wire (wsl_sessions x)) (\<lambda>sessions'.
     Ok \<lparr>sl_sessions = sessions'\<rparr>)"

definition runtime_metrics_to_wire :: "runtime_metrics \<Rightarrow> wire_runtime_metrics" where
  "runtime_metrics_to_wire x =
     \<lparr>wmt_uptime_millis = mt_uptime_millis x, wmt_events_emitted = mt_events_emitted x,
      wmt_events_delivered = mt_events_delivered x, wmt_dropped_events = mt_dropped_events x,
      wmt_queue_depth = mt_queue_depth x, wmt_spool_bytes = mt_spool_bytes x,
      wmt_active_processes = mt_active_processes x, wmt_active_sessions = mt_active_sessions x\<rparr>"

definition runtime_metrics_from_wire :: "wire_runtime_metrics \<Rightarrow> runtime_metrics" where
  "runtime_metrics_from_wire x =
     \<lparr>mt_uptime_millis = wmt_uptime_millis x, mt_events_emitted = wmt_events_emitted x,
      mt_events_delivered = wmt_events_delivered x, mt_dropped_events = wmt_dropped_events x,
      mt_queue_depth = wmt_queue_depth x, mt_spool_bytes = wmt_spool_bytes x,
      mt_active_processes = wmt_active_processes x, mt_active_sessions = wmt_active_sessions x\<rparr>"

definition shutdown_accepted_to_wire :: "shutdown_accepted \<Rightarrow> wire_shutdown_accepted" where
  "shutdown_accepted_to_wire x =
     \<lparr>wsh_grace_millis = sh_grace_millis x\<rparr>"

definition shutdown_accepted_from_wire :: "wire_shutdown_accepted \<Rightarrow> shutdown_accepted" where
  "shutdown_accepted_from_wire x =
     \<lparr>sh_grace_millis = wsh_grace_millis x\<rparr>"

definition capture_staged_to_wire :: "capture_staged \<Rightarrow> wire_capture_staged" where
  "capture_staged_to_wire x =
     \<lparr>wcg_n = cg_n x, wcg_capture_id = cg_capture_id x, wcg_kind = capture_kind_to_i32 (cg_kind x),
      wcg_unchanged = cg_unchanged x\<rparr>"

definition capture_staged_from_wire :: "wire_capture_staged \<Rightarrow> wire_error + capture_staged" where
  "capture_staged_from_wire x =
     and_then (capture_kind_of_i32 (wcg_kind x)) (\<lambda>kind'.
     Ok \<lparr>cg_n = wcg_n x, cg_capture_id = wcg_capture_id x, cg_kind = kind', cg_unchanged = wcg_unchanged x\<rparr>)"

definition capture_class_snaps_to_wire :: "capture_class_snaps \<Rightarrow> wire_capture_class_snaps" where
  "capture_class_snaps_to_wire x =
     \<lparr>wcn_class = capture_class_to_i32 (cn_class x), wcn_snaps_failed = cn_snaps_failed x,
      wcn_last_snap_error = cn_last_snap_error x,
      wcn_snap_failing_since_unix_ms = cn_snap_failing_since_unix_ms x\<rparr>"

definition capture_class_snaps_from_wire :: "wire_capture_class_snaps \<Rightarrow> wire_error + capture_class_snaps" where
  "capture_class_snaps_from_wire x =
     and_then (capture_class_of_i32 (wcn_class x)) (\<lambda>cls'.
     Ok \<lparr>cn_class = cls', cn_snaps_failed = wcn_snaps_failed x, cn_last_snap_error = wcn_last_snap_error x,
          cn_snap_failing_since_unix_ms = wcn_snap_failing_since_unix_ms x\<rparr>)"

definition capture_overdue_to_wire :: "capture_overdue \<Rightarrow> wire_capture_overdue" where
  "capture_overdue_to_wire x =
     \<lparr>wco_step = co_step x, wco_started_unix_ms = co_started_unix_ms x, wco_running_ms = co_running_ms x,
      wco_bound_ms = co_bound_ms x\<rparr>"

definition capture_overdue_from_wire :: "wire_capture_overdue \<Rightarrow> capture_overdue" where
  "capture_overdue_from_wire x =
     \<lparr>co_step = wco_step x, co_started_unix_ms = wco_started_unix_ms x, co_running_ms = wco_running_ms x,
      co_bound_ms = wco_bound_ms x\<rparr>"

definition capture_status_report_to_wire :: "capture_status_report \<Rightarrow> wire_capture_status_report" where
  "capture_status_report_to_wire x =
     \<lparr>wcs_epoch = cs_epoch x, wcs_worktree_id = cs_worktree_id x, wcs_head_n = cs_head_n x,
      wcs_pending = cs_pending x, wcs_staged_bytes = cs_staged_bytes x,
      wcs_uploaded_objects = cs_uploaded_objects x, wcs_uploaded_bytes = cs_uploaded_bytes x,
      wcs_registered = cs_registered x, wcs_fenced = cs_fenced x, wcs_paused = cs_paused x,
      wcs_last_snap_unix_ms = cs_last_snap_unix_ms x, wcs_refused = map capture_class_to_i32 (cs_refused x),
      wcs_pending_bulk = cs_pending_bulk x, wcs_pending_bytes = cs_pending_bytes x,
      wcs_complete = cs_complete x, wcs_incomplete_reason = cs_incomplete_reason x,
      wcs_unreadable = cs_unreadable x, wcs_carried = cs_carried x,
      wcs_unreadable_paths = cs_unreadable_paths x, wcs_register_refused = cs_register_refused x,
      wcs_register_refused_n = cs_register_refused_n x, wcs_register_missing = cs_register_missing x,
      wcs_register_refusals = cs_register_refusals x, wcs_repairing = cs_repairing x,
      wcs_bulk_building = cs_bulk_building x, wcs_snaps = map capture_class_snaps_to_wire (cs_snaps x),
      wcs_launch = cs_launch x, wcs_boot_id = cs_boot_id x, wcs_boot_generation = cs_boot_generation x,
      wcs_observation = cs_observation x, wcs_overdue = map_option capture_overdue_to_wire (cs_overdue x),
      wcs_owner_map = cs_owner_map x\<rparr>"

definition capture_status_report_from_wire :: "wire_capture_status_report \<Rightarrow> wire_error + capture_status_report" where
  "capture_status_report_from_wire x =
     and_then (try_map capture_class_of_i32 (wcs_refused x)) (\<lambda>refused'.
     and_then (try_map capture_class_snaps_from_wire (wcs_snaps x)) (\<lambda>snaps'.
     Ok \<lparr>cs_epoch = wcs_epoch x, cs_worktree_id = wcs_worktree_id x, cs_head_n = wcs_head_n x,
          cs_pending = wcs_pending x, cs_staged_bytes = wcs_staged_bytes x,
          cs_uploaded_objects = wcs_uploaded_objects x, cs_uploaded_bytes = wcs_uploaded_bytes x,
          cs_registered = wcs_registered x, cs_fenced = wcs_fenced x, cs_paused = wcs_paused x,
          cs_last_snap_unix_ms = wcs_last_snap_unix_ms x, cs_refused = refused',
          cs_pending_bulk = wcs_pending_bulk x, cs_pending_bytes = wcs_pending_bytes x,
          cs_complete = wcs_complete x, cs_incomplete_reason = wcs_incomplete_reason x,
          cs_unreadable = wcs_unreadable x, cs_carried = wcs_carried x,
          cs_unreadable_paths = wcs_unreadable_paths x, cs_register_refused = wcs_register_refused x,
          cs_register_refused_n = wcs_register_refused_n x, cs_register_missing = wcs_register_missing x,
          cs_register_refusals = wcs_register_refusals x, cs_repairing = wcs_repairing x,
          cs_bulk_building = wcs_bulk_building x, cs_snaps = snaps', cs_launch = wcs_launch x,
          cs_boot_id = wcs_boot_id x, cs_boot_generation = wcs_boot_generation x,
          cs_observation = wcs_observation x,
          cs_overdue = map_option capture_overdue_from_wire (wcs_overdue x), cs_owner_map = wcs_owner_map x\<rparr>))"

definition lease_epoch_report_to_wire :: "lease_epoch_report \<Rightarrow> wire_lease_epoch_report" where
  "lease_epoch_report_to_wire x =
     \<lparr>wle_epoch = le_epoch x, wle_worktree_id = le_worktree_id x, wle_fenced = le_fenced x\<rparr>"

definition lease_epoch_report_from_wire :: "wire_lease_epoch_report \<Rightarrow> lease_epoch_report" where
  "lease_epoch_report_from_wire x =
     \<lparr>le_epoch = wle_epoch x, le_worktree_id = wle_worktree_id x, le_fenced = wle_fenced x\<rparr>"

definition capture_replanned_to_wire :: "capture_replanned \<Rightarrow> wire_capture_replanned" where
  "capture_replanned_to_wire x =
     \<lparr>wcr_worktree_id = cr_worktree_id x, wcr_epoch = cr_epoch x, wcr_head_n = cr_head_n x,
      wcr_head_capture_id = cr_head_capture_id x, wcr_files_written = cr_files_written x,
      wcr_bytes_written = cr_bytes_written x, wcr_files_skipped = cr_files_skipped x,
      wcr_bytes_skipped = cr_bytes_skipped x, wcr_removed = cr_removed x, wcr_unchanged = cr_unchanged x\<rparr>"

definition capture_replanned_from_wire :: "wire_capture_replanned \<Rightarrow> capture_replanned" where
  "capture_replanned_from_wire x =
     \<lparr>cr_worktree_id = wcr_worktree_id x, cr_epoch = wcr_epoch x, cr_head_n = wcr_head_n x,
      cr_head_capture_id = wcr_head_capture_id x, cr_files_written = wcr_files_written x,
      cr_bytes_written = wcr_bytes_written x, cr_files_skipped = wcr_files_skipped x,
      cr_bytes_skipped = wcr_bytes_skipped x, cr_removed = wcr_removed x, cr_unchanged = wcr_unchanged x\<rparr>"

definition stream_attached_to_wire :: "stream_attached \<Rightarrow> wire_stream_attached" where
  "stream_attached_to_wire x =
     \<lparr>wsa_channel_id = sa_channel_id x\<rparr>"

definition stream_attached_from_wire :: "wire_stream_attached \<Rightarrow> stream_attached" where
  "stream_attached_from_wire x =
     \<lparr>sa_channel_id = wsa_channel_id x\<rparr>"

definition process_attached_to_wire :: "process_attached \<Rightarrow> wire_process_attached" where
  "process_attached_to_wire x =
     \<lparr>wpa_process_id = pa_process_id x, wpa_pid = pa_pid x, wpa_pgid = pa_pgid x,
      wpa_channel_id = pa_channel_id x\<rparr>"

definition process_attached_from_wire :: "wire_process_attached \<Rightarrow> process_attached" where
  "process_attached_from_wire x =
     \<lparr>pa_process_id = wpa_process_id x, pa_pid = wpa_pid x, pa_pgid = wpa_pgid x,
      pa_channel_id = wpa_channel_id x\<rparr>"

definition forward_opened_to_wire :: "forward_opened \<Rightarrow> wire_forward_opened" where
  "forward_opened_to_wire x =
     \<lparr>wfo_channel_id = fo_channel_id x, wfo_bound_session_id = fo_bound_session_id x\<rparr>"

definition forward_opened_from_wire :: "wire_forward_opened \<Rightarrow> forward_opened" where
  "forward_opened_from_wire x =
     \<lparr>fo_channel_id = wfo_channel_id x, fo_bound_session_id = wfo_bound_session_id x\<rparr>"

definition sftp_opened_to_wire :: "sftp_opened \<Rightarrow> wire_sftp_opened" where
  "sftp_opened_to_wire x =
     \<lparr>wsfo_channel_id = sfo_channel_id x\<rparr>"

definition sftp_opened_from_wire :: "wire_sftp_opened \<Rightarrow> sftp_opened" where
  "sftp_opened_from_wire x =
     \<lparr>sfo_channel_id = wsfo_channel_id x\<rparr>"

definition dotfiles_applied_to_wire :: "dotfiles_applied \<Rightarrow> wire_dotfiles_applied" where
  "dotfiles_applied_to_wire x =
     \<lparr>wdd_user = dd_user x, wdd_home = dd_home x,
      wdd_bootstrap = map_option exec_accepted_to_wire (dd_bootstrap x)\<rparr>"

definition dotfiles_applied_from_wire :: "wire_dotfiles_applied \<Rightarrow> dotfiles_applied" where
  "dotfiles_applied_from_wire x =
     \<lparr>dd_user = wdd_user x, dd_home = wdd_home x,
      dd_bootstrap = map_option exec_accepted_from_wire (wdd_bootstrap x)\<rparr>"

section \<open>Events\<close>

fun event_payload_to_wire :: "event_payload \<Rightarrow> wire_event_payload" where
  "event_payload_to_wire (RuntimeStateChanged x) = WRuntimeStateChanged (runtime_state_changed_to_wire x)"
| "event_payload_to_wire (RuntimeHeartbeat x) = WRuntimeHeartbeat (runtime_heartbeat_to_wire x)"
| "event_payload_to_wire (ProcessStarted x) = WProcessStarted (process_started_to_wire x)"
| "event_payload_to_wire (ProcessExited x) = WProcessExited (process_exited_to_wire x)"
| "event_payload_to_wire (IoChunk x) = WIoChunk (io_chunk_to_wire x)"
| "event_payload_to_wire (TelemetryDropped x) = WTelemetryDropped (telemetry_dropped_to_wire x)"
| "event_payload_to_wire (FileChange x) = WFileChange (file_change_to_wire x)"
| "event_payload_to_wire (FileWatchOverflow x) = WFileWatchOverflow (file_watch_overflow_to_wire x)"
| "event_payload_to_wire (FileSnapshotCompleted x) = WFileSnapshotCompleted (file_snapshot_completed_to_wire x)"
| "event_payload_to_wire (FileDiffAvailable x) = WFileDiffAvailable (file_diff_available_to_wire x)"
| "event_payload_to_wire (NetworkRequest x) = WNetworkRequest (network_request_to_wire x)"
| "event_payload_to_wire (NetworkSourceObserved x) = WNetworkSourceObserved (network_source_observed_to_wire x)"

fun event_payload_from_wire :: "wire_event_payload \<Rightarrow> wire_error + event_payload" where
  "event_payload_from_wire (WRuntimeStateChanged x) = and_then (runtime_state_changed_from_wire x) (\<lambda>y. Ok (RuntimeStateChanged y))"
| "event_payload_from_wire (WRuntimeHeartbeat x) = and_then (runtime_heartbeat_from_wire x) (\<lambda>y. Ok (RuntimeHeartbeat y))"
| "event_payload_from_wire (WProcessStarted x) = Ok (ProcessStarted (process_started_from_wire x))"
| "event_payload_from_wire (WProcessExited x) = and_then (process_exited_from_wire x) (\<lambda>y. Ok (ProcessExited y))"
| "event_payload_from_wire (WIoChunk x) = and_then (io_chunk_from_wire x) (\<lambda>y. Ok (IoChunk y))"
| "event_payload_from_wire (WTelemetryDropped x) = and_then (telemetry_dropped_from_wire x) (\<lambda>y. Ok (TelemetryDropped y))"
| "event_payload_from_wire (WFileChange x) = and_then (file_change_from_wire x) (\<lambda>y. Ok (FileChange y))"
| "event_payload_from_wire (WFileWatchOverflow x) = Ok (FileWatchOverflow (file_watch_overflow_from_wire x))"
| "event_payload_from_wire (WFileSnapshotCompleted x) = Ok (FileSnapshotCompleted (file_snapshot_completed_from_wire x))"
| "event_payload_from_wire (WFileDiffAvailable x) = Ok (FileDiffAvailable (file_diff_available_from_wire x))"
| "event_payload_from_wire (WNetworkRequest x) = and_then (network_request_from_wire x) (\<lambda>y. Ok (NetworkRequest y))"
| "event_payload_from_wire (WNetworkSourceObserved x) = and_then (network_source_observed_from_wire x) (\<lambda>y. Ok (NetworkSourceObserved y))"

definition event_envelope_to_wire :: "event_envelope \<Rightarrow> wire_event_envelope" where
  "event_envelope_to_wire e =
     \<lparr>wev_schema_version = ev_schema_version e, wev_event_id = ev_event_id e,
      wev_runtime_id = ev_runtime_id e, wev_execution_id = ev_execution_id e,
      wev_session_id = ev_session_id e, wev_process_id = ev_process_id e, wev_request_id = ev_request_id e,
      wev_sequence = ev_sequence e, wev_observed_at = ev_observed_at e,
      wev_monotonic_timestamp = ev_monotonic_timestamp e,
      wev_capture_method = capture_method_to_i32 (ev_capture_method e),
      wev_confidence = confidence_to_i32 (ev_confidence e),
      wev_payload = Some (event_payload_to_wire (ev_payload e))\<rparr>"

definition event_envelope_from_wire :: "wire_event_envelope \<Rightarrow> wire_error + event_envelope" where
  "event_envelope_from_wire e =
     and_then (capture_method_of_i32 (wev_capture_method e)) (\<lambda>method'.
     and_then (confidence_of_i32 (wev_confidence e)) (\<lambda>conf'.
     and_then (and_then (ok_or (wev_payload e) (MissingOneof ''EventEnvelope.payload'')) event_payload_from_wire) (\<lambda>payload'.
     Ok \<lparr>ev_schema_version = wev_schema_version e, ev_event_id = wev_event_id e,
          ev_runtime_id = wev_runtime_id e, ev_execution_id = wev_execution_id e,
          ev_session_id = wev_session_id e, ev_process_id = wev_process_id e,
          ev_request_id = wev_request_id e, ev_sequence = wev_sequence e, ev_observed_at = wev_observed_at e,
          ev_monotonic_timestamp = wev_monotonic_timestamp e, ev_capture_method = method',
          ev_confidence = conf', ev_payload = payload'\<rparr>)))"

section \<open>Commands and results\<close>

fun command_to_wire :: "'j json_lib \<Rightarrow> 'j command \<Rightarrow> wire_command" where
  "command_to_wire js CmdRuntimeHealth = WCmdRuntimeHealth"
| "command_to_wire js CmdRuntimeGetCapabilities = WCmdRuntimeGetCapabilities"
| "command_to_wire js (CmdRuntimeGracefulShutdown x0) = WCmdRuntimeGracefulShutdown x0"
| "command_to_wire js CmdRuntimeKill = WCmdRuntimeKill"
| "command_to_wire js (CmdExecutionStart a) = WCmdExecutionStart (execution_start_args_to_wire js a)"
| "command_to_wire js (CmdExecutionStop x0) = WCmdExecutionStop x0"
| "command_to_wire js (CmdExec a) = WCmdExec (exec_args_to_wire a)"
| "command_to_wire js (CmdSignalProcess x0 x1) = WCmdSignalProcess x0 (signal_to_i32 x1)"
| "command_to_wire js (CmdKillProcess x0) = WCmdKillProcess x0"
| "command_to_wire js (CmdListProcesses x0) = WCmdListProcesses x0"
| "command_to_wire js (CmdWriteStdin a) = WCmdWriteStdin (write_stdin_args_to_wire a)"
| "command_to_wire js (CmdCloseStdin x0) = WCmdCloseStdin x0"
| "command_to_wire js (CmdOpenSession a) = WCmdOpenSession (open_session_args_to_wire a)"
| "command_to_wire js (CmdCloseSession x0) = WCmdCloseSession x0"
| "command_to_wire js (CmdResizePty x0 x1 x2) = WCmdResizePty x0 (ucast x1) (ucast x2)"
| "command_to_wire js CmdListSessions = WCmdListSessions"
| "command_to_wire js (CmdSetFeatureState x0 x1) = WCmdSetFeatureState (feature_to_i32 x0) x1"
| "command_to_wire js (CmdBindMount x0 x1) = WCmdBindMount x0 x1"
| "command_to_wire js CmdGetRuntimeMetrics = WCmdGetRuntimeMetrics"
| "command_to_wire js (CmdAttachSession a) = WCmdAttachSession (attach_session_args_to_wire a)"
| "command_to_wire js (CmdDetachSession x0) = WCmdDetachSession x0"
| "command_to_wire js (CmdOpenForward a) = WCmdOpenForward (open_forward_args_to_wire a)"
| "command_to_wire js (CmdCloseForward x0) = WCmdCloseForward x0"
| "command_to_wire js (CmdOpenSftp a) = WCmdOpenSftp (open_sftp_args_to_wire a)"
| "command_to_wire js (CmdCloseSftp x0) = WCmdCloseSftp x0"
| "command_to_wire js (CmdSignalSession x0 x1) = WCmdSignalSession x0 (signal_to_i32 x1)"
| "command_to_wire js (CmdReadSessionOutput a) = WCmdReadSessionOutput (read_session_output_args_to_wire a)"
| "command_to_wire js (CmdCaptureNow x0) = WCmdCaptureNow (capture_kind_to_i32 x0)"
| "command_to_wire js (CmdCaptureFlush x0 x1 x2) = WCmdCaptureFlush (capture_flush_kind_to_i32 x0) x1 x2"
| "command_to_wire js CmdCaptureStatus = WCmdCaptureStatus"
| "command_to_wire js CmdLeaseEpoch = WCmdLeaseEpoch"
| "command_to_wire js CmdCaptureReplan = WCmdCaptureReplan"
| "command_to_wire js (CmdDotfilesApply a) = WCmdDotfilesApply (dotfiles_apply_args_to_wire a)"

fun command_from_wire :: "'j json_lib \<Rightarrow> wire_command \<Rightarrow> wire_error + 'j command" where
  "command_from_wire js WCmdRuntimeHealth = Ok CmdRuntimeHealth"
| "command_from_wire js WCmdRuntimeGetCapabilities = Ok CmdRuntimeGetCapabilities"
| "command_from_wire js (WCmdRuntimeGracefulShutdown x0) = Ok (CmdRuntimeGracefulShutdown x0)"
| "command_from_wire js WCmdRuntimeKill = Ok CmdRuntimeKill"
| "command_from_wire js (WCmdExecutionStart a) = Ok (CmdExecutionStart (execution_start_args_from_wire js a))"
| "command_from_wire js (WCmdExecutionStop x0) = Ok (CmdExecutionStop x0)"
| "command_from_wire js (WCmdExec a) = and_then (exec_args_from_wire a) (\<lambda>b. Ok (CmdExec b))"
| "command_from_wire js (WCmdSignalProcess x0 x1) = and_then (signal_of_i32 x1) (\<lambda>y1. Ok (CmdSignalProcess x0 y1))"
| "command_from_wire js (WCmdKillProcess x0) = Ok (CmdKillProcess x0)"
| "command_from_wire js (WCmdListProcesses x0) = Ok (CmdListProcesses x0)"
| "command_from_wire js (WCmdWriteStdin a) = Ok (CmdWriteStdin (write_stdin_args_from_wire a))"
| "command_from_wire js (WCmdCloseStdin x0) = Ok (CmdCloseStdin x0)"
| "command_from_wire js (WCmdOpenSession a) = and_then (open_session_args_from_wire a) (\<lambda>b. Ok (CmdOpenSession b))"
| "command_from_wire js (WCmdCloseSession x0) = Ok (CmdCloseSession x0)"
| "command_from_wire js (WCmdResizePty x0 x1 x2) = Ok (CmdResizePty x0 (ucast x1) (ucast x2))"
| "command_from_wire js WCmdListSessions = Ok CmdListSessions"
| "command_from_wire js (WCmdSetFeatureState x0 x1) = and_then (feature_of_i32 x0) (\<lambda>y0. Ok (CmdSetFeatureState y0 x1))"
| "command_from_wire js (WCmdBindMount x0 x1) = Ok (CmdBindMount x0 x1)"
| "command_from_wire js WCmdGetRuntimeMetrics = Ok CmdGetRuntimeMetrics"
| "command_from_wire js (WCmdAttachSession a) = and_then (attach_session_args_from_wire a) (\<lambda>b. Ok (CmdAttachSession b))"
| "command_from_wire js (WCmdDetachSession x0) = Ok (CmdDetachSession x0)"
| "command_from_wire js (WCmdOpenForward a) = Ok (CmdOpenForward (open_forward_args_from_wire a))"
| "command_from_wire js (WCmdCloseForward x0) = Ok (CmdCloseForward x0)"
| "command_from_wire js (WCmdOpenSftp a) = Ok (CmdOpenSftp (open_sftp_args_from_wire a))"
| "command_from_wire js (WCmdCloseSftp x0) = Ok (CmdCloseSftp x0)"
| "command_from_wire js (WCmdSignalSession x0 x1) = and_then (signal_of_i32 x1) (\<lambda>y1. Ok (CmdSignalSession x0 y1))"
| "command_from_wire js (WCmdReadSessionOutput a) = Ok (CmdReadSessionOutput (read_session_output_args_from_wire a))"
| "command_from_wire js (WCmdCaptureNow x0) = and_then (capture_kind_of_i32 x0) (\<lambda>y0. Ok (CmdCaptureNow y0))"
| "command_from_wire js (WCmdCaptureFlush x0 x1 x2) = and_then (capture_flush_kind_of_i32 x0) (\<lambda>y0. Ok (CmdCaptureFlush y0 x1 x2))"
| "command_from_wire js WCmdCaptureStatus = Ok CmdCaptureStatus"
| "command_from_wire js WCmdLeaseEpoch = Ok CmdLeaseEpoch"
| "command_from_wire js WCmdCaptureReplan = Ok CmdCaptureReplan"
| "command_from_wire js (WCmdDotfilesApply a) = Ok (CmdDotfilesApply (dotfiles_apply_args_from_wire a))"

fun command_result_to_wire :: "command_result \<Rightarrow> wire_command_result" where
  "command_result_to_wire (ResHealth x) = WResHealth (health_report_to_wire x)"
| "command_result_to_wire (ResCapabilities x) = WResCapabilities (capabilities_to_wire x)"
| "command_result_to_wire (ResExecAccepted x) = WResExecAccepted (exec_accepted_to_wire x)"
| "command_result_to_wire (ResSessionOpened x) = WResSessionOpened (session_opened_to_wire x)"
| "command_result_to_wire (ResProcessList x) = WResProcessList (process_list_to_wire x)"
| "command_result_to_wire (ResSessionList x) = WResSessionList (session_list_to_wire x)"
| "command_result_to_wire (ResMetrics x) = WResMetrics (runtime_metrics_to_wire x)"
| "command_result_to_wire (ResShutdownAccepted x) = WResShutdownAccepted (shutdown_accepted_to_wire x)"
| "command_result_to_wire (ResStreamAttached x) = WResStreamAttached (stream_attached_to_wire x)"
| "command_result_to_wire (ResProcessAttached x) = WResProcessAttached (process_attached_to_wire x)"
| "command_result_to_wire (ResForwardOpened x) = WResForwardOpened (forward_opened_to_wire x)"
| "command_result_to_wire (ResSftpOpened x) = WResSftpOpened (sftp_opened_to_wire x)"
| "command_result_to_wire (ResSessionOutput x) = WResSessionOutput (session_output_to_wire x)"
| "command_result_to_wire (ResCaptureStaged x) = WResCaptureStaged (capture_staged_to_wire x)"
| "command_result_to_wire (ResCaptureStatus x) = WResCaptureStatus (capture_status_report_to_wire x)"
| "command_result_to_wire (ResLeaseEpoch x) = WResLeaseEpoch (lease_epoch_report_to_wire x)"
| "command_result_to_wire (ResCaptureReplanned x) = WResCaptureReplanned (capture_replanned_to_wire x)"
| "command_result_to_wire (ResDotfilesApplied x) = WResDotfilesApplied (dotfiles_applied_to_wire x)"
| "command_result_to_wire ResAccepted = WResAccepted"

fun command_result_from_wire :: "wire_command_result \<Rightarrow> wire_error + command_result" where
  "command_result_from_wire (WResHealth x) = and_then (health_report_from_wire x) (\<lambda>y. Ok (ResHealth y))"
| "command_result_from_wire (WResCapabilities x) = and_then (capabilities_from_wire x) (\<lambda>y. Ok (ResCapabilities y))"
| "command_result_from_wire (WResExecAccepted x) = Ok (ResExecAccepted (exec_accepted_from_wire x))"
| "command_result_from_wire (WResSessionOpened x) = Ok (ResSessionOpened (session_opened_from_wire x))"
| "command_result_from_wire (WResProcessList x) = and_then (process_list_from_wire x) (\<lambda>y. Ok (ResProcessList y))"
| "command_result_from_wire (WResSessionList x) = and_then (session_list_from_wire x) (\<lambda>y. Ok (ResSessionList y))"
| "command_result_from_wire (WResMetrics x) = Ok (ResMetrics (runtime_metrics_from_wire x))"
| "command_result_from_wire (WResShutdownAccepted x) = Ok (ResShutdownAccepted (shutdown_accepted_from_wire x))"
| "command_result_from_wire (WResStreamAttached x) = Ok (ResStreamAttached (stream_attached_from_wire x))"
| "command_result_from_wire (WResProcessAttached x) = Ok (ResProcessAttached (process_attached_from_wire x))"
| "command_result_from_wire (WResForwardOpened x) = Ok (ResForwardOpened (forward_opened_from_wire x))"
| "command_result_from_wire (WResSftpOpened x) = Ok (ResSftpOpened (sftp_opened_from_wire x))"
| "command_result_from_wire (WResSessionOutput x) = and_then (session_output_from_wire x) (\<lambda>y. Ok (ResSessionOutput y))"
| "command_result_from_wire (WResCaptureStaged x) = and_then (capture_staged_from_wire x) (\<lambda>y. Ok (ResCaptureStaged y))"
| "command_result_from_wire (WResCaptureStatus x) = and_then (capture_status_report_from_wire x) (\<lambda>y. Ok (ResCaptureStatus y))"
| "command_result_from_wire (WResLeaseEpoch x) = Ok (ResLeaseEpoch (lease_epoch_report_from_wire x))"
| "command_result_from_wire (WResCaptureReplanned x) = Ok (ResCaptureReplanned (capture_replanned_from_wire x))"
| "command_result_from_wire (WResDotfilesApplied x) = Ok (ResDotfilesApplied (dotfiles_applied_from_wire x))"
| "command_result_from_wire WResAccepted = Ok ResAccepted"

section \<open>Messages\<close>

definition control_error_to_wire :: "'j json_lib \<Rightarrow> 'j control_error \<Rightarrow> wire_control_error" where
  "control_error_to_wire js e =
     \<lparr>wce_code = control_error_code_to_i32 (ce_code e), wce_message = ce_message e,
      wce_detail_json = map_option (js_to_string js) (ce_detail e)\<rparr>"

definition control_error_from_wire :: "'j json_lib \<Rightarrow> wire_control_error \<Rightarrow> wire_error + 'j control_error" where
  "control_error_from_wire js e =
     and_then (control_error_code_of_i32 (wce_code e)) (\<lambda>code'.
     Ok \<lparr>ce_code = code', ce_message = wce_message e, ce_detail = Option.bind (wce_detail_json e) (js_from_str js)\<rparr>)"

definition control_request_to_wire :: "'j json_lib \<Rightarrow> 'j control_request \<Rightarrow> wire_control_request" where
  "control_request_to_wire js r =
     \<lparr>wrq_schema_version = rq_schema_version r, wrq_request_id = rq_request_id r,
      wrq_command = Some (Some (command_to_wire js (rq_command r)))\<rparr>"

definition control_request_from_wire :: "'j json_lib \<Rightarrow> wire_control_request \<Rightarrow> wire_error + 'j control_request" where
  "control_request_from_wire js r =
     and_then (ok_or (Option.bind (wrq_command r) (\<lambda>c. c)) (MissingOneof ''ControlRequest.command'')) (\<lambda>c.
     and_then (command_from_wire js c) (\<lambda>command'.
     Ok \<lparr>rq_schema_version = wrq_schema_version r, rq_request_id = wrq_request_id r, rq_command = command'\<rparr>))"

text \<open>The message \<open>ResponseOutcome\<close> is its \<open>oneof\<close>, an option.\<close>

definition outcome_to_wire :: "'j json_lib \<Rightarrow> 'j response_outcome \<Rightarrow> wire_outcome option" where
  "outcome_to_wire js oc =
     Some (case oc of
             OutcomeOk result \<Rightarrow> WOutcomeOk (map_option command_result_to_wire result)
           | OutcomeError e \<Rightarrow> WOutcomeError (control_error_to_wire js e))"

definition outcome_from_wire :: "'j json_lib \<Rightarrow> wire_outcome option \<Rightarrow> wire_error + 'j response_outcome" where
  "outcome_from_wire js oc =
     and_then (ok_or oc (MissingOneof ''ResponseOutcome.outcome'')) (\<lambda>w.
     case w of
       WOutcomeOk cr \<Rightarrow> and_then (try_option command_result_from_wire cr) (\<lambda>result. Ok (OutcomeOk result))
     | WOutcomeError e \<Rightarrow> and_then (control_error_from_wire js e) (\<lambda>e'. Ok (OutcomeError e')))"

definition control_response_to_wire :: "'j json_lib \<Rightarrow> 'j control_response \<Rightarrow> wire_control_response" where
  "control_response_to_wire js r =
     \<lparr>wrs_schema_version = rs_schema_version r, wrs_request_id = rs_request_id r,
      wrs_outcome = Some (outcome_to_wire js (rs_outcome r))\<rparr>"

definition control_response_from_wire :: "'j json_lib \<Rightarrow> wire_control_response \<Rightarrow> wire_error + 'j control_response" where
  "control_response_from_wire js r =
     and_then (and_then (ok_or (wrs_outcome r) (MissingField ''ControlResponse.outcome'')) (outcome_from_wire js)) (\<lambda>oc.
     Ok \<lparr>rs_schema_version = wrs_schema_version r, rs_request_id = wrs_request_id r, rs_outcome = oc\<rparr>)"

definition stream_frame_to_wire :: "stream_frame \<Rightarrow> wire_stream_frame" where
  "stream_frame_to_wire frame =
     (let payload = (case sf_payload frame of
             Data bs \<Rightarrow> WData bs
           | WindowUpdate credits \<Rightarrow> WWindowUpdate credits
           | End e \<Rightarrow> WEnd (se_exit_code e) (se_signal e) (se_error e))
      in \<lparr>wsf_channel_id = sf_channel_id frame, wsf_seq = sf_seq frame, wsf_payload = Some payload\<rparr>)"

definition stream_frame_from_wire :: "wire_stream_frame \<Rightarrow> wire_error + stream_frame" where
  "stream_frame_from_wire frame =
     and_then (ok_or (wsf_payload frame) (MissingOneof ''StreamFrame.payload'')) (\<lambda>w.
     let payload = (case w of
             WData bs \<Rightarrow> Data bs
           | WWindowUpdate credits \<Rightarrow> WindowUpdate credits
           | WEnd c s m \<Rightarrow> End \<lparr>se_exit_code = c, se_signal = s, se_error = m\<rparr>)
     in Ok \<lparr>sf_channel_id = wsf_channel_id frame, sf_seq = wsf_seq frame, sf_payload = payload\<rparr>)"

text \<open>\<open>ClientMessage\<close> and \<open>ServerMessage\<close> are their \<open>oneof\<close>, an option.\<close>

definition client_message_to_wire :: "'j json_lib \<Rightarrow> 'j client_message \<Rightarrow> wire_client_message option" where
  "client_message_to_wire js m =
     Some (case m of
             ClientRequest r \<Rightarrow> WClientRequest (control_request_to_wire js r)
           | ClientStream f \<Rightarrow> WClientStream (stream_frame_to_wire f))"

definition client_message_from_wire :: "'j json_lib \<Rightarrow> wire_client_message option \<Rightarrow> wire_error + 'j client_message" where
  "client_message_from_wire js m =
     and_then (ok_or m (MissingOneof ''ClientMessage.message'')) (\<lambda>w.
     case w of
       WClientRequest r \<Rightarrow> and_then (control_request_from_wire js r) (\<lambda>r'. Ok (ClientRequest r'))
     | WClientStream f \<Rightarrow> and_then (stream_frame_from_wire f) (\<lambda>f'. Ok (ClientStream f')))"

definition server_message_to_wire :: "'j json_lib \<Rightarrow> 'j server_message \<Rightarrow> wire_server_message option" where
  "server_message_to_wire js m =
     Some (case m of
             ServerResponse r \<Rightarrow> WServerResponse (control_response_to_wire js r)
           | ServerEvent e \<Rightarrow> WServerEvent (event_envelope_to_wire e)
           | ServerStream f \<Rightarrow> WServerStream (stream_frame_to_wire f))"

definition server_message_from_wire :: "'j json_lib \<Rightarrow> wire_server_message option \<Rightarrow> wire_error + 'j server_message" where
  "server_message_from_wire js m =
     and_then (ok_or m (MissingOneof ''ServerMessage.message'')) (\<lambda>w.
     case w of
       WServerResponse r \<Rightarrow> and_then (control_response_from_wire js r) (\<lambda>r'. Ok (ServerResponse r'))
     | WServerEvent e \<Rightarrow> and_then (event_envelope_from_wire e) (\<lambda>e'. Ok (ServerEvent e'))
     | WServerStream f \<Rightarrow> and_then (stream_frame_from_wire f) (\<lambda>f'. Ok (ServerStream f')))"

section \<open>Bytes\<close>

definition encode_client :: "'j json_lib \<Rightarrow> wire_client_message option pb_lib \<Rightarrow> 'j client_message \<Rightarrow> bytes" where
  "encode_client js pb m = pb_encode pb (client_message_to_wire js m)"

definition decode_client :: "'j json_lib \<Rightarrow> wire_client_message option pb_lib \<Rightarrow> bytes \<Rightarrow> wire_error + 'j client_message" where
  "decode_client js pb bs = and_then (pb_decode pb bs) (client_message_from_wire js)"

definition encode_server :: "'j json_lib \<Rightarrow> wire_server_message option pb_lib \<Rightarrow> 'j server_message \<Rightarrow> bytes" where
  "encode_server js pb m = pb_encode pb (server_message_to_wire js m)"

definition decode_server :: "'j json_lib \<Rightarrow> wire_server_message option pb_lib \<Rightarrow> bytes \<Rightarrow> wire_error + 'j server_message" where
  "decode_server js pb bs = and_then (pb_decode pb bs) (server_message_from_wire js)"

definition wire_encode_event :: "wire_event_envelope pb_lib \<Rightarrow> event_envelope \<Rightarrow> bytes" where
  "wire_encode_event pb e = pb_encode pb (event_envelope_to_wire e)"

definition wire_decode_event :: "wire_event_envelope pb_lib \<Rightarrow> bytes \<Rightarrow> wire_error + event_envelope" where
  "wire_decode_event pb bs = and_then (pb_decode pb bs) event_envelope_from_wire"


section \<open>Round trips\<close>

lemma runtime_state_i32 [wire_simps]: "runtime_state_of_i32 (runtime_state_to_i32 x) = Ok x"
  by (cases x) (simp_all add: enum_i32_def enum_of_i32_def runtime_state_pairs_def)

lemma process_state_i32 [wire_simps]: "process_state_of_i32 (process_state_to_i32 x) = Ok x"
  by (cases x) (simp_all add: enum_i32_def enum_of_i32_def process_state_pairs_def)

lemma exit_reason_i32 [wire_simps]: "exit_reason_of_i32 (exit_reason_to_i32 x) = Ok x"
  by (cases x) (simp_all add: enum_i32_def enum_of_i32_def exit_reason_pairs_def)

lemma stream_kind_i32 [wire_simps]: "stream_kind_of_i32 (stream_kind_to_i32 x) = Ok x"
  by (cases x) (simp_all add: enum_i32_def enum_of_i32_def stream_kind_pairs_def)

lemma capture_method_i32 [wire_simps]: "capture_method_of_i32 (capture_method_to_i32 x) = Ok x"
  by (cases x) (simp_all add: enum_i32_def enum_of_i32_def capture_method_pairs_def)

lemma confidence_i32 [wire_simps]: "confidence_of_i32 (confidence_to_i32 x) = Ok x"
  by (cases x) (simp_all add: enum_i32_def enum_of_i32_def confidence_pairs_def)

lemma event_priority_i32 [wire_simps]: "event_priority_of_i32 (event_priority_to_i32 x) = Ok x"
  by (cases x) (simp_all add: enum_i32_def enum_of_i32_def event_priority_pairs_def)

lemma capture_kind_i32 [wire_simps]: "capture_kind_of_i32 (capture_kind_to_i32 x) = Ok x"
  by (cases x) (simp_all add: enum_i32_def enum_of_i32_def capture_kind_pairs_def)

lemma capture_class_i32 [wire_simps]: "capture_class_of_i32 (capture_class_to_i32 x) = Ok x"
  by (cases x) (simp_all add: enum_i32_def enum_of_i32_def capture_class_pairs_def)

lemma feature_i32 [wire_simps]: "feature_of_i32 (feature_to_i32 x) = Ok x"
  by (cases x) (simp_all add: enum_i32_def enum_of_i32_def feature_pairs_def)

lemma signal_i32 [wire_simps]: "signal_of_i32 (signal_to_i32 x) = Ok x"
  by (cases x) (simp_all add: enum_i32_def enum_of_i32_def signal_pairs_def)

lemma attach_mode_i32 [wire_simps]: "attach_mode_of_i32 (attach_mode_to_i32 x) = Ok x"
  by (cases x) (simp_all add: enum_i32_def enum_of_i32_def attach_mode_pairs_def)

lemma session_state_i32 [wire_simps]: "session_state_of_i32 (session_state_to_i32 x) = Ok x"
  by (cases x) (simp_all add: enum_i32_def enum_of_i32_def session_state_pairs_def)

lemma session_mode_i32 [wire_simps]: "session_mode_of_i32 (session_mode_to_i32 x) = Ok x"
  by (cases x) (simp_all add: enum_i32_def enum_of_i32_def session_mode_pairs_def)

lemma capture_mode_i32 [wire_simps]: "capture_mode_of_i32 (capture_mode_to_i32 x) = Ok x"
  by (cases x) (simp_all add: enum_i32_def enum_of_i32_def capture_mode_pairs_def)

lemma network_mode_i32 [wire_simps]: "network_mode_of_i32 (network_mode_to_i32 x) = Ok x"
  by (cases x) (simp_all add: enum_i32_def enum_of_i32_def network_mode_pairs_def)

lemma control_error_code_i32 [wire_simps]: "control_error_code_of_i32 (control_error_code_to_i32 x) = Ok x"
  by (cases x) (simp_all add: enum_i32_def enum_of_i32_def control_error_code_pairs_def)

lemma file_change_kind_i32 [wire_simps]: "file_change_kind_of_i32 (file_change_kind_to_i32 x) = Ok x"
  by (cases x) (simp_all add: enum_i32_def enum_of_i32_def file_change_kind_pairs_def)

lemma file_type_i32 [wire_simps]: "file_type_of_i32 (file_type_to_i32 x) = Ok x"
  by (cases x) (simp_all add: enum_i32_def enum_of_i32_def file_type_pairs_def)

lemma network_scheme_i32 [wire_simps]: "network_scheme_of_i32 (network_scheme_to_i32 x) = Ok x"
  by (cases x) (simp_all add: enum_i32_def enum_of_i32_def network_scheme_pairs_def)

lemma default_i32 [wire_simps]:
  "capture_flush_kind_of_i32 (capture_flush_kind_to_i32 k) = Ok k"
  "session_mode_or_default (session_mode_to_i32 m) = Ok m"
  "forward_protocol_of_wire (forward_protocol_to_wire p) = p"
  by (cases k; cases m; cases p;
      simp add: capture_flush_kind_of_i32_def session_mode_or_default_def enum_i32_def enum_of_i32_def session_mode_pairs_def forward_protocol_of_wire_def)+

lemma u16_wire [wire_simps]: "ucast (ucast (p :: 16 word) :: u32) = p"
  by (simp add: ucast_up_ucast_id is_up_def source_size_def target_size_def word_size)

lemma env_var_roundtrip [wire_simps]: "env_var_from_wire (env_var_to_wire x) = x"
  by (cases x) (simp add: env_var_to_wire_def env_var_from_wire_def wire_simps del: map_map)

lemma capture_policy_roundtrip [wire_simps]: "capture_policy_from_wire (capture_policy_to_wire x) = Ok x"
  by (cases x) (simp add: capture_policy_to_wire_def capture_policy_from_wire_def wire_simps del: map_map)

lemma artifact_ref_roundtrip [wire_simps]: "artifact_ref_from_wire (artifact_ref_to_wire x) = x"
  by (cases x) (simp add: artifact_ref_to_wire_def artifact_ref_from_wire_def wire_simps del: map_map)

lemma transform_meta_roundtrip [wire_simps]: "transform_meta_from_wire (transform_meta_to_wire x) = x"
  by (cases x) (simp add: transform_meta_to_wire_def transform_meta_from_wire_def wire_simps del: map_map)

lemma limits_roundtrip [wire_simps]: "limits_from_wire (limits_to_wire x) = x"
  by (cases x) (simp add: limits_to_wire_def limits_from_wire_def wire_simps del: map_map)

lemma feature_matrix_roundtrip [wire_simps]: "feature_matrix_from_wire (feature_matrix_to_wire x) = Ok x"
  by (cases x) (simp add: feature_matrix_to_wire_def feature_matrix_from_wire_def wire_simps del: map_map)

lemma feature_state_roundtrip [wire_simps]: "feature_state_from_wire (feature_state_to_wire x) = Ok x"
  by (cases x) (simp add: feature_state_to_wire_def feature_state_from_wire_def wire_simps del: map_map)

lemma process_started_roundtrip [wire_simps]: "process_started_from_wire (process_started_to_wire x) = x"
  by (cases x) (simp add: process_started_to_wire_def process_started_from_wire_def wire_simps del: map_map)

lemma process_exited_roundtrip [wire_simps]: "process_exited_from_wire (process_exited_to_wire x) = Ok x"
  by (cases x) (simp add: process_exited_to_wire_def process_exited_from_wire_def wire_simps del: map_map)

lemma io_chunk_roundtrip [wire_simps]: "io_chunk_from_wire (io_chunk_to_wire x) = Ok x"
  by (cases x; cases "io_encoding x") (simp add: io_chunk_to_wire_def io_chunk_from_wire_def wire_simps del: map_map)

lemma telemetry_dropped_roundtrip [wire_simps]: "telemetry_dropped_from_wire (telemetry_dropped_to_wire x) = Ok x"
  by (cases x) (simp add: telemetry_dropped_to_wire_def telemetry_dropped_from_wire_def wire_simps del: map_map)

lemma file_entry_roundtrip [wire_simps]: "file_entry_from_wire (file_entry_to_wire x) = Ok x"
  by (cases x) (simp add: file_entry_to_wire_def file_entry_from_wire_def wire_simps del: map_map)

lemma file_change_roundtrip [wire_simps]: "file_change_from_wire (file_change_to_wire x) = Ok x"
  by (cases x) (simp add: file_change_to_wire_def file_change_from_wire_def wire_simps del: map_map)

lemma file_watch_overflow_roundtrip [wire_simps]: "file_watch_overflow_from_wire (file_watch_overflow_to_wire x) = x"
  by (cases x) (simp add: file_watch_overflow_to_wire_def file_watch_overflow_from_wire_def wire_simps del: map_map)

lemma file_snapshot_completed_roundtrip [wire_simps]: "file_snapshot_completed_from_wire (file_snapshot_completed_to_wire x) = x"
  by (cases x) (simp add: file_snapshot_completed_to_wire_def file_snapshot_completed_from_wire_def wire_simps del: map_map)

lemma file_diff_available_roundtrip [wire_simps]: "file_diff_available_from_wire (file_diff_available_to_wire x) = x"
  by (cases x) (simp add: file_diff_available_to_wire_def file_diff_available_from_wire_def wire_simps del: map_map)

lemma network_request_roundtrip [wire_simps]: "network_request_from_wire (network_request_to_wire x) = Ok x"
  by (cases x) (simp add: network_request_to_wire_def network_request_from_wire_def wire_simps del: map_map)

lemma network_source_observed_roundtrip [wire_simps]: "network_source_observed_from_wire (network_source_observed_to_wire x) = Ok x"
  by (cases x) (simp add: network_source_observed_to_wire_def network_source_observed_from_wire_def wire_simps del: map_map)

lemma runtime_state_changed_roundtrip [wire_simps]: "runtime_state_changed_from_wire (runtime_state_changed_to_wire x) = Ok x"
  by (cases x) (simp add: runtime_state_changed_to_wire_def runtime_state_changed_from_wire_def wire_simps del: map_map)

lemma runtime_heartbeat_roundtrip [wire_simps]: "runtime_heartbeat_from_wire (runtime_heartbeat_to_wire x) = Ok x"
  by (cases x) (simp add: runtime_heartbeat_to_wire_def runtime_heartbeat_from_wire_def wire_simps del: map_map)

lemma exec_args_roundtrip [wire_simps]: "exec_args_from_wire (exec_args_to_wire x) = Ok x"
  by (cases x) (simp add: exec_args_to_wire_def exec_args_from_wire_def wire_simps del: map_map)

lemma open_session_args_roundtrip [wire_simps]: "open_session_args_from_wire (open_session_args_to_wire x) = Ok x"
  by (cases x) (simp add: open_session_args_to_wire_def open_session_args_from_wire_def wire_simps del: map_map)

lemma attach_session_args_roundtrip [wire_simps]: "attach_session_args_from_wire (attach_session_args_to_wire x) = Ok x"
  by (cases x) (simp add: attach_session_args_to_wire_def attach_session_args_from_wire_def wire_simps del: map_map)

lemma read_session_output_args_roundtrip [wire_simps]: "read_session_output_args_from_wire (read_session_output_args_to_wire x) = x"
  by (cases x) (simp add: read_session_output_args_to_wire_def read_session_output_args_from_wire_def wire_simps del: map_map)

lemma open_forward_args_roundtrip [wire_simps]: "open_forward_args_from_wire (open_forward_args_to_wire x) = x"
  by (cases x) (simp add: open_forward_args_to_wire_def open_forward_args_from_wire_def wire_simps del: map_map)

lemma open_sftp_args_roundtrip [wire_simps]: "open_sftp_args_from_wire (open_sftp_args_to_wire x) = x"
  by (cases x) (simp add: open_sftp_args_to_wire_def open_sftp_args_from_wire_def wire_simps del: map_map)

lemma execution_start_args_roundtrip [wire_simps]:
  "(\<And>v. js_from_str js (js_to_string js v) = Some v) \<Longrightarrow> execution_start_args_from_wire js (execution_start_args_to_wire js x) = x"
  by (cases x; cases "xs_labels x") (simp_all add: execution_start_args_to_wire_def execution_start_args_from_wire_def wire_simps)

lemma write_stdin_args_roundtrip [wire_simps]: "write_stdin_args_from_wire (write_stdin_args_to_wire x) = x"
  by (cases x) (simp add: write_stdin_args_to_wire_def write_stdin_args_from_wire_def wire_simps del: map_map)

lemma dotfiles_repository_roundtrip [wire_simps]: "dotfiles_repository_from_wire (dotfiles_repository_to_wire x) = x"
  by (cases x) (simp add: dotfiles_repository_to_wire_def dotfiles_repository_from_wire_def wire_simps del: map_map)

lemma dotfiles_apply_args_roundtrip [wire_simps]: "dotfiles_apply_args_from_wire (dotfiles_apply_args_to_wire x) = x"
  by (cases x) (simp add: dotfiles_apply_args_to_wire_def dotfiles_apply_args_from_wire_def wire_simps del: map_map)

lemma capabilities_roundtrip [wire_simps]: "capabilities_from_wire (capabilities_to_wire x) = Ok x"
  by (cases x) (simp add: capabilities_to_wire_def capabilities_from_wire_def wire_simps del: map_map)

lemma health_report_roundtrip [wire_simps]: "health_report_from_wire (health_report_to_wire x) = Ok x"
  by (cases x) (simp add: health_report_to_wire_def health_report_from_wire_def wire_simps del: map_map)

lemma process_summary_roundtrip [wire_simps]: "process_summary_from_wire (process_summary_to_wire x) = Ok x"
  by (cases x) (simp add: process_summary_to_wire_def process_summary_from_wire_def wire_simps del: map_map)

lemma session_summary_roundtrip [wire_simps]: "session_summary_from_wire (session_summary_to_wire x) = Ok x"
  by (cases x) (simp add: session_summary_to_wire_def session_summary_from_wire_def wire_simps del: map_map)

lemma session_output_chunk_roundtrip [wire_simps]: "session_output_chunk_from_wire (session_output_chunk_to_wire x) = x"
  by (cases x) (simp add: session_output_chunk_to_wire_def session_output_chunk_from_wire_def wire_simps del: map_map)

lemma session_output_roundtrip [wire_simps]: "session_output_from_wire (session_output_to_wire x) = Ok x"
  by (cases x) (simp add: session_output_to_wire_def session_output_from_wire_def wire_simps del: map_map)

lemma exec_accepted_roundtrip [wire_simps]: "exec_accepted_from_wire (exec_accepted_to_wire x) = x"
  by (cases x) (simp add: exec_accepted_to_wire_def exec_accepted_from_wire_def wire_simps del: map_map)

lemma session_opened_roundtrip [wire_simps]: "session_opened_from_wire (session_opened_to_wire x) = x"
  by (cases x) (simp add: session_opened_to_wire_def session_opened_from_wire_def wire_simps del: map_map)

lemma process_list_roundtrip [wire_simps]: "process_list_from_wire (process_list_to_wire x) = Ok x"
  by (cases x) (simp add: process_list_to_wire_def process_list_from_wire_def wire_simps del: map_map)

lemma session_list_roundtrip [wire_simps]: "session_list_from_wire (session_list_to_wire x) = Ok x"
  by (cases x) (simp add: session_list_to_wire_def session_list_from_wire_def wire_simps del: map_map)

lemma runtime_metrics_roundtrip [wire_simps]: "runtime_metrics_from_wire (runtime_metrics_to_wire x) = x"
  by (cases x) (simp add: runtime_metrics_to_wire_def runtime_metrics_from_wire_def wire_simps del: map_map)

lemma shutdown_accepted_roundtrip [wire_simps]: "shutdown_accepted_from_wire (shutdown_accepted_to_wire x) = x"
  by (cases x) (simp add: shutdown_accepted_to_wire_def shutdown_accepted_from_wire_def wire_simps del: map_map)

lemma capture_staged_roundtrip [wire_simps]: "capture_staged_from_wire (capture_staged_to_wire x) = Ok x"
  by (cases x) (simp add: capture_staged_to_wire_def capture_staged_from_wire_def wire_simps del: map_map)

lemma capture_class_snaps_roundtrip [wire_simps]: "capture_class_snaps_from_wire (capture_class_snaps_to_wire x) = Ok x"
  by (cases x) (simp add: capture_class_snaps_to_wire_def capture_class_snaps_from_wire_def wire_simps del: map_map)

lemma capture_overdue_roundtrip [wire_simps]: "capture_overdue_from_wire (capture_overdue_to_wire x) = x"
  by (cases x) (simp add: capture_overdue_to_wire_def capture_overdue_from_wire_def wire_simps del: map_map)

lemma capture_status_report_roundtrip [wire_simps]: "capture_status_report_from_wire (capture_status_report_to_wire x) = Ok x"
  by (cases x) (simp add: capture_status_report_to_wire_def capture_status_report_from_wire_def wire_simps del: map_map)

lemma lease_epoch_report_roundtrip [wire_simps]: "lease_epoch_report_from_wire (lease_epoch_report_to_wire x) = x"
  by (cases x) (simp add: lease_epoch_report_to_wire_def lease_epoch_report_from_wire_def wire_simps del: map_map)

lemma capture_replanned_roundtrip [wire_simps]: "capture_replanned_from_wire (capture_replanned_to_wire x) = x"
  by (cases x) (simp add: capture_replanned_to_wire_def capture_replanned_from_wire_def wire_simps del: map_map)

lemma stream_attached_roundtrip [wire_simps]: "stream_attached_from_wire (stream_attached_to_wire x) = x"
  by (cases x) (simp add: stream_attached_to_wire_def stream_attached_from_wire_def wire_simps del: map_map)

lemma process_attached_roundtrip [wire_simps]: "process_attached_from_wire (process_attached_to_wire x) = x"
  by (cases x) (simp add: process_attached_to_wire_def process_attached_from_wire_def wire_simps del: map_map)

lemma forward_opened_roundtrip [wire_simps]: "forward_opened_from_wire (forward_opened_to_wire x) = x"
  by (cases x) (simp add: forward_opened_to_wire_def forward_opened_from_wire_def wire_simps del: map_map)

lemma sftp_opened_roundtrip [wire_simps]: "sftp_opened_from_wire (sftp_opened_to_wire x) = x"
  by (cases x) (simp add: sftp_opened_to_wire_def sftp_opened_from_wire_def wire_simps del: map_map)

lemma dotfiles_applied_roundtrip [wire_simps]: "dotfiles_applied_from_wire (dotfiles_applied_to_wire x) = x"
  by (cases x) (simp add: dotfiles_applied_to_wire_def dotfiles_applied_from_wire_def wire_simps del: map_map)


lemma event_payload_roundtrip [wire_simps]: "event_payload_from_wire (event_payload_to_wire p) = Ok p"
  by (cases p) (simp_all add: wire_simps)

lemma event_envelope_roundtrip [wire_simps]: "event_envelope_from_wire (event_envelope_to_wire e) = Ok e"
  by (cases e) (simp add: event_envelope_to_wire_def event_envelope_from_wire_def wire_simps)

lemma json_back [wire_simps]: "json_ok js \<Longrightarrow> js_from_str js (js_to_string js v) = Some v"
  by (simp add: json_ok_def)

lemma command_roundtrip [wire_simps]: "json_ok js \<Longrightarrow> command_from_wire js (command_to_wire js c) = Ok c"
  by (cases c) (simp_all add: wire_simps)

lemma command_result_roundtrip [wire_simps]: "command_result_from_wire (command_result_to_wire r) = Ok r"
  by (cases r) (simp_all add: wire_simps)

lemma control_error_roundtrip [wire_simps]:
  "json_ok js \<Longrightarrow> control_error_from_wire js (control_error_to_wire js e) = Ok e"
  by (cases e; cases "ce_detail e") (simp_all add: control_error_to_wire_def control_error_from_wire_def wire_simps)

lemma control_request_roundtrip [wire_simps]:
  "json_ok js \<Longrightarrow> control_request_from_wire js (control_request_to_wire js r) = Ok r"
  by (cases r) (simp add: control_request_to_wire_def control_request_from_wire_def wire_simps)

lemma outcome_roundtrip [wire_simps]: "json_ok js \<Longrightarrow> outcome_from_wire js (outcome_to_wire js oc) = Ok oc"
  by (cases oc) (simp_all add: outcome_to_wire_def outcome_from_wire_def wire_simps)

lemma control_response_roundtrip [wire_simps]:
  "json_ok js \<Longrightarrow> control_response_from_wire js (control_response_to_wire js r) = Ok r"
  by (cases r) (simp add: control_response_to_wire_def control_response_from_wire_def wire_simps)

lemma stream_frame_roundtrip [wire_simps]: "stream_frame_from_wire (stream_frame_to_wire f) = Ok f"
  by (cases f; cases "sf_payload f") (simp_all add: stream_frame_to_wire_def stream_frame_from_wire_def)

lemma client_wire [wire_simps]: "json_ok js \<Longrightarrow> client_message_from_wire js (client_message_to_wire js m) = Ok m"
  by (cases m) (simp_all add: client_message_to_wire_def client_message_from_wire_def wire_simps)

lemma server_wire [wire_simps]: "json_ok js \<Longrightarrow> server_message_from_wire js (server_message_to_wire js m) = Ok m"
  by (cases m) (simp_all add: server_message_to_wire_def server_message_from_wire_def wire_simps)

text \<open>
  What an older peer leaves out reads as it always did: a flush without a kind is a suspend flush, a
  session without a mode is a pseudoterminal, and a forward is TCP unless it names exactly \<open>udp\<close>.
\<close>

lemma old_peer_defaults:
  "command_from_wire js (WCmdCaptureFlush 0 deadline grace) = Ok (CmdCaptureFlush FlushSuspend deadline grace) \<and>
   session_mode_or_default 0 = Ok ModePty \<and>
   (of_protocol (open_forward_args_from_wire w) = Udp \<longleftrightarrow> wof_protocol w = Some ''udp'')"
  by (simp add: capture_flush_kind_of_i32_def session_mode_or_default_def open_forward_args_from_wire_def
      forward_protocol_of_wire_def)

text \<open>
  A port outside 16 bits is not refused but cut: a forward to port 65616 is accepted as one to
  port 80.
\<close>

lemma forward_port_cut:
  "command_from_wire js (WCmdOpenForward \<lparr>wof_host = ''db'', wof_port = 65616, wof_execution_id = None, wof_protocol = None,
      wof_dedicated = None, wof_owner_session_id = None\<rparr>) =
   Ok (CmdOpenForward \<lparr>of_host = ''db'', of_port = 80, of_execution_id = None, of_protocol = Tcp, of_dedicated = False,
      of_owner_session_id = None\<rparr>)"
  by (simp add: open_forward_args_from_wire_def forward_protocol_of_wire_def)

section \<open>Properties\<close>



text \<open>
  C36. An event whose enumerations are outside the protocol, or that has no payload, is refused: a wire
  event that is accepted has a capture method from 1 to 8, a confidence from 1 to 3 and a payload.
\<close>

theorem event_enums_checked:
  assumes "event_envelope_from_wire w = Ok e"
  shows "wev_capture_method w \<in> {1, 2, 3, 4, 5, 6, 7, 8} \<and> wev_confidence w \<in> {1, 2, 3} \<and> wev_payload w \<noteq> None"
  using assms
  by (auto simp: event_envelope_from_wire_def and_then_def ok_or_def enum_of_i32_def capture_method_pairs_def
      confidence_pairs_def split: sum.splits option.splits if_splits)

theorem event_enums_checked_witness:
  "(let e = \<lparr>ev_schema_version = 1, ev_event_id = ''evt_1'', ev_runtime_id = ''rt_1'', ev_execution_id = None,
             ev_session_id = None, ev_process_id = None, ev_request_id = None, ev_sequence = 7, ev_observed_at = 1,
             ev_monotonic_timestamp = 1, ev_capture_method = Internal, ev_confidence = Observed,
             ev_payload = RuntimeHeartbeat \<lparr>hb_state = RtHealthy\<rparr>\<rparr>
    in wev_confidence (event_envelope_to_wire e) \<in> {1, 2, 3})"
  unfolding Let_def using event_enums_checked [OF event_envelope_roundtrip] by blast

end
