(* ===== verification/Fs_Diff.thy ===== *)
theory Fs_Diff
  imports Rust_Str Protocol "HOL-Library.Multiset" "HOL-Library.List_Lexorder" "HOL-Library.Char_ord"
begin

text \<open>
  Filesystem snapshots and their comparison: \<open>crates/sealant-fs/src/snapshot.rs\<close> and \<open>diff.rs\<close>.

  A \<open>BTreeMap\<close> is the list of its entries in the order of their keys, \<open>btree_insert\<close> its insertion.
  The walk of the directory (the \<open>walkdir\<close> package and the file system's answers) is a list of
  \<open>walked\<close> records, what the walker yields for the entries that \<open>keep_entry\<close> keeps: the depth, the path
  relative to the root if it is below it, and the metadata if it could be read. The content hash is
  part of the metadata as \<open>hash_file\<close> would return it.

  The theorem: applying the changes that \<open>diff\<close> reports to the old snapshot gives the new one, and
  \<open>diff\<close> reports no path that did not change. \<open>apply_change\<close> is what a consumer of the events does.
\<close>

section \<open>Snapshots\<close>

type_synonym snapshot = "(string \<times> file_entry) list"

fun btree_insert :: "string \<Rightarrow> 'v \<Rightarrow> (string \<times> 'v) list \<Rightarrow> (string \<times> 'v) list" where
  "btree_insert k v [] = [(k, v)]"
| "btree_insert k v ((k', v') # m) =
     (if k < k' then (k, v) # (k', v') # m else if k = k' then (k, v) # m else (k', v') # btree_insert k v m)"

definition DEFAULT_IGNORES :: "string list" where
  "DEFAULT_IGNORES = [''.git'', ''node_modules'', ''target'', ''.sealantd'', ''.hg'', ''.svn'', ''.cache'']"

record snapshot_config =
  sn_ignores :: "string list"
  sn_max_hash_bytes :: u64

definition snapshot_config_default :: snapshot_config where
  "snapshot_config_default = \<lparr>sn_ignores = DEFAULT_IGNORES, sn_max_hash_bytes = 4 * 1024 * 1024\<rparr>"

text \<open>What the operating system says of an entry; \<open>md_hash\<close> is the digest of its bytes if they can be read.\<close>

record metadata =
  md_is_file :: bool
  md_is_dir :: bool
  md_is_symlink :: bool
  md_len :: u64
  md_modified_micros :: "u64 option"
  md_mode :: u32
  md_link :: "string option"
  md_hash :: "string option"

record walked =
  wk_depth :: nat
  wk_relative :: "string option"
  wk_meta :: "metadata option"

definition file_type_of :: "metadata \<Rightarrow> file_type" where
  "file_type_of md =
     (if md_is_file md then FtFile else if md_is_dir md then FtDir else if md_is_symlink md then FtSymlink else FtOther)"

definition is_ignored_dir :: "string \<Rightarrow> string list \<Rightarrow> bool" where
  "is_ignored_dir name ignores \<longleftrightarrow> name \<in> set ignores"

text \<open>The predicate of \<open>filter_entry\<close>: the walker does not go below an entry it refuses.\<close>

definition keep_entry :: "snapshot_config \<Rightarrow> nat \<Rightarrow> bool \<Rightarrow> string \<Rightarrow> bool" where
  "keep_entry cfg depth is_dir name \<longleftrightarrow> \<not> (0 < depth \<and> is_dir \<and> is_ignored_dir name (sn_ignores cfg))"

definition is_temp_path :: "string \<Rightarrow> bool" where
  "is_temp_path rel =
     (let name = rsplit_next (CHR ''/'') rel
      in suffix ''~'' name \<or> suffix ''.swp'' name \<or> suffix ''.swx'' name \<or> suffix ''.swo'' name \<or>
         suffix ''.tmp'' name \<or> prefix ''.#'' name \<or> (prefix ''#'' name \<and> suffix ''#'' name) \<or> name = ''4913'')"

definition hash_of :: "u64 \<Rightarrow> metadata \<Rightarrow> string option" where
  "hash_of max_hash_bytes md =
     (if file_type_of md = FtFile \<and> md_len md \<le> max_hash_bytes then md_hash md else None)"

definition entry_of :: "u64 \<Rightarrow> string \<Rightarrow> metadata \<Rightarrow> file_entry" where
  "entry_of max_hash_bytes rel md =
     \<lparr>fe_path = rel, fe_file_type = file_type_of md, fe_size = md_len md,
      fe_mtime_micros = (case md_modified_micros md of None \<Rightarrow> 0 | Some t \<Rightarrow> t), fe_mode = md_mode md,
      fe_hash = hash_of max_hash_bytes md,
      fe_symlink_target = (if file_type_of md = FtSymlink then md_link md else None)\<rparr>"

definition snapshot_entry :: "snapshot_config \<Rightarrow> walked \<Rightarrow> snapshot \<Rightarrow> snapshot" where
  "snapshot_entry cfg w entries =
     (if wk_depth w = 0 then entries
      else case wk_relative w of
        None \<Rightarrow> entries
      | Some rel \<Rightarrow>
          if rel = [] \<or> is_temp_path rel then entries
          else case wk_meta w of
            None \<Rightarrow> entries
          | Some md \<Rightarrow> btree_insert rel (entry_of (sn_max_hash_bytes cfg) rel md) entries)"

definition snapshot_of :: "snapshot_config \<Rightarrow> walked list \<Rightarrow> snapshot" where
  "snapshot_of cfg ws = fold (snapshot_entry cfg) ws []"

definition entry_for :: "u64 \<Rightarrow> string option \<Rightarrow> metadata option \<Rightarrow> file_entry option" where
  "entry_for max_hash_bytes relative meta =
     (case meta of
        None \<Rightarrow> None
      | Some md \<Rightarrow>
          (case relative of
             None \<Rightarrow> None
           | Some rel \<Rightarrow> if rel = [] then None else Some (entry_of max_hash_bytes rel md)))"

section \<open>The comparison\<close>

definition change :: "file_change_kind \<Rightarrow> string \<Rightarrow> file_entry option \<Rightarrow> file_change" where
  "change kind path entry =
     \<lparr>fc_kind = kind, fc_path = path, fc_rename_from = None, fc_entry = entry, fc_certain = True\<rparr>"

text \<open>The first loop: the changes of the paths in both snapshots, and the entries that are gone.\<close>

definition compare_entry :: "string \<Rightarrow> file_entry \<Rightarrow> file_entry \<Rightarrow> file_change list" where
  "compare_entry path old new =
     (if fe_hash old \<noteq> fe_hash new \<or> fe_size old \<noteq> fe_size new then [change Modified path (Some new)]
      else if fe_mtime_micros old \<noteq> fe_mtime_micros new \<or> fe_mode old \<noteq> fe_mode new \<or>
              fe_symlink_target old \<noteq> fe_symlink_target new
      then [change MetadataChanged path (Some new)] else [])"

fun scan_old :: "snapshot \<Rightarrow> snapshot \<Rightarrow> file_change list \<times> file_entry list" where
  "scan_old new [] = ([], [])"
| "scan_old new ((path, old_entry) # rest) =
     (let (changes, deleted) = scan_old new rest
      in case map_of new path of
           None \<Rightarrow> (changes, old_entry # deleted)
         | Some new_entry \<Rightarrow> (compare_entry path old_entry new_entry @ changes, deleted))"

definition added_entries :: "snapshot \<Rightarrow> snapshot \<Rightarrow> file_entry list" where
  "added_entries old new = map snd (filter (\<lambda>(path, _). map_of old path = None) new)"

text \<open>The position of the first added entry that is free and has the hash.\<close>

fun match_added :: "string \<Rightarrow> file_entry list \<Rightarrow> bool list \<Rightarrow> nat option" where
  "match_added h (a # added) (u # used) =
     (if \<not> u \<and> fe_hash a = Some h then Some 0 else map_option Suc (match_added h added used))"
| "match_added h _ _ = None"

fun match_deleted :: "file_entry list \<Rightarrow> bool list \<Rightarrow> file_entry list \<Rightarrow> file_change list \<times> bool list" where
  "match_deleted added used [] = ([], used)"
| "match_deleted added used (d # ds) =
     (case Option.bind (fe_hash d) (\<lambda>h. match_added h added used) of
        Some i \<Rightarrow>
          (let (changes, used') = match_deleted added (used[i := True]) ds
           in (\<lparr>fc_kind = Renamed, fc_path = fe_path (added ! i), fc_rename_from = Some (fe_path d),
                fc_entry = Some (added ! i), fc_certain = False\<rparr> # changes, used'))
      | None \<Rightarrow>
          (let (changes, used') = match_deleted added used ds
           in (change Deleted (fe_path d) None # changes, used')))"

definition unused :: "file_entry list \<Rightarrow> bool list \<Rightarrow> file_entry list" where
  "unused added used = map fst (filter (\<lambda>(a, u). \<not> u) (zip added used))"

definition diff :: "snapshot \<Rightarrow> snapshot \<Rightarrow> file_change list" where
  "diff old new =
     (let (changes, deleted) = scan_old new old;
          added = added_entries old new;
          (moved, used) = match_deleted added (replicate (length added) False) deleted
      in changes @ moved @ map (\<lambda>a. change Added (fe_path a) (Some a)) (unused added used))"

section \<open>What the changes mean\<close>

definition apply_change :: "file_change \<Rightarrow> (string \<rightharpoonup> file_entry) \<Rightarrow> (string \<rightharpoonup> file_entry)" where
  "apply_change c m =
     (let m1 = (case fc_rename_from c of None \<Rightarrow> m | Some p \<Rightarrow> m(p := None))
      in m1(fc_path c := fc_entry c))"

text \<open>The same as single updates.\<close>

definition updates :: "file_change \<Rightarrow> (string \<times> file_entry option) list" where
  "updates c = (case fc_rename_from c of None \<Rightarrow> [] | Some p \<Rightarrow> [(p, None)]) @ [(fc_path c, fc_entry c)]"

definition snapshot_ok :: "snapshot \<Rightarrow> bool" where
  "snapshot_ok s \<longleftrightarrow> sorted_wrt (<) (map fst s) \<and> list_all (\<lambda>(p, e). fe_path e = p) s"

text \<open>On Unix the mode holds the file type: entries of the same mode have the same type.\<close>

definition modes_tell_types :: "snapshot \<Rightarrow> snapshot \<Rightarrow> bool" where
  "modes_tell_types old new \<longleftrightarrow>
     list_all (\<lambda>(p, a). list_all (\<lambda>(q, b). fe_mode a = fe_mode b \<longrightarrow> fe_file_type a = fe_file_type b) new) old"

section \<open>Snapshots are well formed\<close>

lemma keys_btree_insert: "set (map fst (btree_insert k v m)) = insert k (set (map fst m))"
  by (induction k v m rule: btree_insert.induct) auto

lemma sorted_btree_insert: "sorted_wrt (<) (map fst m) \<Longrightarrow> sorted_wrt (<) (map fst (btree_insert k v m))"
proof (induction k v m rule: btree_insert.induct)
  case (2 k v k' v' m)
  then show ?case
    using keys_btree_insert [of k v m] by (auto simp flip: set_map)
qed simp

lemma list_all_btree_insert: "list_all P m \<Longrightarrow> P (k, v) \<Longrightarrow> list_all P (btree_insert k v m)"
  by (induction k v m rule: btree_insert.induct) auto

lemma snapshot_ok_entry: "snapshot_ok s \<Longrightarrow> snapshot_ok (snapshot_entry cfg w s)"
  by (auto simp: snapshot_entry_def snapshot_ok_def entry_of_def intro!: sorted_btree_insert list_all_btree_insert
      split: option.splits)

lemma snapshot_ok_of: "snapshot_ok (snapshot_of cfg ws)"
proof -
  have "snapshot_ok s \<Longrightarrow> snapshot_ok (fold (snapshot_entry cfg) ws s)" for s
    by (induction ws arbitrary: s) (auto intro: snapshot_ok_entry)
  then show ?thesis
    by (simp add: snapshot_of_def snapshot_ok_def)
qed

lemma snapshot_ok_distinct: "snapshot_ok s \<Longrightarrow> distinct (map fst s)"
  by (simp add: snapshot_ok_def strict_sorted_iff)

section \<open>The changes as updates of a map\<close>

lemma apply_change_updates: "apply_change c m = fold (\<lambda>(k, v) m. m(k := v)) (updates c) m"
  by (simp add: apply_change_def updates_def split: option.splits)

lemma fold_apply_updates:
  "fold apply_change cs m = fold (\<lambda>(k, v) m. m(k := v)) (concat (map updates cs)) m"
  by (induction cs arbitrary: m) (simp_all add: apply_change_updates)

lemma fold_updates:
  "distinct (map fst us) \<Longrightarrow>
   fold (\<lambda>(k, v) m. m(k := v)) us m p = (case map_of us p of Some v \<Rightarrow> v | None \<Rightarrow> m p)"
proof (induction us arbitrary: m)
  case (Cons u us)
  obtain k v where u: "u = (k, v)"
    by fastforce
  have "map_of us k = None"
    using Cons.prems u by (simp add: map_of_eq_None_iff)
  with Cons u show ?case
    by (auto split: option.splits)
qed simp

lemma mset_unused_step:
  "match_added h added used = Some i \<Longrightarrow>
   mset (unused added used) = add_mset (added ! i) (mset (unused added (used[i := True])))"
proof (induction h added used arbitrary: i rule: match_added.induct)
  case (1 h a added u used)
  then show ?case
    by (cases "\<not> u \<and> fe_hash a = Some h") (auto simp: unused_def)
qed simp_all

lemma mset_match_deleted:
  "match_deleted added used ds = (changes, used') \<Longrightarrow>
   mset (concat (map updates changes)) + mset (map (\<lambda>a. (fe_path a, Some a)) (unused added used')) =
     mset (map (\<lambda>d. (fe_path d, None)) ds) + mset (map (\<lambda>a. (fe_path a, Some a)) (unused added used))"
proof (induction added used ds arbitrary: changes used' rule: match_deleted.induct)
  case (2 added used d ds)
  then show ?case
    by (cases "Option.bind (fe_hash d) (\<lambda>h. match_added h added used)")
      (auto simp: Let_def updates_def change_def bind_eq_Some_conv mset_unused_step split: prod.splits)
qed simp

lemma unused_all [simp]: "unused added (replicate (length added) False) = added"
  by (induction added) (simp_all add: unused_def)

definition modified_updates :: "snapshot \<Rightarrow> snapshot \<Rightarrow> (string \<times> file_entry option) list" where
  "modified_updates old new = concat (map updates (fst (scan_old new old)))"

lemma mset_diff_updates:
  "mset (concat (map updates (diff old new))) =
     mset (modified_updates old new) + mset (map (\<lambda>d. (fe_path d, None)) (snd (scan_old new old))) +
     mset (map (\<lambda>a. (fe_path a, Some a)) (added_entries old new))"
proof -
  obtain moved used where m: "match_deleted (added_entries old new) (replicate (length (added_entries old new)) False)
      (snd (scan_old new old)) = (moved, used)"
    by fastforce
  have "concat (map (updates \<circ> (\<lambda>a. change Added (fe_path a) (Some a))) xs) = map (\<lambda>a. (fe_path a, Some a)) xs" for xs
    by (induction xs) (simp_all add: updates_def change_def)
  with mset_match_deleted [OF m] m show ?thesis
    by (simp add: diff_def modified_updates_def case_prod_beta Let_def add.assoc)
qed

lemma scan_old_deleted: "snd (scan_old new old) = map snd (filter (\<lambda>(p, _). map_of new p = None) old)"
  by (induction new old rule: scan_old.induct) (auto simp: Let_def case_prod_beta split: option.splits)

lemma updates_compare:
  "concat (map updates (compare_entry p a b)) = (if compare_entry p a b = [] then [] else [(p, Some b)])"
  by (simp add: compare_entry_def updates_def change_def)

lemma set_modified_updates:
  "(p, v) \<in> set (modified_updates old new) \<longleftrightarrow>
     (\<exists>a b. (p, a) \<in> set old \<and> map_of new p = Some b \<and> v = Some b \<and> compare_entry p a b \<noteq> [])"
  unfolding modified_updates_def
proof (induction new old rule: scan_old.induct)
  case (2 new path old_entry rest)
  then show ?case
    by (cases "map_of new path") (auto simp: Let_def case_prod_beta updates_compare split: if_splits)
qed simp

lemma distinct_modified_updates:
  "distinct (map fst old) \<Longrightarrow> distinct (map fst (modified_updates old new))"
proof (induction old)
  case (Cons x old)
  obtain path a where x: "x = (path, a)"
    by fastforce
  have "path \<notin> fst ` set (modified_updates old new)"
    using Cons.prems x set_modified_updates [of path _ old new] by force
  moreover have "modified_updates (x # old) new =
      (case map_of new path of None \<Rightarrow> [] | Some b \<Rightarrow> concat (map updates (compare_entry path a b))) @ modified_updates old new"
    by (simp add: modified_updates_def x Let_def case_prod_beta split: option.splits)
  moreover have "set (concat (map updates (compare_entry path a b))) \<subseteq> {(path, Some b)}"
    "distinct (map fst (concat (map updates (compare_entry path a b))))" for b
    by (simp_all add: updates_compare)
  ultimately show ?case
    using Cons by (cases "map_of new path") (auto simp: updates_compare split: if_splits)
qed (simp add: modified_updates_def)

lemma compare_entry_Nil:
  "compare_entry p a b = [] \<Longrightarrow> fe_path a = fe_path b \<Longrightarrow> fe_file_type a = fe_file_type b \<Longrightarrow> a = b"
  by (auto simp: compare_entry_def split: if_splits)

lemma modes_tell_typesD:
  "modes_tell_types old new \<Longrightarrow> (p, a) \<in> set old \<Longrightarrow> (q, b) \<in> set new \<Longrightarrow> fe_mode a = fe_mode b \<Longrightarrow>
   fe_file_type a = fe_file_type b"
  by (fastforce simp: modes_tell_types_def list_all_iff)

text \<open>The updates as a set, and that no key is updated twice.\<close>

lemma diff_updates:
  assumes "snapshot_ok old" and "snapshot_ok new"
  shows "(p, v) \<in> set (concat (map updates (diff old new))) \<longleftrightarrow>
      (case map_of old p of
         None \<Rightarrow> (\<exists>b. map_of new p = Some b \<and> v = Some b)
       | Some a \<Rightarrow> (case map_of new p of None \<Rightarrow> v = None | Some b \<Rightarrow> v = Some b \<and> compare_entry p a b \<noteq> []))"
    and "distinct (map fst (concat (map updates (diff old new))))"
proof -
  have keys: "distinct (map fst old)" "distinct (map fst new)"
    using assms by (simp_all add: snapshot_ok_distinct)
  have in_old: "(q, e) \<in> set old \<longleftrightarrow> map_of old q = Some e" and in_new: "(q, e) \<in> set new \<longleftrightarrow> map_of new q = Some e" for q e
    using keys by simp_all
  let ?del = "map (\<lambda>d. (fe_path d, None)) (snd (scan_old new old))"
  let ?add = "map (\<lambda>a. (fe_path a, Some a)) (added_entries old new)"
  have path: "fe_path e = q" if "(q, e) \<in> set old \<or> (q, e) \<in> set new" for q e
    using that assms by (auto simp: snapshot_ok_def list_all_iff)
  have del: "?del = map (\<lambda>(q, e). (q, None)) (filter (\<lambda>(q, _). map_of new q = None) old)"
    using path by (auto simp: scan_old_deleted)
  have add: "?add = map (\<lambda>(q, e). (q, Some e)) (filter (\<lambda>(q, _). map_of old q = None) new)"
    using path by (auto simp: added_entries_def)
  let ?all = "modified_updates old new @ ?del @ ?add"
  have m: "mset (concat (map updates (diff old new))) = mset ?all"
    by (simp add: mset_diff_updates)
  show "(p, v) \<in> set (concat (map updates (diff old new))) \<longleftrightarrow>
      (case map_of old p of
         None \<Rightarrow> (\<exists>b. map_of new p = Some b \<and> v = Some b)
       | Some a \<Rightarrow> (case map_of new p of None \<Rightarrow> v = None | Some b \<Rightarrow> v = Some b \<and> compare_entry p a b \<noteq> []))"
    unfolding mset_eq_setD [OF m] set_append Un_iff set_modified_updates del add
    by (cases "map_of old p"; cases "map_of new p") (auto simp: in_old in_new)
  have "q \<in> dom (map_of old) \<inter> dom (map_of new)" if "(q, w) \<in> set (modified_updates old new)" for q w
    using that unfolding set_modified_updates in_old by blast
  then have "set (map fst (modified_updates old new)) \<subseteq> dom (map_of old) \<inter> dom (map_of new)"
    unfolding set_map by (intro image_subsetI) (metis prod.collapse)
  moreover have "set (map fst ?del) \<subseteq> dom (map_of old) - dom (map_of new)"
    "set (map fst ?add) \<subseteq> dom (map_of new) - dom (map_of old)"
    unfolding del add by (auto simp: in_old in_new)
  moreover have "distinct (map fst ?del)" "distinct (map fst ?add)"
    unfolding del add using keys by (simp_all add: distinct_map_filter case_prod_beta comp_def)
  ultimately have "distinct (map fst ?all)"
    using distinct_modified_updates [OF keys(1), of new] unfolding map_append distinct_append set_append by blast
  moreover have "mset (map fst (concat (map updates (diff old new)))) = mset (map fst ?all)"
    unfolding mset_map m ..
  ultimately show "distinct (map fst (concat (map updates (diff old new))))"
    using mset_eq_imp_distinct_iff by blast
qed

lemma distinct_concat_mem:
  "distinct (map fst (concat (map updates cs))) \<Longrightarrow> c \<in> set cs \<Longrightarrow> (fc_path c, fc_entry c) \<in> set (concat (map updates cs))"
  by (fastforce simp: updates_def)

text \<open>Snapshots of two walks of a directory with one file renamed and one edited.\<close>

definition walked_file :: "string \<Rightarrow> string \<Rightarrow> walked" where
  "walked_file rel digest =
     \<lparr>wk_depth = 1, wk_relative = Some rel,
      wk_meta = Some \<lparr>md_is_file = True, md_is_dir = False, md_is_symlink = False, md_len = 1, md_modified_micros = Some 1,
        md_mode = 33188, md_link = None, md_hash = Some digest\<rparr>\<rparr>"

definition walk_before :: snapshot where
  "walk_before = snapshot_of snapshot_config_default [walked_file ''b'' ''h1'', walked_file ''a'' ''h2'', walked_file ''a~'' ''h3'']"

definition walk_after :: snapshot where
  "walk_after = snapshot_of snapshot_config_default [walked_file ''a'' ''h4'', walked_file ''c'' ''h1'']"

section \<open>Properties\<close>

text \<open>
  C13. A diff is complete and exact: applying the changes it reports to the old snapshot, in their order,
  gives the new one, renames it only inferred included, and every path it reports did change.
\<close>

theorem diff_complete:
  assumes "snapshot_ok old" and "snapshot_ok new" and "modes_tell_types old new"
  shows "fold apply_change (diff old new) (map_of old) = map_of new \<and>
    (\<forall>c \<in> set (diff old new). map_of old (fc_path c) \<noteq> map_of new (fc_path c))"
proof -
  let ?us = "concat (map updates (diff old new))"
  note upd = diff_updates [OF assms(1,2)]
  have same: "a = b" if "map_of old p = Some a" "map_of new p = Some b" "compare_entry p a b = []" for p a b
  proof -
    have "fe_path a = p" "fe_path b = p" "(p, a) \<in> set old" "(p, b) \<in> set new"
      using that(1,2) assms(1,2) by (auto simp: snapshot_ok_def list_all_iff dest!: map_of_SomeD)
    moreover have "fe_mode a = fe_mode b"
      using that(3) by (auto simp: compare_entry_def split: if_splits)
    ultimately show ?thesis
      using compare_entry_Nil [OF that(3)] modes_tell_typesD [OF assms(3), of p a p b] by simp
  qed
  have "fold apply_change (diff old new) (map_of old) p = map_of new p" for p
  proof -
    define us where "us = ?us"
    have mem: "(p, v) \<in> set us \<longleftrightarrow> map_of us p = Some v" for v
      using upd(2) by (simp add: us_def)
    note key = upd(1) [of p, folded us_def, unfolded mem]
    have "(case map_of us p of None \<Rightarrow> map_of old p | Some v \<Rightarrow> v) = map_of new p"
    proof (cases "map_of us p")
      case None
      then have "\<not> (map_of us p = Some v)" for v
        by simp
      then have "map_of old p = map_of new p"
        unfolding key using same [of p] by (cases "map_of old p"; cases "map_of new p") auto
      with None show ?thesis
        by simp
    next
      case (Some v)
      then have "v = map_of new p"
        using key [of v] by (cases "map_of old p"; cases "map_of new p") auto
      with Some show ?thesis
        by simp
    qed
    then show ?thesis
      unfolding fold_apply_updates fold_updates [OF upd(2)] us_def .
  qed
  moreover have "map_of old (fc_path c) \<noteq> map_of new (fc_path c)" if "c \<in> set (diff old new)" for c
  proof
    assume eq: "map_of old (fc_path c) = map_of new (fc_path c)"
    have "(fc_path c, fc_entry c) \<in> set ?us"
      by (rule distinct_concat_mem [OF upd(2) that])
    with eq show False
      unfolding upd(1) by (auto simp: compare_entry_def split: option.splits)
  qed
  ultimately show ?thesis
    by auto
qed

theorem diff_complete_witness:
  "fold apply_change (diff walk_before walk_after) (map_of walk_before) = map_of walk_after \<and>
   length (diff walk_before walk_after) = 2"
proof -
  have "modes_tell_types walk_before walk_after" "length (diff walk_before walk_after) = 2"
    by code_simp+
  moreover have "snapshot_ok walk_before" "snapshot_ok walk_after"
    by (simp_all add: walk_before_def walk_after_def snapshot_ok_of)
  ultimately show ?thesis
    using diff_complete by blast
qed

end
