(* ===== verification/Control.thy ===== *)
theory Control
  imports Rust_Str Convert Record_Codec "HOL-Library.Multiset"
begin

text \<open>
  The control channel: \<open>crates/sealant-control/src/frame.rs\<close>, \<open>server.rs\<close> and \<open>peer.rs\<close>, with the frame
  limits of \<open>crates/sealant-protocol/src/frame.rs\<close>.

  A frame is a length prefix and a body; \<open>read_frame\<close> reads one from a \<open>reader\<close>, a byte sequence whose
  device may fail, and \<open>write_frame\<close> writes one to a transport that may fail part-way. The frames are an
  instance of the locale \<open>framing\<close>.

  One connection is the record \<open>connection\<close>: what is left to read, the requests running beside the
  loop, the messages given to the writer, the channels and their closers. The arms of the loop of
  \<open>handle_connection\<close> and the tasks beside it are the rules of \<open>conn_step\<close>. The service is a parameter:
  a function from the request, its own state and the connection's channels to the response. An arm of
  \<open>select!\<close> that wins cancels the read of a frame, and with it the bytes that read had already taken
  (\<open>read_exact\<close> is not cancel safe): the rule \<open>joined\<close> says so. Events and conduit frames reach the
  writer's queue from other tasks and are not part of this relation.
\<close>

section \<open>Frames\<close>

definition LENGTH_PREFIX_BYTES :: nat where
  "LENGTH_PREFIX_BYTES = 4"

definition DEFAULT_MAX_FRAME_BYTES :: u32 where
  "DEFAULT_MAX_FRAME_BYTES = 8 * 1024 * 1024"

definition MIN_MAX_FRAME_BYTES :: u32 where
  "MIN_MAX_FRAME_BYTES = 1024"

definition clamp_max_frame_bytes :: "u32 \<Rightarrow> u32" where
  "clamp_max_frame_bytes requested = max requested MIN_MAX_FRAME_BYTES"

datatype io_kind = UnexpectedEof | OtherIo

datatype frame_error = TooLarge u32 u32 | FrameIo io_kind

text \<open>\<open>read_exact\<close> of the asynchronous reader, with the two kinds of error the callers tell apart.\<close>

definition frame_read_exact :: "nat \<Rightarrow> reader \<Rightarrow> (io_kind + bytes) \<times> reader" where
  "frame_read_exact n rd =
     (case read_full n rd of
        (Err e, rd1) \<Rightarrow> (Err OtherIo, rd1)
      | (Ok bs, rd1) \<Rightarrow> (if length bs < n then Err UnexpectedEof else Ok bs, rd1))"

definition read_frame :: "u32 \<Rightarrow> reader \<Rightarrow> (frame_error + bytes option) \<times> reader" where
  "read_frame max_frame_bytes rd =
     (case frame_read_exact LENGTH_PREFIX_BYTES rd of
        (Err UnexpectedEof, rd1) \<Rightarrow> (Ok None, rd1)
      | (Err OtherIo, rd1) \<Rightarrow> (Err (FrameIo OtherIo), rd1)
      | (Ok len_buf, rd1) \<Rightarrow>
          (let len = u32_from_be len_buf
           in if max_frame_bytes < len then (Err (TooLarge len max_frame_bytes), rd1)
              else case frame_read_exact (unat len) rd1 of
                (Err e, rd2) \<Rightarrow> (Err (FrameIo e), rd2)
              | (Ok body, rd2) \<Rightarrow> (Ok (Some body), rd2)))"

text \<open>A transport that has taken \<open>wr_data\<close>; \<open>wr_room\<close> is how much more it takes before it fails, if it does.\<close>

record frame_writer =
  wr_data :: bytes
  wr_room :: "nat option"

definition frame_write_all :: "bytes \<Rightarrow> frame_writer \<Rightarrow> (io_kind + unit) \<times> frame_writer" where
  "frame_write_all bs w =
     (case wr_room w of
        None \<Rightarrow> (Ok (), w\<lparr>wr_data := wr_data w @ bs\<rparr>)
      | Some k \<Rightarrow>
          if length bs \<le> k then (Ok (), w\<lparr>wr_data := wr_data w @ bs, wr_room := Some (k - length bs)\<rparr>)
          else (Err OtherIo, w\<lparr>wr_data := wr_data w @ take k bs, wr_room := Some 0\<rparr>))"

text \<open>The flush at the end has nothing to do: the transports are written to directly.\<close>

definition write_frame :: "bytes \<Rightarrow> u32 \<Rightarrow> frame_writer \<Rightarrow> (frame_error + unit) \<times> frame_writer" where
  "write_frame body max_frame_bytes w =
     (if 2 ^ 32 \<le> length body then (Err (TooLarge (- 1) max_frame_bytes), w)
      else let len = word_of_nat (length body)
      in if max_frame_bytes < len then (Err (TooLarge len max_frame_bytes), w)
         else case frame_write_all (u32_to_be len) w of
           (Err e, w1) \<Rightarrow> (Err (FrameIo e), w1)
         | (Ok _, w1) \<Rightarrow>
             (case frame_write_all body w1 of
                (Err e, w2) \<Rightarrow> (Err (FrameIo e), w2)
              | (Ok _, w2) \<Rightarrow> (Ok (), w2)))"

definition write_message ::
  "'j json_lib \<Rightarrow> wire_server_message option pb_lib \<Rightarrow> 'j server_message \<Rightarrow> u32 \<Rightarrow> frame_writer \<Rightarrow>
   (frame_error + unit) \<times> frame_writer" where
  "write_message js pb message max_frame_bytes w = write_frame (encode_server js pb message) max_frame_bytes w"

section \<open>Peers\<close>

definition peer_allowed :: "u32 \<Rightarrow> u32 \<Rightarrow> u32 list \<Rightarrow> bool" where
  "peer_allowed peer_uid self_uid allowed \<longleftrightarrow> peer_uid = self_uid \<or> peer_uid = 0 \<or> peer_uid \<in> set allowed"

text \<open>The credentials are what the socket option returned, if it returned any.\<close>

definition validate_peer :: "u32 option \<Rightarrow> u32 \<Rightarrow> u32 list \<Rightarrow> bool" where
  "validate_peer cred self_uid allowed =
     (case cred of Some uid \<Rightarrow> peer_allowed uid self_uid allowed | None \<Rightarrow> False)"

section \<open>One inbound frame\<close>

datatype 'j inbound = InRequest "'j control_request" | InStream stream_frame | InError "'j control_response"

fun wire_error_text :: "wire_error \<Rightarrow> string" where
  "wire_error_text (DecodeError e) = ''protobuf decode error: '' @ e"
| "wire_error_text (MissingField f) = ''missing required field: '' @ f"
| "wire_error_text (MissingOneof f) = ''missing oneof: '' @ f"
| "wire_error_text (UnknownEnum n) = ''unknown enum value for '' @ n"

definition inbound_of :: "'j client_message \<Rightarrow> 'j inbound" where
  "inbound_of m =
     (case m of
        ClientRequest request \<Rightarrow>
          if rq_schema_version request \<noteq> PROTOCOL_SCHEMA_VERSION then
            InError (response_error (rq_request_id request) (control_error_new UnsupportedVersion
              (''schemaVersion '' @ decimal (unat (rq_schema_version request)) @ '' is not supported (expected '' @
               decimal (unat PROTOCOL_SCHEMA_VERSION) @ '')'')))
          else InRequest request
      | ClientStream frame \<Rightarrow> InStream frame)"

definition decode_inbound ::
  "'j json_lib \<Rightarrow> wire_client_message option pb_lib \<Rightarrow> bytes \<Rightarrow> 'j inbound" where
  "decode_inbound js pb body =
     (case decode_client js pb body of
        Ok m \<Rightarrow> inbound_of m
      | Err e \<Rightarrow> InError (response_error ''unknown'' (control_error_new InvalidJson (wire_error_text e))))"

section \<open>One connection\<close>

text \<open>
  \<open>cn_room\<close> is how many more messages the writer takes before it stops, if it does. \<open>cn_finished\<close>
  counts the tasks beside the loop that are done and not yet joined. \<open>cn_delivered\<close> is what the sinks of
  the channels were sent, \<open>cn_closed\<close> the closers that were run, and \<open>cn_frames\<close> the frames read so far,
  which no operation looks at.
\<close>

record ('j, 's) connection =
  cn_reader :: reader
  cn_service :: 's
  cn_out :: "'j server_message list"
  cn_room :: "nat option"
  cn_channels :: "id list"
  cn_closers :: "id list"
  cn_delivered :: "(id \<times> stream_payload) list"
  cn_closed :: "id list"
  cn_beside :: "'j control_request list"
  cn_finished :: nat
  cn_open :: bool
  cn_torn :: bool
  cn_frames :: "'j inbound list"

type_synonym ('j, 's) service =
  "'j control_request \<Rightarrow> 's \<Rightarrow> id list \<Rightarrow> id list \<Rightarrow> 'j control_response \<times> 's \<times> id list \<times> id list"

definition connect :: "reader \<Rightarrow> 's \<Rightarrow> ('j, 's) connection" where
  "connect rd s =
     \<lparr>cn_reader = rd, cn_service = s, cn_out = [], cn_room = None, cn_channels = [], cn_closers = [],
      cn_delivered = [], cn_closed = [], cn_beside = [], cn_finished = 0, cn_open = True, cn_torn = False, cn_frames = []\<rparr>"

text \<open>\<open>out_tx.send\<close>: whether the writer still takes messages.\<close>

definition send_out :: "'j server_message \<Rightarrow> ('j, 's) connection \<Rightarrow> bool \<times> ('j, 's) connection" where
  "send_out msg c =
     (case cn_room c of
        None \<Rightarrow> (True, c\<lparr>cn_out := cn_out c @ [msg]\<rparr>)
      | Some 0 \<Rightarrow> (False, c)
      | Some (Suc k) \<Rightarrow> (True, c\<lparr>cn_out := cn_out c @ [msg], cn_room := Some k\<rparr>))"

definition send_or_stop :: "'j server_message \<Rightarrow> ('j, 's) connection \<Rightarrow> ('j, 's) connection" where
  "send_or_stop msg c = (case send_out msg c of (True, c1) \<Rightarrow> c1 | (False, c1) \<Rightarrow> c1\<lparr>cn_open := False\<rparr>)"

text \<open>\<open>handle_on_connection\<close> of the service: its response, its state and what it registered.\<close>

definition handle_on_connection ::
  "('j, 's) service \<Rightarrow> 'j control_request \<Rightarrow> ('j, 's) connection \<Rightarrow> 'j control_response \<times> ('j, 's) connection" where
  "handle_on_connection service request c =
     (case service request (cn_service c) (cn_channels c) (cn_closers c) of
        (response, s, channels, closers) \<Rightarrow>
          (response, c\<lparr>cn_service := s, cn_channels := channels, cn_closers := closers\<rparr>))"

fun is_stream_end :: "stream_payload \<Rightarrow> bool" where
  "is_stream_end (End _) = True"
| "is_stream_end _ = False"

definition route_inbound_stream :: "stream_frame \<Rightarrow> ('j, 's) connection \<Rightarrow> ('j, 's) connection" where
  "route_inbound_stream frame c =
     (let c1 = (if sf_channel_id frame \<in> set (cn_channels c)
                then c\<lparr>cn_delivered := cn_delivered c @ [(sf_channel_id frame, sf_payload frame)]\<rparr> else c)
      in if is_stream_end (sf_payload frame)
         then c1\<lparr>cn_channels := filter (\<lambda>i. i \<noteq> sf_channel_id frame) (cn_channels c1)\<rparr> else c1)"

fun is_open_forward :: "'j command \<Rightarrow> bool" where
  "is_open_forward (CmdOpenForward _) = True"
| "is_open_forward _ = False"

definition handle_inbound :: "('j, 's) service \<Rightarrow> 'j inbound \<Rightarrow> ('j, 's) connection \<Rightarrow> ('j, 's) connection" where
  "handle_inbound service inb c =
     (case inb of
        InRequest request \<Rightarrow>
          if is_open_forward (rq_command request) then c\<lparr>cn_beside := cn_beside c @ [request]\<rparr>
          else (case handle_on_connection service request c of
                  (response, c1) \<Rightarrow> send_or_stop (ServerResponse response) c1)
      | InStream frame \<Rightarrow> route_inbound_stream frame c
      | InError response \<Rightarrow> send_or_stop (ServerResponse response) c)"

definition too_large_response :: "u32 \<Rightarrow> u32 \<Rightarrow> 'j control_response" where
  "too_large_response len mx =
     response_error ''unknown'' (control_error_new FrameTooLarge
       (''frame length '' @ decimal (unat len) @ '' exceeds maximum '' @ decimal (unat mx)))"

definition note_frame :: "'j inbound \<Rightarrow> ('j, 's) connection \<Rightarrow> ('j, 's) connection" where
  "note_frame inb c = c\<lparr>cn_frames := cn_frames c @ [inb]\<rparr>"

definition read_arm ::
  "'j json_lib \<Rightarrow> wire_client_message option pb_lib \<Rightarrow> ('j, 's) service \<Rightarrow> u32 \<Rightarrow> ('j, 's) connection \<Rightarrow> ('j, 's) connection" where
  "read_arm js pb service max_frame_bytes c =
     (case read_frame max_frame_bytes (cn_reader c) of
        (Ok (Some body), rd) \<Rightarrow>
          (let inb = decode_inbound js pb body
           in handle_inbound service inb (note_frame inb (c\<lparr>cn_reader := rd\<rparr>)))
      | (Ok None, rd) \<Rightarrow> c\<lparr>cn_reader := rd, cn_open := False\<rparr>
      | (Err (TooLarge len mx), rd) \<Rightarrow>
          (snd (send_out (ServerResponse (too_large_response len mx))
             (note_frame (InError (too_large_response len mx)) (c\<lparr>cn_reader := rd\<rparr>))))\<lparr>cn_open := False\<rparr>
      | (Err (FrameIo e), rd) \<Rightarrow> c\<lparr>cn_reader := rd, cn_open := False\<rparr>)"

text \<open>A request running beside the loop gets its response and puts it in the queue.\<close>

definition run_beside :: "('j, 's) service \<Rightarrow> nat \<Rightarrow> ('j, 's) connection \<Rightarrow> ('j, 's) connection" where
  "run_beside service i c =
     (case handle_on_connection service (cn_beside c ! i) c of
        (response, c1) \<Rightarrow>
          (snd (send_out (ServerResponse response) c1))
            \<lparr>cn_beside := take i (cn_beside c) @ drop (Suc i) (cn_beside c), cn_finished := Suc (cn_finished c)\<rparr>)"

text \<open>
  A read of a frame that \<open>k\<close> bytes have not completed: the first \<open>k\<close> bytes alone end inside the prefix or
  inside the body.
\<close>

definition mid_frame :: "u32 \<Rightarrow> nat \<Rightarrow> reader \<Rightarrow> bool" where
  "mid_frame max_frame_bytes k rd \<longleftrightarrow>
     k \<le> length (rd_data rd) \<and> (case rd_fail rd of None \<Rightarrow> True | Some f \<Rightarrow> k \<le> f) \<and>
     (k < LENGTH_PREFIX_BYTES \<or>
      (let len = u32_from_be (take LENGTH_PREFIX_BYTES (rd_data rd))
       in len \<le> max_frame_bytes \<and> k < LENGTH_PREFIX_BYTES + unat len))"

definition cancel_read :: "nat \<Rightarrow> reader \<Rightarrow> reader" where
  "cancel_read k rd = \<lparr>rd_data = drop k (rd_data rd), rd_fail = map_option (\<lambda>f. f - k) (rd_fail rd)\<rparr>"

definition teardown :: "('j, 's) connection \<Rightarrow> ('j, 's) connection" where
  "teardown c = c\<lparr>cn_closed := cn_closed c @ cn_closers c, cn_closers := [], cn_channels := [], cn_finished := 0, cn_torn := True\<rparr>"

inductive conn_step ::
  "'j json_lib \<Rightarrow> wire_client_message option pb_lib \<Rightarrow> ('j, 's) service \<Rightarrow> u32 \<Rightarrow> ('j, 's) connection \<Rightarrow> ('j, 's) connection \<Rightarrow> bool"
  for js pb service mx where
  frame_read: "cn_open c \<Longrightarrow> conn_step js pb service mx c (read_arm js pb service mx c)"
| beside_done: "i < length (cn_beside c) \<Longrightarrow> conn_step js pb service mx c (run_beside service i c)"
| joined: "cn_open c \<Longrightarrow> 0 < cn_finished c \<Longrightarrow> mid_frame mx k (cn_reader c) \<Longrightarrow>
    conn_step js pb service mx c (c\<lparr>cn_finished := cn_finished c - 1, cn_reader := cancel_read k (cn_reader c)\<rparr>)"
| shutdown: "cn_open c \<Longrightarrow> conn_step js pb service mx c (c\<lparr>cn_open := False\<rparr>)"
| torn_down: "\<not> cn_open c \<Longrightarrow> cn_beside c = [] \<Longrightarrow> \<not> cn_torn c \<Longrightarrow> conn_step js pb service mx c (teardown c)"

inductive conn_reach ::
  "'j json_lib \<Rightarrow> wire_client_message option pb_lib \<Rightarrow> ('j, 's) service \<Rightarrow> u32 \<Rightarrow> ('j, 's) connection \<Rightarrow> ('j, 's) connection \<Rightarrow> bool"
  for js pb service mx c0 where
  conn_start: "conn_reach js pb service mx c0 c0"
| conn_next: "conn_reach js pb service mx c0 c \<Longrightarrow> conn_step js pb service mx c c' \<Longrightarrow> conn_reach js pb service mx c0 c'"

inductive_cases conn_stepE: "conn_step js pb service mx c c'"

section \<open>What a frame is owed\<close>

text \<open>The request identifiers that the answers to a frame carry, and those of the responses in a queue.\<close>

fun owed :: "'j inbound \<Rightarrow> id list" where
  "owed (InRequest request) = [rq_request_id request]"
| "owed (InStream frame) = []"
| "owed (InError response) = [rs_request_id response]"

fun answered :: "'j server_message \<Rightarrow> id list" where
  "answered (ServerResponse response) = [rs_request_id response]"
| "answered _ = []"

text \<open>The service answers a request under the identifier of that request.\<close>

definition echoes :: "('j, 's) service \<Rightarrow> bool" where
  "echoes service \<longleftrightarrow>
     (\<forall>request s channels closers. rs_request_id (fst (service request s channels closers)) = rq_request_id request)"

definition answer_inv :: "('j, 's) connection \<Rightarrow> bool" where
  "answer_inv c \<longleftrightarrow>
     cn_room c = None \<and>
     mset (concat (map answered (cn_out c))) + mset (map rq_request_id (cn_beside c)) = mset (concat (map owed (cn_frames c)))"

definition conn_measure :: "(('j, 's) connection \<times> ('j, 's) connection) set" where
  "conn_measure =
     measures [\<lambda>c. if cn_open c then 1 else 0, \<lambda>c. length (rd_data (cn_reader c)),
       \<lambda>c. 2 * length (cn_beside c) + cn_finished c, \<lambda>c. if cn_torn c then 0 else 1]"

section \<open>Frames as a framing\<close>

definition frame_ok :: "u32 \<Rightarrow> bytes \<Rightarrow> bool" where
  "frame_ok mx body \<longleftrightarrow> length body \<le> unat mx"

definition frame_bytes :: "bytes \<Rightarrow> bytes" where
  "frame_bytes body = u32_to_be (word_of_nat (length body)) @ body"

definition frame_decode :: "u32 \<Rightarrow> bytes \<Rightarrow> (bytes, frame_error) decoded" where
  "frame_decode mx bs =
     (case read_frame mx \<lparr>rd_data = bs, rd_fail = None\<rparr> of
        (Ok (Some body), rd) \<Rightarrow> Item body (rd_data rd)
      | (Ok None, rd) \<Rightarrow> Finished
      | (Err e, rd) \<Rightarrow> Damaged e)"

text \<open>Bodies written one after the other, and the frames a connection reads when nothing interrupts it.\<close>

fun write_frames :: "bytes list \<Rightarrow> u32 \<Rightarrow> frame_writer \<Rightarrow> (frame_error + unit) \<times> frame_writer" where
  "write_frames [] mx w = (Ok (), w)"
| "write_frames (b # bs) mx w =
     (case write_frame b mx w of (Err e, w1) \<Rightarrow> (Err e, w1) | (Ok _, w1) \<Rightarrow> write_frames bs mx w1)"

fun read_arms ::
  "'j json_lib \<Rightarrow> wire_client_message option pb_lib \<Rightarrow> ('j, 's) service \<Rightarrow> u32 \<Rightarrow> nat \<Rightarrow> ('j, 's) connection \<Rightarrow> ('j, 's) connection" where
  "read_arms js pb service mx 0 c = c"
| "read_arms js pb service mx (Suc n) c = read_arms js pb service mx n (read_arm js pb service mx c)"

lemma unat_frame_length: "frame_ok mx body \<Longrightarrow> unat (word_of_nat (length body) :: u32) = length body"
  using unsigned_less [of mx, where ?'a = nat] by (simp add: frame_ok_def unat_of_nat take_bit_nat_eq_self)

lemma frame_read_exact_plain [simp]:
  "frame_read_exact n \<lparr>rd_data = bs, rd_fail = None\<rparr> =
     (if length bs < n then Err UnexpectedEof else Ok (take n bs), \<lparr>rd_data = drop n bs, rd_fail = None\<rparr>)"
  by (simp add: frame_read_exact_def)

lemma read_frame_enc:
  assumes "frame_ok mx body"
  shows "read_frame mx \<lparr>rd_data = frame_bytes body @ rest, rd_fail = None\<rparr> =
    (Ok (Some body), \<lparr>rd_data = rest, rd_fail = None\<rparr>)"
proof -
  have "\<not> mx < (word_of_nat (length body) :: u32)"
    using assms unat_frame_length [OF assms] by (simp add: word_less_nat_alt frame_ok_def)
  then show ?thesis
    using unat_frame_length [OF assms]
    by (simp add: read_frame_def frame_bytes_def LENGTH_PREFIX_BYTES_def Let_def)
qed

lemma read_frame_nil: "read_frame mx \<lparr>rd_data = [], rd_fail = None\<rparr> = (Ok None, \<lparr>rd_data = [], rd_fail = None\<rparr>)"
  by (simp add: read_frame_def LENGTH_PREFIX_BYTES_def)

interpretation control_frames: framing "frame_ok mx" frame_bytes "frame_decode mx" for mx :: u32
proof unfold_locales
  show "frame_bytes body \<noteq> []" for body
    using length_u32_to_be [of "word_of_nat (length body)"] by (auto simp: frame_bytes_def simp del: length_u32_to_be)
qed (simp_all add: frame_decode_def read_frame_enc read_frame_nil)

lemma write_frame_ok:
  assumes "frame_ok mx body" and "wr_room w = None"
  shows "write_frame body mx w = (Ok (), w\<lparr>wr_data := wr_data w @ frame_bytes body\<rparr>)"
proof -
  have "\<not> mx < (word_of_nat (length body) :: u32)" "length body < 2 ^ 32"
    using assms(1) unat_frame_length [OF assms(1)] unsigned_less [of mx, where ?'a = nat] by (simp_all add: word_less_nat_alt frame_ok_def)
  then show ?thesis
    using assms(2) by (simp add: write_frame_def frame_write_all_def frame_bytes_def Let_def)
qed

lemma write_frames_ok:
  "list_all (frame_ok mx) bodies \<Longrightarrow> wr_room w = None \<Longrightarrow>
   write_frames bodies mx w = (Ok (), w\<lparr>wr_data := wr_data w @ concat (map frame_bytes bodies)\<rparr>)"
  by (induction bodies arbitrary: w) (simp_all add: write_frame_ok)

section \<open>Steps of a connection\<close>

lemma frame_read_exact_data:
  "frame_read_exact n rd = (r, rd') \<Longrightarrow>
   length (rd_data rd') \<le> length (rd_data rd) \<and> (\<not> isl r \<longrightarrow> length (rd_data rd') + n = length (rd_data rd))"
  by (auto simp: frame_read_exact_def read_full_def Let_def split: option.splits if_splits)

lemma read_frame_shorter:
  assumes "read_frame mx rd = (Ok (Some body), rd')"
  shows "length (rd_data rd') < length (rd_data rd)"
proof -
  obtain bs rd1 where one: "frame_read_exact LENGTH_PREFIX_BYTES rd = (Ok bs, rd1)"
    "frame_read_exact (unat (u32_from_be bs)) rd1 = (Ok body, rd')"
    using assms by (auto simp: read_frame_def Let_def split: prod.splits sum.splits io_kind.splits if_splits)
  then show ?thesis
    using frame_read_exact_data [OF one(1)] frame_read_exact_data [OF one(2)] by (simp add: LENGTH_PREFIX_BYTES_def)
qed

text \<open>What the parts of an arm leave alone.\<close>

lemma send_out_fields [simp]:
  "cn_reader (snd (send_out msg c)) = cn_reader c" "cn_open (snd (send_out msg c)) = cn_open c"
  "cn_torn (snd (send_out msg c)) = cn_torn c" "cn_beside (snd (send_out msg c)) = cn_beside c"
  "cn_finished (snd (send_out msg c)) = cn_finished c" "cn_frames (snd (send_out msg c)) = cn_frames c"
  by (simp_all add: send_out_def split: option.splits nat.splits)

lemma send_or_stop_fields:
  "cn_reader (send_or_stop msg c) = cn_reader c" "cn_open (send_or_stop msg c) \<Longrightarrow> cn_open c"
  "cn_frames (send_or_stop msg c) = cn_frames c" "cn_torn (send_or_stop msg c) = cn_torn c"
  by (simp_all add: send_or_stop_def send_out_def split: option.splits nat.splits)

lemma handle_on_connection_fields [simp]:
  "cn_reader (snd (handle_on_connection service request c)) = cn_reader c"
  "cn_open (snd (handle_on_connection service request c)) = cn_open c"
  "cn_torn (snd (handle_on_connection service request c)) = cn_torn c"
  "cn_out (snd (handle_on_connection service request c)) = cn_out c"
  "cn_room (snd (handle_on_connection service request c)) = cn_room c"
  "cn_beside (snd (handle_on_connection service request c)) = cn_beside c"
  "cn_finished (snd (handle_on_connection service request c)) = cn_finished c"
  "cn_frames (snd (handle_on_connection service request c)) = cn_frames c"
  by (simp_all add: handle_on_connection_def split: prod.splits)

lemma route_fields [simp]:
  "cn_reader (route_inbound_stream frame c) = cn_reader c" "cn_open (route_inbound_stream frame c) = cn_open c"
  "cn_out (route_inbound_stream frame c) = cn_out c" "cn_room (route_inbound_stream frame c) = cn_room c"
  "cn_beside (route_inbound_stream frame c) = cn_beside c" "cn_frames (route_inbound_stream frame c) = cn_frames c"
  "cn_torn (route_inbound_stream frame c) = cn_torn c"
  by (simp_all add: route_inbound_stream_def Let_def)

lemma handle_inbound_fields:
  "cn_reader (handle_inbound service inb c) = cn_reader c \<and> (cn_open (handle_inbound service inb c) \<longrightarrow> cn_open c) \<and>
   cn_frames (handle_inbound service inb c) = cn_frames c \<and> cn_torn (handle_inbound service inb c) = cn_torn c"
proof (cases inb)
  case (InRequest request)
  then show ?thesis
    using send_or_stop_fields [of "ServerResponse (fst (handle_on_connection service request c))"
        "snd (handle_on_connection service request c)"]
    by (simp add: handle_inbound_def case_prod_beta)
qed (simp_all add: handle_inbound_def send_or_stop_fields)

lemma note_frame_fields [simp]:
  "cn_reader (note_frame inb c) = cn_reader c" "cn_open (note_frame inb c) = cn_open c"
  "cn_room (note_frame inb c) = cn_room c" "cn_out (note_frame inb c) = cn_out c"
  "cn_beside (note_frame inb c) = cn_beside c" "cn_frames (note_frame inb c) = cn_frames c @ [inb]"
  "cn_torn (note_frame inb c) = cn_torn c"
  by (simp_all add: note_frame_def)

lemma read_arm_decreases:
  assumes "cn_open c"
  shows "(read_arm js pb service mx c, c) \<in> conn_measure"
proof (cases "cn_open (read_arm js pb service mx c)")
  case True
  then obtain body rd where r: "read_frame mx (cn_reader c) = (Ok (Some body), rd)"
    by (auto simp: read_arm_def split: prod.splits sum.splits option.splits frame_error.splits)
  then show ?thesis
    using True assms read_frame_shorter [OF r]
    by (simp add: conn_measure_def read_arm_def Let_def handle_inbound_fields)
next
  case False
  with assms show ?thesis
    by (simp add: conn_measure_def)
qed

lemma conn_step_decreases: "conn_step js pb service mx c c' \<Longrightarrow> (c', c) \<in> conn_measure"
proof (induction rule: conn_step.induct)
  case (frame_read c)
  then show ?case
    by (rule read_arm_decreases)
next
  case (beside_done i c)
  then show ?case
    by (simp add: conn_measure_def run_beside_def case_prod_beta)
next
  case (joined c k)
  then show ?case
    by (cases "k = 0") (auto simp: conn_measure_def cancel_read_def mid_frame_def)
next
  case (shutdown c)
  then show ?case
    by (simp add: conn_measure_def)
next
  case (torn_down c)
  then show ?case
    by (auto simp: conn_measure_def teardown_def)
qed

section \<open>Every frame gets its answer\<close>

lemma send_out_alive: "cn_room c = None \<Longrightarrow> send_out msg c = (True, c\<lparr>cn_out := cn_out c @ [msg]\<rparr>)"
  by (simp add: send_out_def)

lemma send_or_stop_alive: "cn_room c = None \<Longrightarrow> send_or_stop msg c = c\<lparr>cn_out := cn_out c @ [msg]\<rparr>"
  by (simp add: send_or_stop_def send_out_alive)

lemma echoes_response:
  "echoes service \<Longrightarrow> rs_request_id (fst (handle_on_connection service request c)) = rq_request_id request"
  by (simp add: echoes_def handle_on_connection_def case_prod_beta)

lemma answer_inv_inbound:
  assumes "echoes service" and "answer_inv c"
  shows "answer_inv (handle_inbound service inb (note_frame inb (c\<lparr>cn_reader := rd\<rparr>)))"
proof (cases inb)
  case (InRequest request)
  then show ?thesis
    using assms(2) echoes_response [OF assms(1)]
    by (simp add: answer_inv_def handle_inbound_def case_prod_beta send_or_stop_alive)
qed (use assms(2) in \<open>simp_all add: answer_inv_def handle_inbound_def send_or_stop_alive\<close>)

lemma answer_inv_read:
  assumes "echoes service" and "answer_inv c"
  shows "answer_inv (read_arm js pb service mx c)"
proof -
  obtain r rd where r: "read_frame mx (cn_reader c) = (r, rd)"
    by fastforce
  consider "\<exists>body. r = Ok (Some body)" | "r = Ok None" | "\<exists>len m. r = Err (TooLarge len m)" | "\<exists>e. r = Err (FrameIo e)"
    by (metis frame_error.exhaust option.exhaust sum.exhaust)
  then show ?thesis
  proof cases
    case 1
    then show ?thesis
      using answer_inv_inbound [OF assms] r by (auto simp: read_arm_def Let_def)
  next
    case 3
    then show ?thesis
      using assms(2) r by (auto simp: read_arm_def answer_inv_def send_out_alive too_large_response_def)
  qed (use assms(2) r in \<open>auto simp: read_arm_def answer_inv_def\<close>)
qed

lemma mset_remove_nth:
  assumes "i < length xs"
  shows "mset xs = add_mset (xs ! i) (mset (take i xs @ drop (Suc i) xs))"
proof -
  have "mset xs = mset (take i xs @ xs ! i # drop (Suc i) xs)"
    by (simp add: id_take_nth_drop [OF assms, symmetric])
  then show ?thesis
    by simp
qed

lemma answer_inv_beside:
  assumes "echoes service" and "answer_inv c" and "i < length (cn_beside c)"
  shows "answer_inv (run_beside service i c)"
  using assms(2) mset_remove_nth [OF assms(3)] echoes_response [OF assms(1), of "cn_beside c ! i" c]
  by (simp add: answer_inv_def run_beside_def case_prod_beta send_out_alive)

lemma answer_inv_step:
  assumes "conn_step js pb service mx c c'" and "echoes service" and "answer_inv c"
  shows "answer_inv c'"
  using assms
proof (induction rule: conn_step.induct)
  case (frame_read c)
  then show ?case
    by (simp add: answer_inv_read)
next
  case (beside_done i c)
  then show ?case
    by (simp add: answer_inv_beside)
qed (simp_all add: answer_inv_def teardown_def)

lemma answer_inv_reach:
  "conn_reach js pb service mx c0 c \<Longrightarrow> echoes service \<Longrightarrow> answer_inv c0 \<Longrightarrow> answer_inv c"
  by (induction rule: conn_reach.induct) (auto intro: answer_inv_step)

lemma read_arm_torn [simp]: "cn_torn (read_arm js pb service mx c) = cn_torn c"
  by (simp add: read_arm_def Let_def handle_inbound_fields split: prod.splits sum.splits option.splits frame_error.splits)

lemma torn_idle:
  assumes "conn_reach js pb service mx (connect rd s) c" and "cn_torn c"
  shows "cn_beside c = [] \<and> \<not> cn_open c"
  using assms
proof (induction rule: conn_reach.induct)
  case conn_start
  then show ?case
    by (simp add: connect_def)
next
  case (conn_next c c')
  from conn_next(2) show ?case
    using conn_next(3,4)
    by (cases rule: conn_step.cases) (auto simp: run_beside_def case_prod_beta teardown_def)
qed

section \<open>Reading what was written\<close>

lemma decode_inbound_encode:
  "json_ok js \<Longrightarrow> pb_ok pb (client_message_to_wire js m) \<Longrightarrow> decode_inbound js pb (encode_client js pb m) = inbound_of m"
  by (simp add: decode_inbound_def decode_client_def encode_client_def pb_ok_def wire_simps)

lemma handle_inbound_open: "cn_room c = None \<Longrightarrow> cn_open (handle_inbound service inb c) = cn_open c \<and> cn_room (handle_inbound service inb c) = None"
  by (cases inb) (simp_all add: handle_inbound_def case_prod_beta send_or_stop_alive)

lemma read_arm_frame:
  assumes "cn_reader c = \<lparr>rd_data = frame_bytes body @ rest, rd_fail = None\<rparr>" and "frame_ok mx body" and "cn_room c = None"
  shows "cn_reader (read_arm js pb service mx c) = \<lparr>rd_data = rest, rd_fail = None\<rparr>"
    and "cn_room (read_arm js pb service mx c) = None" and "cn_open (read_arm js pb service mx c) = cn_open c"
    and "cn_frames (read_arm js pb service mx c) = cn_frames c @ [decode_inbound js pb body]"
proof -
  let ?inb = "decode_inbound js pb body"
  let ?d = "note_frame ?inb (c\<lparr>cn_reader := \<lparr>rd_data = rest, rd_fail = None\<rparr>\<rparr>)"
  have arm: "read_arm js pb service mx c = handle_inbound service ?inb ?d"
    unfolding read_arm_def assms(1) read_frame_enc [OF assms(2)] by (simp add: Let_def)
  have d: "cn_room ?d = None"
    using assms(3) by simp
  note fields = handle_inbound_fields [of service ?inb ?d] handle_inbound_open [OF d, of service ?inb]
  show "cn_reader (read_arm js pb service mx c) = \<lparr>rd_data = rest, rd_fail = None\<rparr>"
    unfolding arm using fields by simp
  show "cn_room (read_arm js pb service mx c) = None"
    unfolding arm using fields by simp
  show "cn_open (read_arm js pb service mx c) = cn_open c"
    unfolding arm using fields by simp
  show "cn_frames (read_arm js pb service mx c) = cn_frames c @ [decode_inbound js pb body]"
    unfolding arm using fields by simp
qed

lemma read_arms_frames:
  assumes "list_all (frame_ok mx) bodies" and "cn_reader c = \<lparr>rd_data = concat (map frame_bytes bodies), rd_fail = None\<rparr>"
    and "cn_room c = None"
  shows "cn_frames (read_arms js pb service mx (Suc (length bodies)) c) = cn_frames c @ map (decode_inbound js pb) bodies \<and>
    \<not> cn_open (read_arms js pb service mx (Suc (length bodies)) c)"
  using assms
proof (induction bodies arbitrary: c)
  case Nil
  then show ?case
    by (simp add: read_arm_def read_frame_nil)
next
  case (Cons body bodies)
  then show ?case
    using read_arm_frame [of c body "concat (map frame_bytes bodies)" mx js pb service]
      Cons.IH [of "read_arm js pb service mx c"]
    by simp
qed

section \<open>A sample connection\<close>

text \<open>A client that opens a forward with each frame, and a service that accepts every request.\<close>

definition sample_js :: "string json_lib" where
  "sample_js = \<lparr>js_to_string = (\<lambda>v. v), js_from_str = Some\<rparr>"

definition sample_request :: "string control_request" where
  "sample_request = control_request_new ''r1'' (CmdOpenForward \<lparr>of_host = ''db'', of_port = 80, of_execution_id = None,
     of_protocol = Tcp, of_dedicated = False, of_owner_session_id = None\<rparr>)"

definition sample_pb :: "wire_client_message option pb_lib" where
  "sample_pb = \<lparr>pb_encode = (\<lambda>_. ''fwd!''), pb_decode = (\<lambda>_. Ok (client_message_to_wire sample_js (ClientRequest sample_request)))\<rparr>"

definition sample_service :: "(string, unit) service" where
  "sample_service request s channels closers = (response_accepted (rq_request_id request), s, channels, closers)"

abbreviation sample_step :: "(string, unit) connection \<Rightarrow> (string, unit) connection \<Rightarrow> bool" where
  "sample_step \<equiv> conn_step sample_js sample_pb sample_service 1024"

abbreviation sample_reach :: "(string, unit) connection \<Rightarrow> (string, unit) connection \<Rightarrow> bool" where
  "sample_reach \<equiv> conn_reach sample_js sample_pb sample_service 1024"

definition sample_conn :: "bytes \<Rightarrow> (string, unit) connection" where
  "sample_conn bs = connect \<lparr>rd_data = bs, rd_fail = None\<rparr> ()"

lemma sample_laws: "json_ok sample_js" "pb_ok sample_pb (client_message_to_wire sample_js (ClientRequest sample_request))"
  "echoes sample_service"
  by (simp_all add: json_ok_def sample_js_def pb_ok_def sample_pb_def echoes_def sample_service_def response_accepted_def
      response_ok_def)

lemma sample_decode: "decode_inbound sample_js sample_pb body = InRequest sample_request"
  using sample_laws(1)
  by (simp add: decode_inbound_def decode_client_def sample_pb_def wire_simps inbound_of_def sample_request_def control_request_new_def)

text \<open>One frame read and its request answered.\<close>

lemma sample_answered:
  "\<exists>c. sample_reach (sample_conn (frame_bytes ''fwd!'' @ rest)) c \<and> cn_reader c = \<lparr>rd_data = rest, rd_fail = None\<rparr> \<and> cn_open c \<and>
    cn_room c = None \<and> cn_finished c = 1 \<and> cn_beside c = [] \<and> \<not> cn_torn c \<and> cn_frames c = [InRequest sample_request] \<and>
    cn_out c = [ServerResponse (response_accepted ''r1'')]"
proof -
  let ?c0 = "sample_conn (frame_bytes ''fwd!'' @ rest)"
  let ?c1 = "read_arm sample_js sample_pb sample_service 1024 ?c0"
  let ?c2 = "run_beside sample_service 0 ?c1"
  have fits: "frame_ok 1024 ''fwd!''"
    by (simp add: frame_ok_def)
  have c1: "?c1 = ?c0\<lparr>cn_reader := \<lparr>rd_data = rest, rd_fail = None\<rparr>, cn_frames := [InRequest sample_request],
      cn_beside := [sample_request]\<rparr>"
    by (simp add: read_arm_def sample_conn_def connect_def read_frame_enc [OF fits] sample_decode handle_inbound_def
        note_frame_def Let_def) (simp add: sample_request_def control_request_new_def)
  have "sample_reach ?c0 ?c1"
    by (rule conn_next [OF conn_start frame_read]) (simp add: sample_conn_def connect_def)
  then have "sample_reach ?c0 ?c2"
    by (rule conn_next [OF _ beside_done]) (simp add: c1)
  moreover have "cn_reader ?c2 = \<lparr>rd_data = rest, rd_fail = None\<rparr> \<and> cn_open ?c2 \<and> cn_room ?c2 = None \<and> cn_finished ?c2 = 1 \<and>
      cn_beside ?c2 = [] \<and> \<not> cn_torn ?c2 \<and> cn_frames ?c2 = [InRequest sample_request] \<and>
      cn_out ?c2 = [ServerResponse (response_accepted ''r1'')]"
    unfolding c1
    by (simp add: run_beside_def handle_on_connection_def sample_service_def send_out_def sample_conn_def connect_def
        sample_request_def control_request_new_def)
  ultimately show ?thesis
    by blast
qed

text \<open>
  A read that the loop cancels loses the bytes it had taken. Two identical valid frames: the first one's
  task finishes when two bytes of the second have arrived, the rest of the second frame is read as a new
  one, and the connection is closed for a frame of 288,375 bytes nobody sent.
\<close>

lemma cancelled_read_desyncs:
  "\<exists>c. sample_reach (sample_conn (frame_bytes ''fwd!'' @ frame_bytes ''fwd!'')) c \<and> \<not> cn_open c \<and>
    cn_out c = [ServerResponse (response_accepted ''r1''), ServerResponse (too_large_response 288375 1024)]"
proof -
  obtain c where c: "sample_reach (sample_conn (frame_bytes ''fwd!'' @ frame_bytes ''fwd!'')) c"
    "cn_reader c = \<lparr>rd_data = frame_bytes ''fwd!'', rd_fail = None\<rparr>" "cn_open c" "cn_room c = None" "cn_finished c = 1"
    "cn_out c = [ServerResponse (response_accepted ''r1'')]"
    using sample_answered [of "frame_bytes ''fwd!''"] by blast
  have bytes: "frame_bytes ''fwd!'' = [CHR 0x00, CHR 0x00, CHR 0x00, CHR 0x04, CHR ''f'', CHR ''w'', CHR ''d'', CHR ''!'']"
    by code_simp
  let ?d = "c\<lparr>cn_finished := cn_finished c - 1, cn_reader := cancel_read 2 (cn_reader c)\<rparr>"
  have "sample_step c ?d"
    by (rule joined) (simp_all add: c mid_frame_def bytes LENGTH_PREFIX_BYTES_def)
  from conn_next [OF c(1) this] have "sample_reach (sample_conn (frame_bytes ''fwd!'' @ frame_bytes ''fwd!''))
      (read_arm sample_js sample_pb sample_service 1024 ?d)"
    by (rule conn_next [OF _ frame_read]) (simp add: c)
  moreover have "read_frame 1024 (cancel_read 2 (cn_reader c)) =
      (Err (TooLarge 288375 1024), \<lparr>rd_data = ''d!'', rd_fail = None\<rparr>)"
    unfolding c(2) bytes by code_simp
  ultimately show ?thesis
    using c(4,6) by (intro exI [of _ "read_arm sample_js sample_pb sample_service 1024 ?d"])
      (simp add: read_arm_def send_out_def note_frame_def)
qed

section \<open>Properties\<close>


text \<open>
  C9. Every request is answered exactly once: when a connection has been torn down while its writer was
  taking messages, the request identifiers of the responses it was given are those of the frames that
  were read, each as often as it was read, whatever order the forwards finished in.
\<close>

theorem answered_exactly_once:
  assumes "echoes service" and "conn_reach js pb service mx (connect rd s) c" and "cn_torn c"
  shows "mset (concat (map answered (cn_out c))) = mset (concat (map owed (cn_frames c)))"
proof -
  have "answer_inv (connect rd s)"
    by (simp add: answer_inv_def connect_def)
  from answer_inv_reach [OF assms(2,1) this] torn_idle [OF assms(2,3)] show ?thesis
    by (simp add: answer_inv_def)
qed

theorem answered_exactly_once_witness:
  "\<exists>c. sample_reach (sample_conn (frame_bytes ''fwd!'')) c \<and> cn_frames c = [InRequest sample_request] \<and>
    mset (concat (map answered (cn_out c))) = {#''r1''#}"
proof -
  obtain c where c: "sample_reach (sample_conn (frame_bytes ''fwd!'')) c" "cn_open c" "cn_beside c = []" "\<not> cn_torn c"
    "cn_frames c = [InRequest sample_request]"
    using sample_answered [of "[]"] by auto
  let ?d = "teardown (c\<lparr>cn_open := False\<rparr>)"
  have reach: "sample_reach (sample_conn (frame_bytes ''fwd!'')) ?d"
    by (rule conn_next [OF conn_next [OF c(1) shutdown [OF c(2)]] torn_down]) (simp_all add: c)
  have "mset (concat (map answered (cn_out ?d))) = mset (concat (map owed (cn_frames ?d)))"
    by (rule answered_exactly_once [OF sample_laws(3) reach [unfolded sample_conn_def]]) (simp add: teardown_def)
  then show ?thesis
    using reach c(5) by (intro exI [of _ ?d]) (simp add: teardown_def sample_request_def control_request_new_def)
qed



end
