(* ===== verification/Position.thy ===== *)
theory Position
  imports Rust_Str Disk_Model
begin

text \<open>
  The positions a capture answer carries: \<open>crates/sealant-capture/src/position.rs\<close>.

  \<open>next_generation\<close> counts the boots of a disk in a file of the staging directory, over the directory of
  theory \<open>Disk_Model\<close>, whose calls may each fail; an \<open>observer\<close> is the state of one boot. A boot's random
  identifier is an argument. A daemon that is killed inside \<open>next_generation\<close> leaves the disk as one whose
  call failed there does, so the theorem, which is about every pattern of failures, covers both.

  The theorem: the positions of all answers of all boots of one disk, in the order they were given, are
  in the order that consumers derive from them, except those of boots that could not count themselves,
  which have generation 0 and are ordered against nothing.
\<close>

definition BOOT_GENERATION_FILE :: string where
  "BOOT_GENERATION_FILE = ''boot-generation''"

text \<open>\<open>path.with_extension("tmp")\<close>.\<close>

definition BOOT_GENERATION_TMP :: string where
  "BOOT_GENERATION_TMP = ''boot-generation.tmp''"

record position =
  ps_boot_id :: string
  ps_boot_generation :: nat
  ps_observation :: u64

record observer =
  ob_boot_id :: string
  ob_boot_generation :: nat
  ob_last :: u64

text \<open>
  \<open>read_to_string\<close>: the whole file, or the error the device gives before its end. A file that is not
  UTF-8, which the call refuses, is refused here by the parser: both are an error of \<open>next_generation\<close>.
\<close>

definition read_to_string :: "nat \<Rightarrow> disk \<Rightarrow> (io_error + bytes) \<times> disk" where
  "read_to_string ino d =
     (case file_reader ino d of
        (rd, d1) \<Rightarrow>
          (case rd_fail rd of
             Some k \<Rightarrow> if k \<le> length (rd_data rd) then (Err Eio, d1) else (Ok (rd_data rd), d1)
           | None \<Rightarrow> (Ok (rd_data rd), d1)))"

text \<open>\<open>io::Error::other\<close> is \<open>InvalidData\<close>; \<open>Observer::open\<close> only asks whether there is an error.\<close>

definition previous_generation :: "disk \<Rightarrow> (io_error + nat) \<times> disk" where
  "previous_generation d =
     (case open_existing BOOT_GENERATION_FILE d of
        (Ok ino, d1) \<Rightarrow>
          (case read_to_string ino d1 of
             (Ok text, d2) \<Rightarrow> (case parse_u64 (trim text) of Some n \<Rightarrow> (Ok n, d2) | None \<Rightarrow> (Err InvalidData, d2))
           | (Err e, d2) \<Rightarrow> (Err e, d2))
      | (Err e, d1) \<Rightarrow> (if e = NotFound then Ok 0 else Err e, d1))"

definition write_tmp :: "nat \<Rightarrow> disk \<Rightarrow> (io_error + unit) \<times> disk" where
  "write_tmp n d =
     (case open_truncate BOOT_GENERATION_TMP d of
        (Err e, d1) \<Rightarrow> (Err e, d1)
      | (Ok ino, d1) \<Rightarrow>
          (case append_all ino (decimal n) d1 of
             (Err e, d2) \<Rightarrow> (Err e, d2)
           | (Ok _, d2) \<Rightarrow> plain_call d2))"

text \<open>The rename, then the directory opened and synced.\<close>

definition swap_in :: "disk \<Rightarrow> (io_error + unit) \<times> disk" where
  "swap_in d =
     (case rename_file BOOT_GENERATION_TMP BOOT_GENERATION_FILE d of
        (Err e, d1) \<Rightarrow> (Err e, d1)
      | (Ok _, d1) \<Rightarrow> (case plain_call d1 of (Err e, d2) \<Rightarrow> (Err e, d2) | (Ok _, d2) \<Rightarrow> plain_call d2))"

definition next_generation :: "disk \<Rightarrow> (io_error + nat) \<times> disk" where
  "next_generation d =
     (case previous_generation d of
        (Err e, d1) \<Rightarrow> (Err e, d1)
      | (Ok previous, d1) \<Rightarrow>
          if previous = 2 ^ 64 - 1 then (Err InvalidData, d1)
          else case plain_call d1 of
            (Err e, d2) \<Rightarrow> (Err e, d2)
          | (Ok _, d2) \<Rightarrow>
              (case write_tmp (previous + 1) d2 of
                 (Err e, d3) \<Rightarrow> (Err e, d3)
               | (Ok _, d3) \<Rightarrow>
                   (case swap_in d3 of (Err e, d4) \<Rightarrow> (Err e, d4) | (Ok _, d4) \<Rightarrow> (Ok (previous + 1), d4))))"

definition observer_open :: "string \<Rightarrow> disk \<Rightarrow> observer \<times> disk" where
  "observer_open boot_id d =
     (case next_generation d of
        (res, d1) \<Rightarrow>
          (\<lparr>ob_boot_id = boot_id, ob_boot_generation = (case res of Ok g \<Rightarrow> g | Err _ \<Rightarrow> 0), ob_last = 0\<rparr>, d1))"

text \<open>\<open>Observer::observe\<close>: the next position and the observer after it.\<close>

definition take_position :: "observer \<Rightarrow> position \<times> observer" where
  "take_position ob =
     (let n = ob_last ob + 1
      in (\<lparr>ps_boot_id = ob_boot_id ob, ps_boot_generation = ob_boot_generation ob, ps_observation = n\<rparr>,
          ob\<lparr>ob_last := n\<rparr>))"

section \<open>Boots of one disk\<close>

fun take_positions :: "nat \<Rightarrow> observer \<Rightarrow> position list" where
  "take_positions 0 ob = []"
| "take_positions (Suc k) ob = (let (p, ob1) = take_position ob in p # take_positions k ob1)"

text \<open>Boots one after the other, each with its identifier and the number of its answers.\<close>

fun run_boots :: "(string \<times> nat) list \<Rightarrow> disk \<Rightarrow> position list" where
  "run_boots [] d = []"
| "run_boots ((boot_id, k) # boots) d =
     (let (ob, d1) = observer_open boot_id d in take_positions k ob @ run_boots boots d1)"

text \<open>
  The order of the consumers, from the head of the file: within one boot by the observation; between
  two boots by their generations, when both have one; anything else is incomparable.
\<close>

definition precedes :: "position \<Rightarrow> position \<Rightarrow> bool" where
  "precedes p q \<longleftrightarrow>
     (if ps_boot_id p = ps_boot_id q then ps_observation p < ps_observation q
      else 0 < ps_boot_generation p \<and> 0 < ps_boot_generation q \<and> ps_boot_generation p < ps_boot_generation q)"

text \<open>The two positions can be compared at all.\<close>

definition comparable :: "position \<Rightarrow> position \<Rightarrow> bool" where
  "comparable p q \<longleftrightarrow> ps_boot_id p = ps_boot_id q \<or> 0 < ps_boot_generation p \<and> 0 < ps_boot_generation q"

text \<open>What holds of a position and one given after it.\<close>

definition in_order :: "position \<Rightarrow> position \<Rightarrow> bool" where
  "in_order p q \<longleftrightarrow> (comparable p q \<longrightarrow> precedes p q) \<and> \<not> precedes q p"

definition file_content :: "disk \<Rightarrow> string \<Rightarrow> bytes option" where
  "file_content d name = map_option (dk_data d) (dk_lookup d name)"

text \<open>The count the disk holds: none when the file does not hold a number.\<close>

definition count_of :: "disk \<Rightarrow> nat option" where
  "count_of d = (case file_content d BOOT_GENERATION_FILE of None \<Rightarrow> Some 0 | Some text \<Rightarrow> parse_u64 (trim text))"

text \<open>Everything but the temporary file is as it was.\<close>

definition only_tmp :: "disk \<Rightarrow> disk \<Rightarrow> bool" where
  "only_tmp d d' \<longleftrightarrow> disk_ok d' \<and> (\<forall>n. n \<noteq> BOOT_GENERATION_TMP \<longrightarrow> file_content d' n = file_content d n)"

text \<open>Three boots; the second cannot rename its count into place.\<close>

definition boots_disk :: disk where
  "boots_disk = \<lparr>dk_dir = [], dk_data = (\<lambda>_. []), dk_next = 0,
     dk_faults = replicate 8 None @ replicate 6 None @ [Some 0]\<rparr>"

section \<open>Calls that leave the count alone\<close>

lemma names_differ [simp]: "BOOT_GENERATION_FILE \<noteq> BOOT_GENERATION_TMP" "BOOT_GENERATION_TMP \<noteq> BOOT_GENERATION_FILE"
  by (simp_all add: BOOT_GENERATION_FILE_def BOOT_GENERATION_TMP_def)

lemma only_tmp_trans [trans]: "only_tmp a b \<Longrightarrow> only_tmp b c \<Longrightarrow> only_tmp a c"
  by (simp add: only_tmp_def)

lemma only_tmp_count: "only_tmp d d' \<Longrightarrow> count_of d' = count_of d"
  by (simp add: only_tmp_def count_of_def)

lemma io_call_only:
  assumes "disk_ok d" and "io_call d = (f, d1)"
  shows "only_tmp d d1" and "file_content d1 = file_content d" and "disk_ok d1"
proof -
  have "dk_dir d1 = dk_dir d" "dk_data d1 = dk_data d" "dk_next d1 = dk_next d"
    using io_call_frame [OF assms(2)] by blast+
  then show "only_tmp d d1" "file_content d1 = file_content d" "disk_ok d1"
    using assms(1) by (simp_all add: only_tmp_def file_content_def [abs_def] dk_lookup_def disk_ok_def)
qed

lemma plain_call_only: "disk_ok d \<Longrightarrow> plain_call d = (res, d1) \<Longrightarrow> only_tmp d d1"
  by (auto simp: plain_call_def split: prod.splits option.splits intro: io_call_only)

lemma previous_generation_only:
  assumes "disk_ok d" and "previous_generation d = (res, d1)"
  shows "only_tmp d d1 \<and> (\<forall>n. res = Ok n \<longrightarrow> count_of d = Some n)"
proof -
  obtain f d0 where io: "io_call d = (f, d0)"
    by fastforce
  note s0 = io_call_only [OF assms(1) io]
  have count: "count_of d = count_of d0"
    using s0(1) by (simp add: only_tmp_count)
  show ?thesis
  proof (cases "f = None \<and> dk_lookup d0 BOOT_GENERATION_FILE \<noteq> None")
    case False
    then show ?thesis
      unfolding count using assms(2) io s0(1)
      by (auto simp: previous_generation_def open_existing_def count_of_def file_content_def split: option.splits)
  next
    case True
    then obtain ino where ino: "dk_lookup d0 BOOT_GENERATION_FILE = Some ino" and f: "f = None"
      by blast
    obtain g d2 where io2: "io_call d0 = (g, d2)"
      by fastforce
    note s2 = io_call_only [OF s0(3) io2]
    have open_ok: "open_existing BOOT_GENERATION_FILE d = (Ok ino, d0)"
      using io f ino by (simp add: open_existing_def)
    have "count_of d = parse_u64 (trim (dk_data d2 ino))"
      unfolding count using ino io_call_frame [OF io2] by (simp add: count_of_def file_content_def)
    then show ?thesis
      using assms(2) open_ok io2 only_tmp_trans [OF s0(1) s2(1)]
      by (auto simp: previous_generation_def read_to_string_def file_reader_def split: option.splits if_splits)
  qed
qed

lemma content_data_other:
  assumes "disk_ok d" and "dk_lookup d n = Some ino" and "m \<noteq> n"
  shows "file_content (d\<lparr>dk_data := (dk_data d)(ino := bs)\<rparr>) m = file_content d m"
  using assms dk_lookup_inj [OF assms(1,2), of m] by (cases "dk_lookup d m") (auto simp: file_content_def)

lemma open_create_only:
  assumes "disk_ok d" and "open_create BOOT_GENERATION_TMP d = (res, d1)"
  shows "only_tmp d d1 \<and> (\<forall>ino. res = Ok ino \<longrightarrow> dk_lookup d1 BOOT_GENERATION_TMP = Some ino)"
proof -
  obtain f d0 where io: "io_call d = (f, d0)"
    by fastforce
  note s0 = io_call_only [OF assms(1) io]
  show ?thesis
  proof (cases "f = None \<and> dk_lookup d0 BOOT_GENERATION_TMP = None")
    case False
    then show ?thesis
      using assms(2) io s0(1) by (auto simp: open_create_def split: option.splits)
  next
    case True
    let ?d = "d0\<lparr>dk_dir := AList.update BOOT_GENERATION_TMP (dk_next d0) (dk_dir d0),
      dk_data := (dk_data d0)(dk_next d0 := []), dk_next := Suc (dk_next d0)\<rparr>"
    have d1: "res = Ok (dk_next d0)" "d1 = ?d"
      using True assms(2) io by (auto simp: open_create_def fresh_file_def)
    have ok: "disk_ok ?d"
      by (rule disk_ok_update [OF s0(3) fresh_not_used [OF s0(3)]]) simp_all
    have look: "dk_lookup ?d = (dk_lookup d0)(BOOT_GENERATION_TMP \<mapsto> dk_next d0)"
      by (simp add: dk_lookup_def AList.update_conv' fun_eq_iff)
    have "file_content ?d n = file_content d0 n" if "n \<noteq> BOOT_GENERATION_TMP" for n
      using that dk_lookup_fresh [OF s0(3), of n] by (cases "dk_lookup d0 n") (auto simp: file_content_def look)
    then show ?thesis
      using d1 ok look s0(2) by (simp add: only_tmp_def)
  qed
qed

lemma write_data_only:
  assumes "disk_ok d" and "dk_lookup d BOOT_GENERATION_TMP = Some ino"
  shows "only_tmp d (d\<lparr>dk_data := (dk_data d)(ino := bs)\<rparr>)"
  using assms content_data_other [OF assms] by (simp add: only_tmp_def)

lemma open_truncate_only:
  assumes "disk_ok d" and "open_truncate BOOT_GENERATION_TMP d = (res, d1)"
  shows "only_tmp d d1 \<and>
    (\<forall>ino. res = Ok ino \<longrightarrow> dk_lookup d1 BOOT_GENERATION_TMP = Some ino \<and> dk_data d1 ino = [])"
proof -
  obtain r d0 where cr: "open_create BOOT_GENERATION_TMP d = (r, d0)"
    by fastforce
  note c = open_create_only [OF assms(1) cr]
  show ?thesis
  proof (cases r)
    case (Inr ino)
    with c have "only_tmp d0 (d0\<lparr>dk_data := (dk_data d0)(ino := [])\<rparr>)"
      by (intro write_data_only) (simp_all add: only_tmp_def)
    with c Inr assms(2) cr show ?thesis
      by (auto simp: open_truncate_def intro: only_tmp_trans)
  qed (use c assms(2) cr in \<open>auto simp: open_truncate_def\<close>)
qed

lemma append_all_only:
  assumes "disk_ok d" and "dk_lookup d BOOT_GENERATION_TMP = Some ino" and "append_all ino bs d = (res, d1)"
  shows "only_tmp d d1 \<and>
    (res = Ok () \<longrightarrow> dk_lookup d1 BOOT_GENERATION_TMP = Some ino \<and> dk_data d1 ino = dk_data d ino @ bs)"
proof -
  obtain f d0 where io: "io_call d = (f, d0)"
    by fastforce
  note s0 = io_call_only [OF assms(1) io]
  have look: "dk_lookup d0 BOOT_GENERATION_TMP = Some ino"
    using assms(2) io_call_frame [OF io] by (simp add: dk_lookup_def)
  have "only_tmp d (d0\<lparr>dk_data := (dk_data d0)(ino := x)\<rparr>)" for x
    by (rule only_tmp_trans [OF s0(1) write_data_only [OF s0(3) look]])
  then show ?thesis
    using assms(3) io look io_call_frame [OF io] by (cases f) (auto simp: append_all_def)
qed

lemma write_tmp_only:
  assumes "disk_ok d" and "write_tmp n d = (res, d1)"
  shows "only_tmp d d1 \<and> (res = Ok () \<longrightarrow> file_content d1 BOOT_GENERATION_TMP = Some (decimal n))"
proof -
  obtain r1 e1 where o: "open_truncate BOOT_GENERATION_TMP d = (r1, e1)"
    by fastforce
  note so = open_truncate_only [OF assms(1) o]
  show ?thesis
  proof (cases r1)
    case (Inr ino)
    obtain r2 e2 where ap: "append_all ino (decimal n) e1 = (r2, e2)"
      by fastforce
    have ok1: "disk_ok e1" "dk_lookup e1 BOOT_GENERATION_TMP = Some ino" "dk_data e1 ino = []"
      using so Inr by (simp_all add: only_tmp_def)
    note sa = append_all_only [OF ok1(1,2) ap]
    have ok2: "only_tmp d e2" "disk_ok e2"
      using so sa only_tmp_trans by (auto simp: only_tmp_def)
    obtain f e3 where io: "io_call e2 = (f, e3)"
      by fastforce
    note s3 = io_call_only [OF ok2(2) io]
    have "file_content e2 BOOT_GENERATION_TMP = Some (decimal n)" if "r2 = Ok ()"
      using sa that ok1(3) by (simp add: file_content_def)
    then show ?thesis
      using assms(2) o Inr ap io ok2(1) only_tmp_trans [OF ok2(1) s3(1)] s3(2)
      by (auto simp: write_tmp_def plain_call_def split: sum.splits option.splits)
  qed (use so assms(2) o in \<open>auto simp: write_tmp_def\<close>)
qed

section \<open>The count only grows\<close>

lemma rename_counts:
  assumes "disk_ok d" and "rename_file BOOT_GENERATION_TMP BOOT_GENERATION_FILE d = (res, d1)"
    and "file_content d BOOT_GENERATION_TMP = Some text"
  shows "disk_ok d1 \<and> (if res = Ok () then file_content d1 BOOT_GENERATION_FILE = Some text else only_tmp d d1)"
proof -
  obtain ino where ino: "dk_lookup d BOOT_GENERATION_TMP = Some ino" "dk_data d ino = text"
    using assms(3) by (auto simp: file_content_def)
  show ?thesis
  proof (cases "res = Ok ()")
    case True
    then show ?thesis
      using rename_staged [OF assms(1) _ ino(1) names_differ(2)] assms(2) ino(2) by (simp add: file_content_def)
  next
    case False
    obtain f d0 where io: "io_call d = (f, d0)"
      by fastforce
    then have "only_tmp d d0" "disk_ok d0"
      using io_call_only [OF assms(1) io] by blast+
    then show ?thesis
      using False assms(2) io by (auto simp: rename_file_def split: option.splits)
  qed
qed

lemma count_of_bound: "count_of d = Some n \<Longrightarrow> n \<le> 2 ^ 64 - 1"
  by (auto simp: count_of_def split: option.splits dest: parse_u64_bound)

lemma plain_call_counts:
  "disk_ok d \<Longrightarrow> plain_call d = (res, d1) \<Longrightarrow> disk_ok d1 \<and> count_of d1 = count_of d"
  using plain_call_only only_tmp_count by (auto simp: only_tmp_def)

lemma swap_in_counts:
  assumes "disk_ok d" and "swap_in d = (res, d1)" and "file_content d BOOT_GENERATION_TMP = Some (decimal n)"
    and "n \<le> 2 ^ 64 - 1"
  shows "disk_ok d1 \<and> (count_of d1 = Some n \<or> res \<noteq> Ok () \<and> count_of d1 = count_of d)"
proof -
  obtain r1 e1 where rn: "rename_file BOOT_GENERATION_TMP BOOT_GENERATION_FILE d = (r1, e1)"
    by fastforce
  note sr = rename_counts [OF assms(1) rn assms(3)]
  show ?thesis
  proof (cases "r1 = Ok ()")
    case False
    then show ?thesis
      using assms(2) rn sr by (auto simp: swap_in_def only_tmp_count split: sum.splits)
  next
    case True
    then have e1: "disk_ok e1" "count_of e1 = Some n"
      using sr assms(4) by (simp_all add: count_of_def trim_decimal parse_u64_def parse_unsigned_decimal)
    obtain r2 e2 where c2: "plain_call e1 = (r2, e2)"
      by fastforce
    note s2 = plain_call_counts [OF e1(1) c2]
    show ?thesis
      using assms(2) rn True c2 s2 e1(2) plain_call_counts [of e2 res d1] by (auto simp: swap_in_def split: sum.splits)
  qed
qed

text \<open>Whatever fails, the count stays or grows by one; the generation returned is the new count.\<close>

lemma next_generation_count:
  assumes "disk_ok d" and "next_generation d = (res, d1)"
  shows "disk_ok d1 \<and>
    (count_of d1 = count_of d \<and> (\<forall>g. res \<noteq> Ok g) \<or>
     (\<exists>n. count_of d = Some n \<and> count_of d1 = Some (n + 1) \<and> (\<forall>g. res = Ok g \<longrightarrow> g = n + 1)))"
    (is "?goal res d1")
proof -
  have unchanged: "?goal (Err e) d'" if "only_tmp d d'" for e d'
    using that by (auto simp: only_tmp_count only_tmp_def)
  obtain r1 e1 where p: "previous_generation d = (r1, e1)"
    by fastforce
  note sp = previous_generation_only [OF assms(1) p]
  show ?thesis
  proof (cases "\<exists>n. r1 = Ok n \<and> n \<noteq> 2 ^ 64 - 1")
    case False
    then obtain e where "res = Err e" "d1 = e1"
      using assms(2) p by (auto simp: next_generation_def split: sum.splits if_splits)
    with unchanged sp show ?thesis
      by blast
  next
    case True
    then obtain n where r1: "r1 = Ok n" and n: "n \<noteq> 2 ^ 64 - 1" and count: "count_of d = Some n"
      using sp by blast
    obtain r2 e2 where c: "plain_call e1 = (r2, e2)"
      by fastforce
    obtain r3 e3 where w: "write_tmp (n + 1) e2 = (r3, e3)"
      by fastforce
    obtain r4 e4 where sw: "swap_in e3 = (r4, e4)"
      by fastforce
    have o2: "only_tmp d e2"
      using sp plain_call_only [OF _ c] only_tmp_trans by (auto simp: only_tmp_def)
    then have o3: "only_tmp d e3" "r3 = Ok () \<longrightarrow> file_content e3 BOOT_GENERATION_TMP = Some (decimal (n + 1))"
      using write_tmp_only [OF _ w] only_tmp_trans by (auto simp: only_tmp_def)
    show ?thesis
    proof (cases "r2 = Ok () \<and> r3 = Ok ()")
      case False
      then have "\<exists>e. res = Err e \<and> (d1 = e2 \<or> d1 = e3)"
        using assms(2) p r1 n c w by (auto simp: next_generation_def split: sum.splits)
      with unchanged [OF o2] unchanged [OF o3(1)] show ?thesis
        by blast
    next
      case True
      have "n + 1 \<le> 2 ^ 64 - 1"
        using count n count_of_bound by force
      then have s4: "disk_ok e4 \<and> (count_of e4 = Some (n + 1) \<or> r4 \<noteq> Ok () \<and> count_of e4 = Some n)"
        using swap_in_counts [OF _ sw] o3 True only_tmp_count [OF o3(1)] count by (auto simp: only_tmp_def)
      have "(res, d1) = (case r4 of Err e \<Rightarrow> (Err e, e4) | Ok _ \<Rightarrow> (Ok (n + 1), e4))"
        using assms(2) p r1 n c w sw True by (simp add: next_generation_def split: sum.splits)
      with s4 count show ?thesis
        by (auto split: sum.splits)
    qed
  qed
qed

section \<open>The order of the positions\<close>

lemma take_positions_boot:
  "p \<in> set (take_positions k ob) \<Longrightarrow> ps_boot_id p = ob_boot_id ob \<and> ps_boot_generation p = ob_boot_generation ob"
proof (induction k arbitrary: ob)
  case (Suc k)
  let ?ob = "ob\<lparr>ob_last := ob_last ob + 1\<rparr>"
  show ?case
  proof (cases "p \<in> set (take_positions k ?ob)")
    case True
    show ?thesis
      using Suc.IH [OF True] by simp
  qed (use Suc.prems in \<open>simp add: take_position_def Let_def\<close>)
qed simp

lemma take_positions_above:
  assumes "p \<in> set (take_positions k ob)" and "unat (ob_last ob) + k < 2 ^ 64"
  shows "ob_last ob < ps_observation p"
  using assms
proof (induction k arbitrary: ob)
  case (Suc k)
  have step: "unat (ob_last ob + 1) = unat (ob_last ob) + 1"
    using Suc.prems(2) by (simp add: unat_word_ariths)
  then have "ob_last ob < ob_last ob + 1"
    by (simp add: word_less_nat_alt)
  moreover have "ob_last ob + 1 < ps_observation p"
    if "p \<in> set (take_positions k (ob\<lparr>ob_last := ob_last ob + 1\<rparr>))"
    using Suc.IH [OF that] Suc.prems(2) step by simp
  ultimately show ?case
    using Suc.prems(1) by (auto simp: take_position_def Let_def)
qed simp

lemma take_positions_in_order:
  "unat (ob_last ob) + k < 2 ^ 64 \<Longrightarrow> sorted_wrt in_order (take_positions k ob)"
proof (induction k arbitrary: ob)
  case (Suc k)
  let ?ob = "ob\<lparr>ob_last := ob_last ob + 1\<rparr>"
  have step: "unat (ob_last ?ob) + k < 2 ^ 64"
    using Suc.prems by (simp add: unat_word_ariths)
  let ?p = "\<lparr>ps_boot_id = ob_boot_id ob, ps_boot_generation = ob_boot_generation ob, ps_observation = ob_last ob + 1\<rparr>"
  have "in_order ?p q" if q: "q \<in> set (take_positions k ?ob)" for q
    using take_positions_above [OF q step] take_positions_boot [OF q]
    by (simp add: in_order_def precedes_def word_not_simps not_less order_less_imp_le)
  then show ?case
    using Suc.IH [OF step] by (simp add: take_position_def Let_def)
qed simp

lemma run_boots_ids: "p \<in> set (run_boots boots d) \<Longrightarrow> ps_boot_id p \<in> fst ` set boots"
  by (induction boots d rule: run_boots.induct) (auto simp: observer_open_def dest: take_positions_boot split: prod.splits)

lemma run_boots_generations:
  "disk_ok d \<Longrightarrow> p \<in> set (run_boots boots d) \<Longrightarrow>
   ps_boot_generation p = 0 \<or> (\<exists>n. count_of d = Some n \<and> n < ps_boot_generation p)"
proof (induction boots d rule: run_boots.induct)
  case (2 boot_id k boots d)
  obtain res d1 where ng: "next_generation d = (res, d1)"
    by fastforce
  note c = next_generation_count [OF "2.prems"(1) ng]
  let ?ob = "\<lparr>ob_boot_id = boot_id, ob_boot_generation = (case res of Ok g \<Rightarrow> g | Err _ \<Rightarrow> 0), ob_last = 0\<rparr>"
  have op: "observer_open boot_id d = (?ob, d1)"
    by (simp add: observer_open_def ng)
  from "2.prems"(2) op consider "p \<in> set (take_positions k ?ob)" | "p \<in> set (run_boots boots d1)"
    by auto
  then show ?case
  proof cases
    case 1
    then show ?thesis
      using take_positions_boot [OF 1] c by (auto split: sum.splits)
  next
    case 2
    then show ?thesis
      using "2.IH" [OF op [symmetric] refl _ 2] c by fastforce
  qed
qed simp

lemma run_boots_in_order:
  "disk_ok d \<Longrightarrow> distinct (map fst boots) \<Longrightarrow> \<forall>b \<in> set boots. snd b < 2 ^ 64 \<Longrightarrow>
   sorted_wrt in_order (run_boots boots d)"
proof (induction boots d rule: run_boots.induct)
  case (2 boot_id k boots d)
  obtain res d1 where ng: "next_generation d = (res, d1)"
    by fastforce
  note c = next_generation_count [OF "2.prems"(1) ng]
  let ?ob = "\<lparr>ob_boot_id = boot_id, ob_boot_generation = (case res of Ok g \<Rightarrow> g | Err _ \<Rightarrow> 0), ob_last = 0\<rparr>"
  have op: "observer_open boot_id d = (?ob, d1)"
    by (simp add: observer_open_def ng)
  have rest: "sorted_wrt in_order (run_boots boots d1)"
    using "2.IH" [OF op [symmetric] refl] "2.prems" c by simp
  have first: "sorted_wrt in_order (take_positions k ?ob)"
    using "2.prems"(3) by (intro take_positions_in_order) simp
  have "in_order p q" if "p \<in> set (take_positions k ?ob)" and q: "q \<in> set (run_boots boots d1)" for p q
  proof -
    have "ps_boot_id q \<noteq> boot_id"
      using run_boots_ids [OF q] "2.prems"(2) by auto
    moreover have "ps_boot_generation q = 0 \<or> (\<exists>n. count_of d1 = Some n \<and> n < ps_boot_generation q)"
      using run_boots_generations [OF _ q] c by blast
    ultimately show ?thesis
      using take_positions_boot [OF that(1)] c
      by (auto simp: in_order_def comparable_def precedes_def split: sum.splits)
  qed
  with first rest show ?case
    by (simp add: op sorted_wrt_append)
qed simp

text \<open>
  C14. Whatever calls fail in whichever boots of a disk, a position given before another never comes after
  it in the order the consumers derive, and comes before it whenever the two can be compared: within one
  boot, and between boots that could persist their count. No boot gives 2^64 answers, and no two boots
  draw the same identifier.
\<close>

theorem positions_ordered:
  assumes "disk_ok d" and "distinct (map fst boots)" and "\<forall>b \<in> set boots. snd b < 2 ^ 64"
  shows "sorted_wrt (\<lambda>p q. (comparable p q \<longrightarrow> precedes p q) \<and> \<not> precedes q p) (run_boots boots d)"
proof -
  have "sorted_wrt in_order (run_boots boots d)"
    using assms by (rule run_boots_in_order)
  then show ?thesis
    by (simp add: in_order_def [abs_def])
qed

theorem positions_ordered_witness:
  "map ps_boot_generation (run_boots [(''a'', 2), (''b'', 1), (''c'', 1)] boots_disk) = [1, 1, 0, 2] \<and>
   sorted_wrt (\<lambda>p q. (comparable p q \<longrightarrow> precedes p q) \<and> \<not> precedes q p)
     (run_boots [(''a'', 2), (''b'', 1), (''c'', 1)] boots_disk)"
proof
  show "map ps_boot_generation (run_boots [(''a'', 2), (''b'', 1), (''c'', 1)] boots_disk) = [1, 1, 0, 2]"
    by code_simp
  show "sorted_wrt (\<lambda>p q. (comparable p q \<longrightarrow> precedes p q) \<and> \<not> precedes q p)
     (run_boots [(''a'', 2), (''b'', 1), (''c'', 1)] boots_disk)"
    by (rule positions_ordered) (simp_all add: boots_disk_def disk_ok_def)
qed

end
